(* ===== verification/Prelude.thy ===== *)
theory Prelude
  imports Main "HOL-Library.Sublist" "HOL-Library.List_Lexorder" "HOL-Library.Char_ord"
    "HOL-Library.Multiset" "HOL-Library.AList"
begin

text \<open>
  Shared vocabulary of the development.

  A Go string is a sequence of bytes; it is modelled by the type \<open>string\<close>
  (a list of 8-bit characters), so \<open>length\<close> is Go's \<open>len\<close>. This theory holds
  the functions of package \<open>strings\<close> the program calls, the wrap-around of a 64-bit
  \<open>int\<close>, durations and Unix seconds, and the list and map lemmas every component uses.

  \<^item> \<open>to_lower\<close> lower-cases the ASCII letters and leaves every other byte alone.
    Go's \<open>strings.ToLower\<close> agrees with it on ASCII text and on text whose other
    characters have no case; Unicode case tables are not modelled.
  \<^item> \<open>trim_space\<close> strips exactly the characters of \<open>unicode.IsSpace\<close>, the
    multi-byte ones included.
\<close>

named_theorems split_simps \<open>facts about cutting a string at a separator\<close>
named_theorems scan_simps \<open>selections and updates of a table of rows\<close>

section \<open>Machine integers, durations and time\<close>

text \<open>A Go \<open>int\<close>, \<open>int64\<close> and \<open>time.Duration\<close> has 64 bits; \<open>wrap64\<close> is the value a
  mathematical result takes in that width. The clock is a number of nanoseconds.\<close>

definition wrap64 :: "int \<Rightarrow> int" where
  "wrap64 i = (i + 2 ^ 63) mod 2 ^ 64 - 2 ^ 63"

lemma wrap64_id: "- (2 ^ 63) \<le> i \<Longrightarrow> i < 2 ^ 63 \<Longrightarrow> wrap64 i = i"
  by (simp add: wrap64_def)

lemma wrap64_range: "- (2 ^ 63) \<le> wrap64 i \<and> wrap64 i < 2 ^ 63"
proof -
  have "0 \<le> (i + 2 ^ 63) mod 2 ^ 64" and "(i + 2 ^ 63) mod 2 ^ 64 < 2 ^ 64"
    by simp_all
  then show ?thesis unfolding wrap64_def by simp
qed

type_synonym time = int

definition second_ns :: int where "second_ns = 1000000000"
definition minute_ns :: int where "minute_ns = 60 * second_ns"
definition hour_ns :: int where "hour_ns = 3600 * second_ns"

lemmas duration_defs = second_ns_def minute_ns_def hour_ns_def

definition unix :: "time \<Rightarrow> int" where
  "unix t = t div second_ns"

lemma unix_mono: "s \<le> t \<Longrightarrow> unix s \<le> unix t"
  by (simp add: unix_def second_ns_def zdiv_mono1)

lemma unix_add_seconds: "unix (t + n * second_ns) = unix t + n"
  by (simp add: unix_def second_ns_def)

text \<open>Integer division and remainder truncate towards zero in Go.\<close>

definition go_quot :: "int \<Rightarrow> int \<Rightarrow> int" where
  "go_quot a b = sgn a * sgn b * (\<bar>a\<bar> div \<bar>b\<bar>)"

definition go_rem :: "int \<Rightarrow> int \<Rightarrow> int" where
  "go_rem a b = a - b * go_quot a b"

lemma go_quot_nonneg: "0 \<le> a \<Longrightarrow> 0 < b \<Longrightarrow> go_quot a b = a div b"
  by (cases "a = 0") (simp_all add: go_quot_def)

lemma go_rem_nonneg: "0 \<le> a \<Longrightarrow> 0 < b \<Longrightarrow> go_rem a b = a mod b"
  by (simp add: go_rem_def go_quot_nonneg minus_mult_div_eq_mod)

text \<open>\<open>time.Time.Sub\<close> saturates at the longest duration; \<open>zero_time\<close> is the zero value of
  \<open>time.Time\<close>, the first instant of year 1.\<close>

definition max_duration :: int where "max_duration = 9223372036854775807"

definition time_sub :: "time \<Rightarrow> time \<Rightarrow> int" where
  "time_sub a b = max (- max_duration - 1) (min max_duration (a - b))"

definition zero_time :: time where "zero_time = -62135596800000000000"

lemma time_sub_small:
  "- max_duration - 1 \<le> a - b \<Longrightarrow> a - b \<le> max_duration \<Longrightarrow> time_sub a b = a - b"
  by (simp add: time_sub_def)

section \<open>Package strings\<close>

definition has_prefix :: "string \<Rightarrow> string \<Rightarrow> bool" where
  "has_prefix s p = (take (length p) s = p)"

definition has_suffix :: "string \<Rightarrow> string \<Rightarrow> bool" where
  "has_suffix s p = has_prefix (rev s) (rev p)"

definition trim_prefix :: "string \<Rightarrow> string \<Rightarrow> string" where
  "trim_prefix s p = (if has_prefix s p then drop (length p) s else s)"

definition trim_suffix :: "string \<Rightarrow> string \<Rightarrow> string" where
  "trim_suffix s p = (if has_suffix s p then take (length s - length p) s else s)"

fun contains :: "string \<Rightarrow> string \<Rightarrow> bool" where
  "contains [] p = (p = [])"
| "contains (c # s) p = (has_prefix (c # s) p \<or> contains s p)"

definition trim_right_char :: "char \<Rightarrow> string \<Rightarrow> string" where
  "trim_right_char c s = rev (dropWhile (\<lambda>x. x = c) (rev s))"

text \<open>\<open>strings.Split(s, c)\<close> for a one-byte separator: never an empty list.\<close>

fun split_on :: "char \<Rightarrow> string \<Rightarrow> string list" where
  "split_on c [] = [[]]"
| "split_on c (x # xs) =
     (if x = c then [] # split_on c xs
      else (case split_on c xs of [] \<Rightarrow> [[x]] | y # ys \<Rightarrow> (x # y) # ys))"

definition before_char :: "char \<Rightarrow> string \<Rightarrow> string" where
  "before_char c s = hd (split_on c s)"

fun join_with :: "string \<Rightarrow> string list \<Rightarrow> string" where
  "join_with sep [] = []"
| "join_with sep [x] = x"
| "join_with sep (x # y # ys) = x @ sep @ join_with sep (y # ys)"

text \<open>\<open>strings.Cut(s, c)\<close> for a one-byte separator: before, after, found.\<close>

definition cut :: "char \<Rightarrow> string \<Rightarrow> string \<times> string \<times> bool" where
  "cut c s = (let a = takeWhile (\<lambda>x. x \<noteq> c) s; r = dropWhile (\<lambda>x. x \<noteq> c) s
     in (a, drop 1 r, r \<noteq> []))"

subsection \<open>ASCII case and Unicode white space\<close>

definition byte :: "char \<Rightarrow> nat" where "byte c = of_char c"

lemma byte_inj: "byte c = byte d \<longleftrightarrow> c = d"
  by (simp add: byte_def)

lemma byte_less: "byte c < 256"
  using nat_of_char_less_256 [of c] by (simp add: byte_def)

definition is_upper :: "char \<Rightarrow> bool" where "is_upper c = (65 \<le> byte c \<and> byte c \<le> 90)"
definition is_lower :: "char \<Rightarrow> bool" where "is_lower c = (97 \<le> byte c \<and> byte c \<le> 122)"
definition is_digit :: "char \<Rightarrow> bool" where "is_digit c = (48 \<le> byte c \<and> byte c \<le> 57)"
definition is_alpha :: "char \<Rightarrow> bool" where "is_alpha c = (is_upper c \<or> is_lower c)"
definition is_alnum :: "char \<Rightarrow> bool" where "is_alnum c = (is_alpha c \<or> is_digit c)"

lemmas char_class_defs = is_upper_def is_lower_def is_digit_def is_alpha_def is_alnum_def byte_def

definition lower_char :: "char \<Rightarrow> char" where
  "lower_char c = (if is_upper c then char_of (byte c + 32) else c)"

definition to_lower :: "string \<Rightarrow> string" where
  "to_lower s = map lower_char s"

definition equal_fold :: "string \<Rightarrow> string \<Rightarrow> bool" where
  "equal_fold s t = (to_lower s = to_lower t)"

definition space_runes :: "string list" where
  "space_runes = map (map char_of)
     ([[9], [10], [11], [12], [13], [32], [194, 133], [194, 160], [225, 154, 128],
       [226, 128, 168], [226, 128, 169], [226, 128, 175], [226, 129, 159], [227, 128, 128]]
      @ map (\<lambda>n. [226, 128, n]) [128, 129, 130, 131, 132, 133, 134, 135, 136, 137, (138::nat)])"

text \<open>One leading white-space character is stripped per step; none is empty, so the string
  gets shorter.\<close>

definition leading_space :: "string list \<Rightarrow> string \<Rightarrow> string option" where
  "leading_space rs s = find (\<lambda>w. w \<noteq> [] \<and> has_prefix s w) rs"

function trim_left_runes :: "string list \<Rightarrow> string \<Rightarrow> string" where
  "trim_left_runes rs s =
     (case leading_space rs s of None \<Rightarrow> s | Some w \<Rightarrow> trim_left_runes rs (drop (length w) s))"
  by pat_completeness auto
termination
proof (relation "measure (length \<circ> snd)", goal_cases)
  case 1 show ?case by simp
next
  case (2 rs s w)
  then have "w \<noteq> []" and "has_prefix s w"
    by (auto simp: leading_space_def find_Some_iff)
  then have "0 < length w" and "w = take (length w) s"
    by (simp_all add: has_prefix_def)
  moreover from this(2) have "length w \<le> length s" by (metis length_take min.cobounded1)
  moreover from calculation(1,3) have "0 < length s" by linarith
  ultimately show ?case using \<open>0 < length w\<close> by (simp add: diff_less)
qed

declare trim_left_runes.simps [simp del]

definition trim_space :: "string \<Rightarrow> string" where
  "trim_space s =
     rev (trim_left_runes (map rev space_runes) (rev (trim_left_runes space_runes s)))"

section \<open>Numbers as text\<close>

definition digit_value :: "char \<Rightarrow> nat" where "digit_value c = byte c - 48"

definition dec_value :: "string \<Rightarrow> nat" where
  "dec_value s = foldl (\<lambda>n c. 10 * n + digit_value c) 0 s"

definition is_number :: "string \<Rightarrow> bool" where
  "is_number s = (s \<noteq> [] \<and> list_all is_digit s)"

text \<open>\<open>strconv.Atoi\<close>: an optional sign, digits, and a value that fits 64 bits.\<close>

definition Atoi :: "string \<Rightarrow> int option" where
  "Atoi s =
     (let neg = has_prefix s ''-''; ds = (if neg \<or> has_prefix s ''+'' then drop 1 s else s);
          v = (if neg then - int (dec_value ds) else int (dec_value ds))
      in if is_number ds \<and> - (2 ^ 63) \<le> v \<and> v < 2 ^ 63 then Some v else None)"

function nat_digits :: "nat \<Rightarrow> string" where
  "nat_digits n = (if n < 10 then [char_of (48 + n)] else nat_digits (n div 10) @ [char_of (48 + n mod 10)])"
  by pat_completeness auto
termination by (relation "measure id") auto

declare nat_digits.simps [simp del]

definition Itoa :: "int \<Rightarrow> string" where
  "Itoa i = (if i < 0 then ''-'' @ nat_digits (nat (- i)) else nat_digits (nat i))"

lemma dec_value_snoc: "dec_value (s @ [c]) = 10 * dec_value s + digit_value c"
  by (simp add: dec_value_def)

lemma digit_char: "d < 10 \<Longrightarrow> is_digit (char_of (48 + d)) \<and> digit_value (char_of (48 + d :: nat)) = d"
  by (simp add: is_digit_def digit_value_def byte_def)

lemma nat_digits_value: "is_number (nat_digits n) \<and> dec_value (nat_digits n) = n"
proof (induction n rule: nat_digits.induct)
  case (1 n)
  show ?case
  proof (cases "n < 10")
    case True
    then show ?thesis using digit_char [of n]
      by (subst (1 2) nat_digits.simps) (simp add: is_number_def dec_value_def)
  next
    case False
    with 1 digit_char [of "n mod 10"] show ?thesis
      by (subst (1 2) nat_digits.simps) (simp add: is_number_def dec_value_snoc)
  qed
qed

lemma nat_digits_sign: "\<not> has_prefix (nat_digits n) ''-'' \<and> \<not> has_prefix (nat_digits n) ''+''"
proof -
  have "list_all is_digit (nat_digits n)" using nat_digits_value [of n] by (simp add: is_number_def)
  then show ?thesis
    by (cases "nat_digits n") (auto simp: has_prefix_def is_digit_def byte_def)
qed

lemma Atoi_Itoa: "- (2 ^ 63) \<le> i \<Longrightarrow> i < 2 ^ 63 \<Longrightarrow> Atoi (Itoa i) = Some i"
  using nat_digits_value [of "nat i"] nat_digits_value [of "nat (- i)"] nat_digits_sign [of "nat i"]
  by (auto simp: Atoi_def Itoa_def Let_def has_prefix_def)

section \<open>Lemmas about cutting and joining\<close>

lemma split_on_nonempty [simp]: "split_on c s \<noteq> []"
  by (induction s) (auto split: list.splits)

lemma split_on_hd [split_simps]: "hd (split_on c s) = takeWhile (\<lambda>x. x \<noteq> c) s"
  by (induction s) (auto split: list.splits)

lemma split_on_none [split_simps]: "c \<notin> set s \<Longrightarrow> split_on c s = [s]"
  by (induction s) auto

lemma split_on_append [split_simps]:
  "c \<notin> set a \<Longrightarrow> split_on c (a @ c # b) = a # split_on c b"
  by (induction a) auto

lemma split_on_parts: "p \<in> set (split_on c s) \<Longrightarrow> c \<notin> set p"
  by (induction s arbitrary: p) (auto split: list.splits if_splits)

lemma join_split: "join_with [c] (split_on c s) = s"
proof (induction s)
  case (Cons x xs)
  obtain y ys where y: "split_on c xs = y # ys" by (cases "split_on c xs") auto
  with Cons.IH show ?case by (cases ys) auto
qed simp

lemma split_join:
  "xs \<noteq> [] \<Longrightarrow> (\<forall>x\<in>set xs. c \<notin> set x) \<Longrightarrow> split_on c (join_with [c] xs) = xs"
  by (induction "[c]" xs rule: join_with.induct) (auto simp: split_simps)

lemma before_char_none [split_simps]: "c \<notin> set s \<Longrightarrow> before_char c s = s"
  by (simp add: before_char_def split_simps)

lemma before_char_notin: "c \<notin> set (before_char c s)"
  by (auto simp: before_char_def split_simps dest: set_takeWhileD)

lemma cut_eq: "cut c s = (a, b, f) \<Longrightarrow> c \<notin> set a \<and> s = (if f then a @ c # b else a) \<and> (\<not> f \<longrightarrow> b = [])"
proof -
  assume a: "cut c s = (a, b, f)"
  have s: "s = takeWhile (\<lambda>x. x \<noteq> c) s @ dropWhile (\<lambda>x. x \<noteq> c) s" by simp
  have n: "c \<notin> set (takeWhile (\<lambda>x. x \<noteq> c) s)" by (auto dest: set_takeWhileD)
  show ?thesis
  proof (cases "dropWhile (\<lambda>x. x \<noteq> c) s")
    case Nil
    with a s n show ?thesis by (auto simp: cut_def)
  next
    case (Cons x xs)
    then have "x = c" by (metis (full_types) hd_dropWhile list.distinct(1) list.sel(1))
    with Cons a s n show ?thesis by (auto simp: cut_def Let_def)
  qed
qed

lemma cut_found [split_simps]: "c \<notin> set a \<Longrightarrow> cut c (a @ c # b) = (a, b, True)"
  by (induction a) (auto simp: cut_def Let_def)

lemma cut_none [split_simps]: "c \<notin> set a \<Longrightarrow> cut c a = (a, [], False)"
proof -
  assume "c \<notin> set a"
  then have "takeWhile (\<lambda>x. x \<noteq> c) a = a" and "dropWhile (\<lambda>x. x \<noteq> c) a = []"
    by (auto simp: takeWhile_eq_all_conv dropWhile_eq_Nil_conv)
  then show ?thesis unfolding cut_def Let_def by (simp only:) simp
qed

lemma has_prefix_iff: "has_prefix s p \<longleftrightarrow> (\<exists>r. s = p @ r)"
  by (auto simp: has_prefix_def) (metis append_take_drop_id)

lemma has_prefix_append [simp]: "has_prefix (p @ r) p"
  by (auto simp: has_prefix_iff)

lemma lower_char_idem [simp]: "lower_char (lower_char c) = lower_char c"
proof (cases "is_upper c")
  case True
  then have "byte (char_of (byte c + 32)) = byte c + 32"
    by (simp add: byte_def is_upper_def)
  with True show ?thesis by (simp add: lower_char_def is_upper_def)
qed (simp add: lower_char_def)

lemma to_lower_idem [simp]: "to_lower (to_lower s) = to_lower s"
  by (simp add: to_lower_def)

lemma to_lower_append [simp]: "to_lower (s @ t) = to_lower s @ to_lower t"
  by (simp add: to_lower_def)

lemma length_to_lower [simp]: "length (to_lower s) = length s"
  by (simp add: to_lower_def)

text \<open>A string that begins and ends with a visible ASCII character has nothing to trim.\<close>

definition visible :: "char \<Rightarrow> bool" where "visible c = (33 \<le> byte c \<and> byte c \<le> 126)"

lemma space_runes_heads:
  "list_all (\<lambda>w. w \<noteq> [] \<and> \<not> visible (hd w) \<and> \<not> visible (last w)) space_runes"
  by (simp add: space_runes_def visible_def byte_def)

lemma leading_space_visible:
  assumes "\<forall>w\<in>set rs. w \<noteq> [] \<longrightarrow> \<not> visible (hd w)" and "s \<noteq> []" and "visible (hd s)"
  shows "leading_space rs s = None"
proof -
  have "\<not> (w \<noteq> [] \<and> has_prefix s w)" if "w \<in> set rs" for w
    using assms that by (cases w; cases s) (force simp: has_prefix_iff)+
  then show ?thesis by (simp add: leading_space_def find_None_iff)
qed

lemma trim_visible: "s \<noteq> [] \<Longrightarrow> visible (hd s) \<Longrightarrow> visible (last s) \<Longrightarrow> trim_space s = s"
  using space_runes_heads
  by (simp add: trim_space_def trim_left_runes.simps leading_space_visible list_all_iff hd_rev)

lemma trim_empty [simp]: "trim_space [] = []"
proof -
  have "leading_space rs [] = None" for rs
    by (auto simp: leading_space_def find_None_iff has_prefix_def)
  then show ?thesis by (simp add: trim_space_def trim_left_runes.simps)
qed

text \<open>What trimming leaves has nothing left to trim: the left end of a string is not touched by
  trimming its right end.\<close>

lemma leading_space_prefix: "leading_space rs (s @ t) = None \<Longrightarrow> leading_space rs s = None"
  by (auto simp: leading_space_def find_None_iff has_prefix_iff)

lemma trim_left_runes_done:
  "leading_space rs (trim_left_runes rs s) = None \<and> (\<exists>cut. s = cut @ trim_left_runes rs s)"
proof (induction rs s rule: trim_left_runes.induct)
  case (1 rs s)
  show ?case
  proof (cases "leading_space rs s")
    case (Some w)
    note IH = 1 [OF Some]
    from IH obtain cut where "drop (length w) s = cut @ trim_left_runes rs (drop (length w) s)" by blast
    then have "s = (take (length w) s @ cut) @ trim_left_runes rs (drop (length w) s)"
      by (metis append.assoc append_take_drop_id)
    moreover have "trim_left_runes rs s = trim_left_runes rs (drop (length w) s)"
      by (subst trim_left_runes.simps) (simp add: Some)
    ultimately show ?thesis using IH by metis
  qed (simp add: trim_left_runes.simps)
qed

lemma trim_space_idem [simp]: "trim_space (trim_space s) = trim_space s"
proof -
  let ?a = "trim_left_runes space_runes s"
  let ?r = "trim_left_runes (map rev space_runes) (rev ?a)"
  obtain cut where "rev ?a = cut @ ?r" using trim_left_runes_done by blast
  then have "?a = rev ?r @ rev cut" by (metis rev_append rev_rev_ident)
  then have "leading_space space_runes (rev ?r) = None"
    using trim_left_runes_done leading_space_prefix by metis
  moreover have "leading_space (map rev space_runes) ?r = None" using trim_left_runes_done by blast
  ultimately show ?thesis by (simp add: trim_space_def trim_left_runes.simps)
qed

section \<open>Rows of a table\<close>

text \<open>A table is its list of rows in insertion order; \<open>update_rows\<close> is
  \<open>UPDATE .. WHERE\<close>, deletion is \<open>filter\<close>, a selection is \<open>find\<close> or \<open>filter\<close>.\<close>

definition update_rows :: "('r \<Rightarrow> bool) \<Rightarrow> ('r \<Rightarrow> 'r) \<Rightarrow> 'r list \<Rightarrow> 'r list" where
  "update_rows p f rs = map (\<lambda>r. if p r then f r else r) rs"

lemma set_update_rows [scan_simps]:
  "set (update_rows p f rs) = f ` {r \<in> set rs. p r} \<union> {r \<in> set rs. \<not> p r}"
  by (auto simp: update_rows_def)

lemma find_Some_in: "find p rs = Some r \<Longrightarrow> r \<in> set rs \<and> p r"
  by (auto simp: find_Some_iff)

lemma find_unique:
  assumes "r \<in> set rs" and "p r" and "\<And>s. s \<in> set rs \<Longrightarrow> p s \<Longrightarrow> s = r"
  shows "find p rs = Some r"
proof (cases "find p rs")
  case None
  with assms(1,2) show ?thesis by (auto simp: find_None_iff)
next
  case (Some s)
  with assms(3) [of s] show ?thesis by (auto dest: find_Some_in)
qed

lemma find_update_rows_other:
  assumes "\<And>r. r \<in> set rs \<Longrightarrow> q r \<Longrightarrow> \<not> p r" and "\<And>r. r \<in> set rs \<Longrightarrow> p r \<Longrightarrow> \<not> q (f r)"
  shows "find q (update_rows p f rs) = find q rs"
  using assms
proof (induction rs)
  case (Cons r rs)
  have "find q (update_rows p f rs) = find q rs"
    by (rule Cons.IH) (use Cons.prems in force)+
  with Cons.prems [of r] show ?case by (cases "p r"; cases "q r") (simp_all add: update_rows_def)
qed (simp add: update_rows_def)

lemma map_update_rows_inv [scan_simps]:
  "(\<And>r. g (f r) = g r) \<Longrightarrow> map g (update_rows p f rs) = map g rs"
  by (simp add: update_rows_def)

lemma distinct_map_filter_rows [scan_simps, intro]:
  "distinct (map g rs) \<Longrightarrow> distinct (map g (filter p rs))"
  by (rule distinct_map_filter)

lemma distinct_map_mset:
  "mset xs = mset ys \<Longrightarrow> distinct (map f xs) = distinct (map f ys)"
  by (rule mset_eq_imp_distinct_iff) simp

lemma distinct_map_inj:
  "distinct (map g rs) \<Longrightarrow> r \<in> set rs \<Longrightarrow> s \<in> set rs \<Longrightarrow> g r = g s \<Longrightarrow> r = s"
  by (simp add: distinct_map inj_on_def)

end
