(* ===== verification/Rate_Limits.thy ===== *)
theory Rate_Limits
  imports Prelude Complex_Main
begin

text \<open>
  Abuse limits, internal/services/limites.go: the token bucket that budgets writes per
  identity, and the guard that budgets PIN attempts per link. A Go map is an association
  list with distinct keys (its length is Go's \<open>len\<close>), updated with \<^const>\<open>AList.update\<close>.

  The bucket counts in \<open>float64\<close>. A float is a rational number here and every operation on
  floats is followed by the rounding function \<open>rnd\<close>, an argument of the model; what a theorem
  needs of it (values it must not change, monotonicity, an error bound) is a hypothesis.
\<close>

section \<open>The token bucket\<close>

record bucket_entry =
  be_tokens :: rat
  be_seen :: time

record token_bucket =
  tb_capacity :: rat
  tb_refill :: rat
  tb_entries :: "(string \<times> bucket_entry) list"

text \<open>\<open>time.Duration.Seconds\<close>: whole seconds plus the rest divided by 1e9.\<close>

definition seconds_of :: "(rat \<Rightarrow> rat) \<Rightarrow> int \<Rightarrow> rat" where
  "seconds_of rnd d =
     rnd (rnd (of_int (go_quot d second_ns)) + rnd (of_int (go_rem d second_ns) / 1000000000))"

definition NewTokenBucket :: "(rat \<Rightarrow> rat) \<Rightarrow> int \<Rightarrow> int \<Rightarrow> token_bucket" where
  "NewTokenBucket rnd capacity window =
     (let capacity = (if capacity < 1 then 1 else capacity);
          window = (if window \<le> 0 then minute_ns else window)
      in \<lparr>tb_capacity = rnd (of_int capacity),
          tb_refill = rnd (rnd (of_int capacity) / seconds_of rnd window),
          tb_entries = []\<rparr>)"

definition bucket_sweepLocked :: "(rat \<Rightarrow> rat) \<Rightarrow> time \<Rightarrow> token_bucket \<Rightarrow> token_bucket" where
  "bucket_sweepLocked rnd now b =
     (if length (tb_entries b) < 1024 then b
      else let full = wrap64 (floor (rnd (tb_capacity b / tb_refill b)) * second_ns)
           in b\<lparr>tb_entries := filter (\<lambda>(key, entry). \<not> time_sub now (be_seen entry) > full) (tb_entries b)\<rparr>)"

text \<open>The refill step of an existing entry, and the whole of \<open>Allow\<close>.\<close>

definition refilled :: "(rat \<Rightarrow> rat) \<Rightarrow> time \<Rightarrow> token_bucket \<Rightarrow> bucket_entry \<Rightarrow> rat" where
  "refilled rnd now b e =
     (let t = rnd (be_tokens e + rnd (seconds_of rnd (time_sub now (be_seen e)) * tb_refill b))
      in if t > tb_capacity b then tb_capacity b else t)"

definition TokenBucket_Allow ::
  "(rat \<Rightarrow> rat) \<Rightarrow> time \<Rightarrow> string \<Rightarrow> token_bucket \<Rightarrow> token_bucket \<times> bool" where
  "TokenBucket_Allow rnd now key b =
     (if key = [] then (b, False)
      else (case map_of (tb_entries b) key of
        None \<Rightarrow>
          (bucket_sweepLocked rnd now
             (b\<lparr>tb_entries := AList.update key
                  \<lparr>be_tokens = rnd (tb_capacity b - 1), be_seen = now\<rparr> (tb_entries b)\<rparr>), True)
      | Some e \<Rightarrow>
          let t = refilled rnd now b e in
          if t < 1
          then (b\<lparr>tb_entries := AList.update key \<lparr>be_tokens = t, be_seen = now\<rparr> (tb_entries b)\<rparr>, False)
          else (b\<lparr>tb_entries := AList.update key \<lparr>be_tokens = rnd (t - 1), be_seen = now\<rparr> (tb_entries b)\<rparr>, True)))"

section \<open>The PIN guard\<close>

record pin_state =
  ps_failures :: int
  ps_until :: time
  ps_seen :: time

record pin_guard =
  pg_maxTries :: int
  pg_lockFor :: int
  pg_state :: "(string \<times> pin_state) list"

definition NewPINGuard :: "int \<Rightarrow> int \<Rightarrow> pin_guard" where
  "NewPINGuard maxTries lockFor =
     \<lparr>pg_maxTries = (if maxTries < 1 then 5 else maxTries),
      pg_lockFor = (if lockFor \<le> 0 then 15 * minute_ns else lockFor),
      pg_state = []\<rparr>"

definition PINGuard_Locked :: "time \<Rightarrow> string \<Rightarrow> pin_guard \<Rightarrow> bool \<times> int" where
  "PINGuard_Locked now linkID g =
     (case map_of (pg_state g) linkID of
        None \<Rightarrow> (False, 0)
      | Some e \<Rightarrow>
          let remaining = time_sub (ps_until e) now
          in if remaining > 0 then (True, remaining) else (False, 0))"

definition guard_sweepLocked :: "time \<Rightarrow> (string \<times> pin_state) list \<Rightarrow> (string \<times> pin_state) list" where
  "guard_sweepLocked now st =
     (if length st < 1024 then st
      else filter (\<lambda>(key, e). \<not> (ps_until e < now \<and> time_sub now (ps_seen e) > 24 * hour_ns)) st)"

definition zero_pin_state :: pin_state where
  "zero_pin_state = \<lparr>ps_failures = 0, ps_until = zero_time, ps_seen = zero_time\<rparr>"

definition bump :: "time \<Rightarrow> pin_guard \<Rightarrow> pin_state \<Rightarrow> pin_state" where
  "bump now g e =
     (let failures = ps_failures e + 1 in
      if failures \<ge> pg_maxTries g
      then let rounds = go_quot failures (pg_maxTries g);
               wait = wrap64 (pg_lockFor g * rounds);
               wait = (if wait > 6 * hour_ns then 6 * hour_ns else wait)
           in e\<lparr>ps_failures := failures, ps_seen := now, ps_until := now + wait\<rparr>
      else e\<lparr>ps_failures := failures, ps_seen := now\<rparr>)"

text \<open>
  The entry is a pointer: it is put in the map first, the sweep runs, and only then are its
  fields written. When the sweep has taken its key out, those writes reach no entry of the map.
\<close>

definition PINGuard_Failed :: "time \<Rightarrow> string \<Rightarrow> pin_guard \<Rightarrow> pin_guard" where
  "PINGuard_Failed now linkID g =
     (case map_of (pg_state g) linkID of
        Some e \<Rightarrow> g\<lparr>pg_state := AList.update linkID (bump now g e) (pg_state g)\<rparr>
      | None \<Rightarrow>
          let st = guard_sweepLocked now (AList.update linkID zero_pin_state (pg_state g)) in
          (case map_of st linkID of
             Some e \<Rightarrow> g\<lparr>pg_state := AList.update linkID (bump now g e) st\<rparr>
           | None \<Rightarrow> g\<lparr>pg_state := st\<rparr>))"

definition PINGuard_Succeeded :: "string \<Rightarrow> pin_guard \<Rightarrow> pin_guard" where
  "PINGuard_Succeeded linkID g = g\<lparr>pg_state := AList.delete linkID (pg_state g)\<rparr>"

section \<open>Facts about the guard\<close>

lemma time_sub_pos: "0 < time_sub a b \<longleftrightarrow> b < a"
  unfolding time_sub_def max_duration_def by linarith

lemma Locked_iff: "fst (PINGuard_Locked now k g) \<longleftrightarrow>
    (\<exists>e. map_of (pg_state g) k = Some e \<and> now < ps_until e)"
  by (auto simp: PINGuard_Locked_def Let_def time_sub_pos split: option.splits)

lemma map_of_alist_update: "map_of (AList.update k v al) k' = ((map_of al)(k \<mapsto> v)) k'"
  by (simp add: update_conv')

lemma length_update_new: "map_of al k = None \<Longrightarrow> AList.update k v al = al @ [(k, v)]"
  by (induction al) (auto split: if_splits)

lemma map_of_filter_None: "map_of al k = None \<Longrightarrow> map_of (filter P al) k = None"
  by (auto simp: map_of_eq_None_iff)

lemma Failed_same [simp]:
  "pg_maxTries (PINGuard_Failed now k g) = pg_maxTries g"
  "pg_lockFor (PINGuard_Failed now k g) = pg_lockFor g"
  by (auto simp: PINGuard_Failed_def Let_def split: option.splits)

lemma Failed_known:
  "map_of (pg_state g) k = Some e \<Longrightarrow> map_of (pg_state (PINGuard_Failed now k g)) k = Some (bump now g e)"
  by (simp add: PINGuard_Failed_def map_of_alist_update)

lemma Failed_new:
  "map_of (pg_state g) k = None \<Longrightarrow> length (pg_state g) < 1023 \<Longrightarrow>
   map_of (pg_state (PINGuard_Failed now k g)) k = Some (bump now g zero_pin_state)"
  by (simp add: PINGuard_Failed_def Let_def guard_sweepLocked_def length_update_new map_of_alist_update
      map_add_def split: option.splits)

lemma Failed_other:
  "j \<noteq> k \<Longrightarrow> length (pg_state g) < 1023 \<Longrightarrow>
   map_of (pg_state (PINGuard_Failed now k g)) j = map_of (pg_state g) j"
  by (auto simp: PINGuard_Failed_def Let_def guard_sweepLocked_def length_update_new
      map_of_alist_update map_add_def split: option.splits)

text \<open>How many wrong PINs a link has seen, and until when it is locked.\<close>

definition failures_of :: "string \<Rightarrow> pin_guard \<Rightarrow> int" where
  "failures_of k g = (case map_of (pg_state g) k of None \<Rightarrow> 0 | Some e \<Rightarrow> ps_failures e)"

definition until_of :: "string \<Rightarrow> pin_guard \<Rightarrow> time" where
  "until_of k g = (case map_of (pg_state g) k of None \<Rightarrow> zero_time | Some e \<Rightarrow> ps_until e)"

definition recorded :: "string \<Rightarrow> pin_guard \<Rightarrow> bool" where
  "recorded k g \<longleftrightarrow> map_of (pg_state g) k \<noteq> None \<or> length (pg_state g) < 1023"

lemma Failed_recorded:
  assumes "recorded k g"
  shows "map_of (pg_state (PINGuard_Failed now k g)) k =
      Some (bump now g (case map_of (pg_state g) k of None \<Rightarrow> zero_pin_state | Some e \<Rightarrow> e))"
  using assms by (auto simp: recorded_def Failed_known Failed_new split: option.splits)

lemma Failed_counts:
  assumes "recorded k g"
  shows "recorded k (PINGuard_Failed now k g)"
    and "failures_of k (PINGuard_Failed now k g) = failures_of k g + 1"
  by (auto simp: recorded_def failures_of_def Failed_recorded [OF assms] bump_def Let_def
      zero_pin_state_def split: option.splits)

lemma wait_at_least:
  assumes "m \<le> f" and "0 < m" and "0 < w" and "w \<le> 6 * hour_ns" and "w * f < 2 ^ 63"
  shows "w \<le> (let wait = wrap64 (w * go_quot f m) in if wait > 6 * hour_ns then 6 * hour_ns else wait)"
proof -
  have q: "1 \<le> f div m" "f div m \<le> f"
    using zdiv_mono1 [OF assms(1,2)] zdiv_mono2 [of f 1 m] assms(1,2) by simp_all
  have a: "w \<le> w * (f div m)"
    using mult_left_mono [OF q(1), of w] assms(3) by simp
  have b: "w * (f div m) \<le> w * f"
    using q(2) assms(3) by (intro mult_left_mono) simp_all
  have "wrap64 (w * (f div m)) = w * (f div m)"
    by (rule wrap64_id) (use a b assms(3,5) in linarith)+
  then show ?thesis
    using assms a by (simp add: Let_def go_quot_nonneg)
qed

lemma Failed_until:
  assumes r: "recorded k g" and m: "pg_maxTries g \<le> failures_of k g + 1" "0 < pg_maxTries g"
    and w: "0 < pg_lockFor g" "pg_lockFor g \<le> 6 * hour_ns" "pg_lockFor g * (failures_of k g + 1) < 2 ^ 63"
  shows "now + pg_lockFor g \<le> until_of k (PINGuard_Failed now k g)"
proof -
  let ?e = "case map_of (pg_state g) k of None \<Rightarrow> zero_pin_state | Some e \<Rightarrow> e"
  have f: "ps_failures ?e = failures_of k g"
    by (auto simp: failures_of_def zero_pin_state_def split: option.splits)
  show ?thesis
    using wait_at_least [OF m w] m(1)
    by (simp add: until_of_def Failed_recorded [OF r] bump_def f Let_def)
qed

section \<open>Guessing a PIN\<close>

lemma Succeeded_same [simp]:
  "pg_maxTries (PINGuard_Succeeded k g) = pg_maxTries g" "pg_lockFor (PINGuard_Succeeded k g) = pg_lockFor g"
  by (simp_all add: PINGuard_Succeeded_def)

lemma Succeeded_other: "j \<noteq> k \<Longrightarrow> map_of (pg_state (PINGuard_Succeeded j g)) k = map_of (pg_state g) k"
  by (simp add: PINGuard_Succeeded_def delete_conv')

text \<open>
  The PIN page takes the mutex of the guard twice, for \<open>Locked\<close> and for \<open>Failed\<close>, and compares the PIN
  by bcrypt in between without it (handlers/pin.go, \<open>Verify\<close>). So attempts on a link overlap: several
  may be let in before the first of them is recorded. \<open>guessing k p s g0 n q t g\<close>: from guard \<open>g0\<close> at
  time \<open>s\<close>, with attempts on link \<open>k\<close> none of which has the right PIN and attempts on other links
  that may, the guard is \<open>g\<close> at time \<open>t\<close>; \<open>n\<close> attempts on \<open>k\<close> have been let in, of which \<open>q\<close>, never more
  than \<open>p\<close>, are being compared. The clock does not go back from one holder of the mutex to the next,
  and the guard has room (fewer than 1023 links) when a failure is recorded.
\<close>

inductive guessing :: "string \<Rightarrow> nat \<Rightarrow> time \<Rightarrow> pin_guard \<Rightarrow> nat \<Rightarrow> nat \<Rightarrow> time \<Rightarrow> pin_guard \<Rightarrow> bool"
  for k p s g0 where
  begin_guessing: "guessing k p s g0 0 0 s g0"
| refused: "guessing k p s g0 n q t g \<Longrightarrow> t \<le> t' \<Longrightarrow> fst (PINGuard_Locked t' k g) \<Longrightarrow> guessing k p s g0 n q t' g"
| let_in: "guessing k p s g0 n q t g \<Longrightarrow> t \<le> t' \<Longrightarrow> \<not> fst (PINGuard_Locked t' k g) \<Longrightarrow> q < p \<Longrightarrow>
    guessing k p s g0 (Suc n) (Suc q) t' g"
| wrong: "guessing k p s g0 n (Suc q) t g \<Longrightarrow> t \<le> t' \<Longrightarrow> length (pg_state g) < 1023 \<Longrightarrow>
    guessing k p s g0 n q t' (PINGuard_Failed t' k g)"
| wrong_elsewhere: "guessing k p s g0 n q t g \<Longrightarrow> t \<le> t' \<Longrightarrow> length (pg_state g) < 1023 \<Longrightarrow> j \<noteq> k \<Longrightarrow>
    guessing k p s g0 n q t' (PINGuard_Failed t' j g)"
| right_elsewhere: "guessing k p s g0 n q t g \<Longrightarrow> j \<noteq> k \<Longrightarrow> guessing k p s g0 n q t (PINGuard_Succeeded j g)"

lemma lock_budget_mono:
  assumes "(0::int) < w" and "w * int m < 2 ^ 63" and "n \<le> m"
  shows "w * int n < 2 ^ 63"
proof -
  have "w * int n \<le> w * int m" using assms(1,3) by (intro mult_left_mono) auto
  with assms(2) show ?thesis by linarith
qed

text \<open>
  What is kept. Before the first lock, what was let in is recorded or being compared. Afterwards the
  link has been open again \<open>r\<close> times, each after a full lock, and let in at most \<open>p\<close> attempts each
  time: it is locked for the next one, or those it may still let in are accounted for.
\<close>

definition rounds_ok :: "nat \<Rightarrow> time \<Rightarrow> string \<Rightarrow> nat \<Rightarrow> nat \<Rightarrow> time \<Rightarrow> pin_guard \<Rightarrow> bool" where
  "rounds_ok p s k n q t g \<longleftrightarrow> (\<exists>r. 0 \<le> r \<and> pg_lockFor g * r \<le> t - s \<and> int n \<le> pg_maxTries g - 1 + int p + int p * r \<and>
     (s + pg_lockFor g * (r + 1) \<le> until_of k g \<or>
      int n + (int p - int q) \<le> pg_maxTries g - 1 + int p + int p * r))"

lemma rounds_ok_later: "rounds_ok p s k n q t g \<Longrightarrow> t \<le> t' \<Longrightarrow> rounds_ok p s k n q t' g"
  unfolding rounds_ok_def by (meson diff_right_mono order_trans)

lemma rounds_ok_let_in:
  assumes "rounds_ok p s k n q t g" and "t \<le> t'" and "until_of k g \<le> t'" and "q < p"
  shows "rounds_ok p s k (Suc n) (Suc q) t' g"
proof -
  obtain r where r: "0 \<le> r" "pg_lockFor g * r \<le> t - s" "int n \<le> pg_maxTries g - 1 + int p + int p * r"
    "s + pg_lockFor g * (r + 1) \<le> until_of k g \<or> int n + (int p - int q) \<le> pg_maxTries g - 1 + int p + int p * r"
    using assms(1) by (auto simp: rounds_ok_def)
  from r(4) show ?thesis
  proof
    assume "s + pg_lockFor g * (r + 1) \<le> until_of k g"
    then have "pg_lockFor g * (r + 1) \<le> t' - s" using assms(3) by linarith
    moreover have "int (Suc n) \<le> pg_maxTries g - 1 + int p + int p * (r + 1)"
      "int (Suc n) + (int p - int (Suc q)) \<le> pg_maxTries g - 1 + int p + int p * (r + 1)"
      using r(3) assms(4) by (simp_all add: distrib_left)
    ultimately show ?thesis unfolding rounds_ok_def using r(1) by (intro exI [of _ "r + 1"]) simp
  next
    assume "int n + (int p - int q) \<le> pg_maxTries g - 1 + int p + int p * r"
    then show ?thesis unfolding rounds_ok_def using r(1,2) assms(2,4) by (intro exI [of _ r]) auto
  qed
qed

lemma rounds_ok_failed:
  assumes "rounds_ok p s k n q t g" and "t \<le> t'" and "t' + pg_lockFor g \<le> until_of k (PINGuard_Failed t' k g)"
  shows "rounds_ok p s k n q' t' (PINGuard_Failed t' k g)"
proof -
  obtain r where r: "0 \<le> r" "pg_lockFor g * r \<le> t - s" "int n \<le> pg_maxTries g - 1 + int p + int p * r"
    using assms(1) by (auto simp: rounds_ok_def)
  then have "s + pg_lockFor g * (r + 1) \<le> until_of k (PINGuard_Failed t' k g)"
    using assms(2,3) by (simp add: distrib_left)
  with r assms(2) show ?thesis unfolding rounds_ok_def by (intro exI [of _ r]) simp
qed

lemma guessing_invariant:
  assumes "guessing k p s g0 n q t g" and "map_of (pg_state g0) k = None"
    and "0 < pg_maxTries g0" and "0 < pg_lockFor g0" and "pg_lockFor g0 \<le> 6 * hour_ns" and "pg_lockFor g0 * int n < 2 ^ 63"
  shows "pg_maxTries g = pg_maxTries g0 \<and> pg_lockFor g = pg_lockFor g0 \<and> s \<le> t \<and> q \<le> p \<and>
    failures_of k g + int q = int n \<and> (pg_maxTries g0 \<le> failures_of k g \<longrightarrow> rounds_ok p s k n q t g)"
  using assms(1,6)
proof induction
  case begin_guessing
  then show ?case using assms(2,3) by (simp add: failures_of_def)
next
  case (refused n q t g t')
  then show ?case using rounds_ok_later by auto
next
  case (let_in n q t g t')
  have ih: "pg_maxTries g = pg_maxTries g0 \<and> pg_lockFor g = pg_lockFor g0 \<and> s \<le> t \<and> q \<le> p \<and>
      failures_of k g + int q = int n \<and> (pg_maxTries g0 \<le> failures_of k g \<longrightarrow> rounds_ok p s k n q t g)"
    using let_in.IH lock_budget_mono [OF assms(4) let_in.prems, of n] by simp
  have "rounds_ok p s k (Suc n) (Suc q) t' g" if f: "pg_maxTries g0 \<le> failures_of k g"
  proof (rule rounds_ok_let_in [OF _ let_in.hyps(2) _ let_in.hyps(4)])
    show "until_of k g \<le> t'"
      using let_in.hyps(3) f assms(3) by (auto simp: Locked_iff until_of_def failures_of_def split: option.splits)
  qed (use ih f in simp)
  then show ?case using ih let_in.hyps(2,4) by auto
next
  case (wrong n q t g t')
  then have ih: "pg_maxTries g = pg_maxTries g0" "pg_lockFor g = pg_lockFor g0" "s \<le> t" "Suc q \<le> p"
    "failures_of k g + int (Suc q) = int n" "pg_maxTries g0 \<le> failures_of k g \<longrightarrow> rounds_ok p s k n (Suc q) t g" by simp_all
  have r: "recorded k g" using wrong.hyps(3) by (simp add: recorded_def)
  note c = Failed_counts(2) [OF r, of t']
  have "rounds_ok p s k n q t' (PINGuard_Failed t' k g)" if m: "pg_maxTries g0 \<le> failures_of k g + 1"
  proof -
    have f: "failures_of k g + 1 = int (n - q)" using m ih(5) assms(3) by simp
    have u: "t' + pg_lockFor g \<le> until_of k (PINGuard_Failed t' k g)"
      by (rule Failed_until [OF r]) (use m ih(1,2) assms(3-5) lock_budget_mono [OF assms(4) wrong.prems, of "n - q"] f in simp_all)
    show ?thesis
    proof (cases "pg_maxTries g0 \<le> failures_of k g")
      case True
      then show ?thesis using ih(6) rounds_ok_failed [OF _ wrong.hyps(2) u] by simp
    next
      case False
      then have "int n \<le> pg_maxTries g - 1 + int p" using ih(1,4,5) by simp
      moreover have "s + pg_lockFor g \<le> until_of k (PINGuard_Failed t' k g)" using u ih(3) wrong.hyps(2) by linarith
      ultimately show ?thesis unfolding rounds_ok_def using ih(3) wrong.hyps(2) by (intro exI [of _ 0]) simp
    qed
  qed
  then show ?case using ih c wrong.hyps(2) by simp
next
  case (wrong_elsewhere n q t g t' j)
  have "failures_of k (PINGuard_Failed t' j g) = failures_of k g" "until_of k (PINGuard_Failed t' j g) = until_of k g"
    using Failed_other [of k j g t'] wrong_elsewhere.hyps(3,4) by (simp_all add: failures_of_def until_of_def)
  then have "rounds_ok p s k n q t' (PINGuard_Failed t' j g) = rounds_ok p s k n q t' g" by (simp add: rounds_ok_def)
  with \<open>failures_of k (PINGuard_Failed t' j g) = failures_of k g\<close> wrong_elsewhere rounds_ok_later [of p s k n q t g t']
  show ?case by auto
next
  case (right_elsewhere n q t g j)
  have "failures_of k (PINGuard_Succeeded j g) = failures_of k g" "until_of k (PINGuard_Succeeded j g) = until_of k g"
    using Succeeded_other [OF right_elsewhere.hyps(2)] by (simp_all add: failures_of_def until_of_def)
  then have "rounds_ok p s k n q t (PINGuard_Succeeded j g) = rounds_ok p s k n q t g" by (simp add: rounds_ok_def)
  with \<open>failures_of k (PINGuard_Succeeded j g) = failures_of k g\<close> right_elsewhere show ?case by simp
qed

section \<open>Properties of the limits\<close>

text \<open>
  Claim C20. The PIN budget bounds brute force, with attempts that overlap. From a guard that has not
  seen the link, of attempts that all have a wrong PIN, of which at most \<open>p\<close> are compared at any time,
  at most \<open>maxTries - 1 + p\<close> are evaluated before the first lock, and at most \<open>p\<close> more for every full
  \<open>lockFor\<close> of the time that passes, whatever happens to other links meanwhile; for an attacker who
  guesses one at a time, \<open>maxTries\<close> and one more for every \<open>lockFor\<close>. This is under the conditions of
  \<open>guessing\<close>: nobody enters the right PIN of the link (that forgets its failures), the clock does not
  go back, and the guard tracks fewer than 1023 links (\<open>pin_budget_lost_when_crowded\<close> shows what
  happens otherwise); \<open>lockFor\<close> is at most the six-hour cap and its product with the number of
  attempts fits 64 bits.
\<close>

theorem pin_guess_budget:
  assumes "guessing k p s g0 n q e g" and "map_of (pg_state g0) k = None"
    and "0 < pg_maxTries g0" and "0 < pg_lockFor g0" and "pg_lockFor g0 \<le> 6 * hour_ns" and "pg_lockFor g0 * int n < 2 ^ 63"
  shows "pg_lockFor g0 * (int n - (pg_maxTries g0 - 1 + int p)) \<le> int p * (e - s)"
proof -
  note inv = guessing_invariant [OF assms]
  show ?thesis
  proof (cases "pg_maxTries g0 \<le> failures_of k g")
    case True
    then obtain r where r: "pg_lockFor g0 * r \<le> e - s" "int n - (pg_maxTries g0 - 1 + int p) \<le> int p * r"
      using inv by (auto simp: rounds_ok_def)
    have "pg_lockFor g0 * (int n - (pg_maxTries g0 - 1 + int p)) \<le> pg_lockFor g0 * (int p * r)"
      using r(2) assms(4) by (intro mult_left_mono) simp_all
    also have "\<dots> = int p * (pg_lockFor g0 * r)" by simp
    also have "\<dots> \<le> int p * (e - s)" using r(1) by (intro mult_left_mono) simp_all
    finally show ?thesis .
  next
    case False
    then have "int n - (pg_maxTries g0 - 1 + int p) \<le> 0" using inv by linarith
    then have "pg_lockFor g0 * (int n - (pg_maxTries g0 - 1 + int p)) \<le> 0" using assms(4) by (simp add: mult_nonneg_nonpos)
    also have "0 \<le> int p * (e - s)" using inv by simp
    finally show ?thesis .
  qed
qed

text \<open>
  Two attempts at once against a budget of two: three are evaluated before the lock, so the bound is
  met, and the next one is refused.
\<close>

definition guard_after :: "nat \<Rightarrow> pin_guard" where
  "guard_after f = (PINGuard_Failed 4 ''id'' ^^ (f - 1)) ((PINGuard_Failed 1 ''id'' ^^ min f 1) (NewPINGuard 2 minute_ns))"

lemma guard_after_simps:
  "guard_after 0 = NewPINGuard 2 minute_ns" "guard_after (Suc 0) = PINGuard_Failed 1 ''id'' (guard_after 0)"
  "guard_after 2 = PINGuard_Failed 4 ''id'' (guard_after 1)"
  "length (pg_state (guard_after 0)) < 1023" "length (pg_state (guard_after (Suc 0))) < 1023"
  "\<not> fst (PINGuard_Locked t ''id'' (guard_after 0))" "\<not> fst (PINGuard_Locked 3 ''id'' (guard_after (Suc 0)))"
  "fst (PINGuard_Locked 5 ''id'' (guard_after 2))"
  by (simp_all add: guard_after_def NewPINGuard_def PINGuard_Failed_def guard_sweepLocked_def bump_def
      zero_pin_state_def Locked_iff zero_time_def duration_defs Let_def go_quot_def wrap64_def numeral_2_eq_2)

theorem pin_guess_budget_witness:
  "guessing ''id'' 2 0 (NewPINGuard 2 minute_ns) 3 1 5 (guard_after 2) \<and>
   minute_ns * (int 3 - (pg_maxTries (NewPINGuard 2 minute_ns) - 1 + int 2)) \<le> int 2 * (5 - 0)"
proof -
  note g = guard_after_simps
  let ?g = "guessing ''id'' 2 0 (NewPINGuard 2 minute_ns)"
  have "?g 0 0 0 (guard_after 0)" using guessing.begin_guessing by (simp add: g(1))
  from guessing.let_in [OF this order_refl g(6)] have "?g (Suc 0) (Suc 0) 0 (guard_after 0)" by simp
  from guessing.wrong [OF this _ g(4), of 1] have "?g (Suc 0) 0 1 (guard_after (Suc 0))" by (simp add: g(2))
  from guessing.let_in [OF this _ g(7)] have "?g (Suc (Suc 0)) (Suc 0) 3 (guard_after (Suc 0))" by simp
  from guessing.let_in [OF this order_refl g(7)] have "?g (Suc (Suc (Suc 0))) (Suc (Suc 0)) 3 (guard_after (Suc 0))" by simp
  from guessing.wrong [OF this _ g(5), of 4] have "?g 3 1 4 (guard_after 2)" by (simp add: g(3) numeral_3_eq_3)
  from guessing.refused [OF this _ g(8)] have r: "?g 3 1 5 (guard_after 2)" by simp
  have "pg_lockFor (NewPINGuard 2 minute_ns) = minute_ns" by (simp add: NewPINGuard_def duration_defs)
  with pin_guess_budget [OF r] r show ?thesis by (simp add: NewPINGuard_def duration_defs)
qed

text \<open>One who guesses one PIN after the other: \<open>guesses\<close> counts the evaluated ones.\<close>

fun guesses :: "time list \<Rightarrow> string \<Rightarrow> pin_guard \<Rightarrow> nat" where
  "guesses [] k g = 0"
| "guesses (t # ts) k g =
     (if fst (PINGuard_Locked t k g) then guesses ts k g
      else Suc (guesses ts k (PINGuard_Failed t k g)))"

text \<open>Entries the sweep keeps at time \<open>t\<close>: still locked, or seen within the last day.\<close>

definition kept :: "time \<Rightarrow> pin_state \<Rightarrow> bool" where
  "kept t e \<longleftrightarrow> \<not> (ps_until e < t \<and> time_sub t (ps_seen e) > 24 * hour_ns)"

lemma Failed_forgotten:
  assumes "map_of (pg_state g) k = None" and "1023 \<le> length (pg_state g)"
    and "\<forall>(j, e)\<in>set (pg_state g). kept t e" and "0 < t"
  shows "PINGuard_Failed t k g = g"
proof -
  have z: "\<not> kept t zero_pin_state"
    using assms(4) by (simp add: kept_def zero_pin_state_def zero_time_def time_sub_def max_duration_def duration_defs)
  have "guard_sweepLocked t (AList.update k zero_pin_state (pg_state g)) =
      filter (\<lambda>(j, e). kept t e) (pg_state g @ [(k, zero_pin_state)])"
    using assms(2) by (simp add: guard_sweepLocked_def length_update_new [OF assms(1)] kept_def)
  also have "\<dots> = pg_state g"
    using assms(3) z by (simp add: filter_id_conv)
  finally show ?thesis
    using assms(1) by (simp add: PINGuard_Failed_def)
qed

text \<open>
  Claim C39. The budget is not kept once the guard tracks 1023 other links: the entry of a new
  link is put in the map with zero times, and the sweep that runs before they are filled in
  takes it out again as idle. While the other entries are recent enough to be kept, every
  guess on that link, one after the other, is evaluated and none is ever recorded.
\<close>

theorem pin_budget_lost_when_crowded:
  assumes "map_of (pg_state g) k = None" and "1023 \<le> length (pg_state g)"
    and "\<forall>t\<in>set ts. 0 < t \<and> (\<forall>(j, e)\<in>set (pg_state g). kept t e)"
  shows "guesses ts k g = length ts"
  using assms
proof (induction ts)
  case (Cons t ts)
  have "PINGuard_Failed t k g = g"
    by (rule Failed_forgotten) (use Cons.prems in auto)
  moreover have "\<not> fst (PINGuard_Locked t k g)"
    using Cons.prems(1) by (simp add: Locked_iff)
  ultimately show ?case using Cons by simp
qed simp

definition crowded_guard :: pin_guard where
  "crowded_guard = (NewPINGuard 5 (15 * minute_ns))\<lparr>pg_state :=
     map (\<lambda>i. (replicate i CHR ''x'', \<lparr>ps_failures = 1, ps_until = zero_time, ps_seen = 1\<rparr>)) [1..<1024]\<rparr>"

lemma crowded_guard_facts:
  "map_of (pg_state crowded_guard) ''id'' = None" "length (pg_state crowded_guard) = 1023"
  "(j, e) \<in> set (pg_state crowded_guard) \<Longrightarrow> ps_seen e = 1"
proof -
  have ne: "''id'' \<noteq> replicate i CHR ''x''" for i
  proof
    assume eq: "''id'' = replicate i CHR ''x''"
    have "\<forall>c\<in>set (replicate i CHR ''x''). c = CHR ''x''" by simp
    then have "\<forall>c\<in>set ''id''. c = CHR ''x''" by (simp only: eq [symmetric])
    then show False by simp
  qed
  show "map_of (pg_state crowded_guard) ''id'' = None"
    unfolding map_of_eq_None_iff by (simp add: crowded_guard_def image_image image_iff ne)
qed (auto simp: crowded_guard_def)

theorem pin_budget_lost_when_crowded_witness: "guesses [1, 2, 3, 4, 5, 6, 7] ''id'' crowded_guard = 7"
proof -
  have "kept t e" if "(j, e) \<in> set (pg_state crowded_guard)" "t \<in> set [1, 2, 3, 4, 5, 6, 7]" for t j e
    using crowded_guard_facts(3) [OF that(1)] that(2)
    by (auto simp: kept_def time_sub_def max_duration_def duration_defs)
  then show ?thesis
    using pin_budget_lost_when_crowded [of crowded_guard "''id''" "[1, 2, 3, 4, 5, 6, 7]"]
      crowded_guard_facts(1,2) by fastforce
qed

subsection \<open>A burst of writes\<close>

definition bucket_full :: "(rat \<Rightarrow> rat) \<Rightarrow> token_bucket \<Rightarrow> int" where
  "bucket_full rnd b = wrap64 (floor (rnd (tb_capacity b / tb_refill b)) * second_ns)"

fun allow_run :: "(rat \<Rightarrow> rat) \<Rightarrow> time \<Rightarrow> string \<Rightarrow> nat \<Rightarrow> token_bucket \<Rightarrow> bool list" where
  "allow_run rnd now key 0 b = []"
| "allow_run rnd now key (Suc n) b =
     snd (TokenBucket_Allow rnd now key b) # allow_run rnd now key n (fst (TokenBucket_Allow rnd now key b))"

lemma refilled_now:
  assumes "rnd 0 = 0" and "rnd (be_tokens e) = be_tokens e" and "be_seen e = now"
    and "be_tokens e \<le> tb_capacity b"
  shows "refilled rnd now b e = be_tokens e"
proof -
  have "seconds_of rnd (time_sub now (be_seen e)) = 0"
    using assms(1,3) by (simp add: seconds_of_def time_sub_def max_duration_def go_quot_def go_rem_def)
  with assms show ?thesis by (simp add: refilled_def)
qed

lemma allow_run_known:
  assumes "key \<noteq> []" and ex: "\<And>n. 0 \<le> n \<Longrightarrow> n \<le> c \<Longrightarrow> rnd (of_int n) = of_int n"
    and "tb_capacity b = of_int c" and "int m \<le> c"
    and "map_of (tb_entries b) key = Some \<lparr>be_tokens = of_nat m, be_seen = now\<rparr>"
  shows "allow_run rnd now key n b = replicate (min n m) True @ replicate (n - m) False"
  using assms(3-5)
proof (induction n arbitrary: b m)
  case (Suc n)
  have r: "refilled rnd now b \<lparr>be_tokens = of_nat m, be_seen = now\<rparr> = of_nat m"
    using refilled_now [of rnd "\<lparr>be_tokens = of_nat m, be_seen = now\<rparr>" now b]
      Suc.prems(1,2) ex [of 0] ex [of "int m"] by simp
  show ?case
  proof (cases m)
    case 0
    with Suc.prems assms(1) r show ?thesis
      using Suc.IH [of "b\<lparr>tb_entries := AList.update key \<lparr>be_tokens = 0, be_seen = now\<rparr> (tb_entries b)\<rparr>" 0]
      by (simp add: TokenBucket_Allow_def Let_def map_of_alist_update)
  next
    case (Suc m')
    have "rnd (of_nat m') = of_nat m'" using ex [of "int m'"] Suc Suc.prems(2) by simp
    with Suc Suc.prems assms(1) r show ?thesis
      by (simp add: TokenBucket_Allow_def Let_def Suc.IH map_of_alist_update)
  qed
qed simp

text \<open>
  Writes are budgeted per identity: with a bucket of whole capacity \<open>c\<close> whose
  integers up to \<open>c\<close> floats represent exactly, a new identity that writes \<open>n\<close> times at one
  instant is allowed exactly the first \<open>c\<close> times and refused from then on.
\<close>

theorem burst_is_capacity:
  assumes "key \<noteq> []" and "\<forall>n. 0 \<le> n \<and> n \<le> c \<longrightarrow> rnd (of_int n) = of_int n"
    and "tb_capacity b = of_int c" and "1 \<le> c" and "map_of (tb_entries b) key = None"
    and "0 \<le> bucket_full rnd b"
  shows "allow_run rnd now key n b = replicate (min n (nat c)) True @ replicate (n - nat c) False"
proof (cases n)
  case (Suc m)
  let ?b = "b\<lparr>tb_entries := AList.update key \<lparr>be_tokens = rnd (tb_capacity b - 1), be_seen = now\<rparr> (tb_entries b)\<rparr>"
  let ?s = "bucket_sweepLocked rnd now ?b"
  have "rnd (tb_capacity b - 1) = of_nat (nat c - 1)"
    using assms(2) [rule_format, of "c - 1"] assms(3,4) by simp
  then have e: "map_of (tb_entries ?s) key = Some \<lparr>be_tokens = of_nat (nat c - 1), be_seen = now\<rparr>"
    using assms(5,6)
    by (simp add: bucket_sweepLocked_def length_update_new Let_def bucket_full_def
        map_of_filter_None map_add_def time_sub_def max_duration_def)
  have "tb_capacity ?s = of_int c" using assms(3) by (simp add: bucket_sweepLocked_def Let_def)
  then have "allow_run rnd now key m ?s =
      replicate (min m (nat c - 1)) True @ replicate (m - (nat c - 1)) False"
    using allow_run_known [OF assms(1) _ _ _ e] assms(2,4) by simp
  moreover have "Suc (min m (nat c - 1)) = min n (nat c)" "m - (nat c - 1) = n - nat c"
    using Suc assms(4) by auto
  ultimately show ?thesis
    using Suc assms(1,5) by (simp add: TokenBucket_Allow_def flip: replicate_Suc)
qed simp

theorem burst_is_capacity_witness:
  "allow_run (\<lambda>x. x) 0 ''user'' 3 (NewTokenBucket (\<lambda>x. x) 2 minute_ns) = [True, True, False]"
  using burst_is_capacity [of "''user''" 2 "\<lambda>x. x" "NewTokenBucket (\<lambda>x. x) 2 minute_ns" 0 3]
  by (simp add: NewTokenBucket_def seconds_of_def go_quot_def go_rem_def duration_defs bucket_full_def
      wrap64_def numeral_2_eq_2 numeral_3_eq_3)

end
