(* ===== verification/Models.thy ===== *)
theory Models
  imports Prelude
begin

text \<open>
  The data model, from internal/models: one record per Go struct, its fields in the struct's
  order. A Go pointer field is an \<open>option\<close> (\<open>nil\<close> is \<open>None\<close>), a Go map with string keys an
  association list with distinct keys, read with \<^const>\<open>map_of\<close>. The clock is an argument of
  every operation that reads it.
\<close>

section \<open>Links\<close>

record ab_variant =
  av_Name :: string
  av_TargetURL :: string
  av_Weight :: int
  av_ClickCount :: int

type_synonym locale_map = "(string \<times> string) list"

record link =
  l_ID :: string
  l_Slug :: string
  l_Domain :: string
  l_TargetURL :: string
  l_OriginalURL :: string
  l_Title :: string
  l_FolderID :: "string option"
  l_Tags :: "string list"
  l_HasPIN :: bool
  l_PinHash :: string
  l_RedirectType :: int
  l_ExpiresAt :: "int option"
  l_MaxClicks :: "int option"
  l_ClickCount :: int
  l_LastClickedAt :: "int option"
  l_CreatedBy :: string
  l_IsActive :: bool
  l_IOSURL :: string
  l_AndroidURL :: string
  l_LocaleRouting :: locale_map
  l_ABVariants :: "ab_variant list"
  l_CreatedAt :: int
  l_UpdatedAt :: int

text \<open>\<open>p != nil && *p > 0\<close>: the guard the code puts on every optional number.\<close>

definition pos_ptr :: "int option \<Rightarrow> bool" where
  "pos_ptr p = (case p of None \<Rightarrow> False | Some v \<Rightarrow> 0 < v)"

lemma pos_ptr_simps [simp]: "pos_ptr None = False" "pos_ptr (Some v) = (0 < v)"
  by (simp_all add: pos_ptr_def)

definition time_over :: "time \<Rightarrow> link \<Rightarrow> bool" where
  "time_over now l = (case l_ExpiresAt l of None \<Rightarrow> False | Some e \<Rightarrow> 0 < e \<and> e \<le> unix now)"

definition budget_spent :: "link \<Rightarrow> bool" where
  "budget_spent l = (case l_MaxClicks l of None \<Rightarrow> False | Some m \<Rightarrow> 0 < m \<and> m \<le> l_ClickCount l)"

definition IsExpired :: "time \<Rightarrow> link \<Rightarrow> bool" where
  "IsExpired now l =
     (if \<not> l_IsActive l then True
      else if time_over now l then True
      else if budget_spent l then True
      else False)"

definition ExpiryReason :: "time \<Rightarrow> link \<Rightarrow> string" where
  "ExpiryReason now l =
     (if \<not> l_IsActive l then ''This link has been deactivated by its owner.''
      else if time_over now l then ''This link has expired based on its scheduled time limit.''
      else if budget_spent l
        then ''This link has self-destructed after reaching its maximum click budget.''
      else '''')"

lemmas expiry_defs = IsExpired_def time_over_def budget_spent_def

lemma IsExpired_iff: "IsExpired now l \<longleftrightarrow> \<not> l_IsActive l \<or> time_over now l \<or> budget_spent l"
  by (simp add: IsExpired_def)

lemma time_over_mono: "time_over s l \<Longrightarrow> s \<le> t \<Longrightarrow> time_over t l"
  using unix_mono [of s t] by (auto simp: time_over_def split: option.splits)

lemma IsExpired_mono: "IsExpired s l \<Longrightarrow> s \<le> t \<Longrightarrow> IsExpired t l"
  by (auto simp: IsExpired_iff intro: time_over_mono)

section \<open>Requests\<close>

record create_link_request =
  cr_URL :: string
  cr_CustomSlug :: string
  cr_Domain :: string
  cr_Title :: string
  cr_FolderID :: "string option"
  cr_Tags :: "string list"
  cr_PIN :: string
  cr_RedirectType :: int
  cr_ExpiresInHours :: "int option"
  cr_ExpiresAt :: "int option"
  cr_MaxClicks :: "int option"
  cr_IOSURL :: string
  cr_AndroidURL :: string
  cr_LocaleRouting :: locale_map
  cr_ABVariants :: "ab_variant list"

record update_link_request =
  ur_TargetURL :: "string option"
  ur_Title :: "string option"
  ur_FolderID :: "string option"
  ur_Tags :: "string list option"
  ur_PIN :: "string option"
  ur_ExpiresAt :: "int option"
  ur_ExpiresInHours :: "int option"
  ur_MaxClicks :: "int option"
  ur_RedirectType :: "int option"
  ur_IsActive :: "bool option"
  ur_IOSURL :: "string option"
  ur_AndroidURL :: "string option"
  ur_LocaleRouting :: "locale_map option"
  ur_ABVariants :: "ab_variant list option"

text \<open>The request with every field absent (the zero value of the Go struct).\<close>

definition empty_create :: create_link_request where
  "empty_create = \<lparr>cr_URL = [], cr_CustomSlug = [], cr_Domain = [], cr_Title = [],
     cr_FolderID = None, cr_Tags = [], cr_PIN = [], cr_RedirectType = 0,
     cr_ExpiresInHours = None, cr_ExpiresAt = None, cr_MaxClicks = None, cr_IOSURL = [],
     cr_AndroidURL = [], cr_LocaleRouting = [], cr_ABVariants = []\<rparr>"

text \<open>The zero value of \<open>models.Link\<close>.\<close>

definition zero_link :: link where
  "zero_link = \<lparr>l_ID = [], l_Slug = [], l_Domain = [], l_TargetURL = [], l_OriginalURL = [], l_Title = [],
     l_FolderID = None, l_Tags = [], l_HasPIN = False, l_PinHash = [], l_RedirectType = 0,
     l_ExpiresAt = None, l_MaxClicks = None, l_ClickCount = 0, l_LastClickedAt = None, l_CreatedBy = [],
     l_IsActive = False, l_IOSURL = [], l_AndroidURL = [], l_LocaleRouting = [], l_ABVariants = [],
     l_CreatedAt = 0, l_UpdatedAt = 0\<rparr>"

definition empty_update :: update_link_request where
  "empty_update = \<lparr>ur_TargetURL = None, ur_Title = None, ur_FolderID = None, ur_Tags = None,
     ur_PIN = None, ur_ExpiresAt = None, ur_ExpiresInHours = None, ur_MaxClicks = None,
     ur_RedirectType = None, ur_IsActive = None, ur_IOSURL = None, ur_AndroidURL = None,
     ur_LocaleRouting = None, ur_ABVariants = None\<rparr>"

section \<open>Sessions, folders, domains, API keys, webhooks\<close>

record user_session =
  us_UserID :: string
  us_Username :: string
  us_Email :: string
  us_SessionID :: string
  us_Groups :: "string list"
  us_IsAdmin :: bool
  us_CreatedAt :: int
  us_APIKeyID :: string
  us_APIKeyHash :: string

definition empty_session :: user_session where
  "empty_session = \<lparr>us_UserID = [], us_Username = [], us_Email = [], us_SessionID = [],
     us_Groups = [], us_IsAdmin = False, us_CreatedAt = 0, us_APIKeyID = [], us_APIKeyHash = []\<rparr>"

record folder =
  f_ID :: string
  f_Name :: string
  f_Color :: string
  f_CreatedBy :: string
  f_CreatedAt :: int

record update_folder_request =
  uf_Name :: "string option"
  uf_Color :: "string option"

record custom_domain =
  cd_ID :: string
  cd_Domain :: string
  cd_CreatedBy :: string
  cd_IsVerified :: bool
  cd_CreatedAt :: int

record api_key =
  ak_ID :: string
  ak_UserID :: string
  ak_Name :: string
  ak_KeyPrefix :: string
  ak_KeyHash :: string
  ak_LastUsedAt :: "int option"
  ak_CreatedAt :: int

record webhook =
  wh_ID :: string
  wh_UserID :: string
  wh_URL :: string
  wh_Secret :: string
  wh_Events :: string
  wh_IsActive :: bool
  wh_CreatedAt :: int

record create_webhook_request =
  cw_URL :: string
  cw_Secret :: string
  cw_Events :: "string list"

record blocked_domain =
  bd_ID :: int
  bd_Domain :: string
  bd_Reason :: string
  bd_CreatedAt :: int

end
