(* ===== verification/Database.thy ===== *)
theory Database
  imports Models
begin

text \<open>
  The SQLite database, internal/database/schema.go: one list of rows per table, in insertion
  order, and the statements the services issue on them. A row of \<open>links\<close> is a \<^typ>\<open>link\<close>: the
  columns that hold JSON text carry the decoded value, and \<open>HasPIN\<close>, which has no column, is
  what the scan recomputes from the hash. An \<open>INSERT\<close> that violates a key is refused and
  changes nothing; every statement can also fail for a reason outside the model (a locked file,
  a cancelled context), which a predicate on the statements of the operation decides.
\<close>

record oidc_session =
  os_id :: string
  os_subject :: string
  os_sid :: string
  os_username :: string
  os_access_token :: string
  os_expires_at :: int

record logout_jti =
  lj_jti :: string
  lj_expires_at :: int

record db =
  db_oidc_sessions :: "oidc_session list"
  db_oidc_logout_jtis :: "logout_jti list"
  db_links :: "link list"
  db_blocked_domains :: "blocked_domain list"
  db_custom_domains :: "custom_domain list"
  db_folders :: "folder list"
  db_api_keys :: "api_key list"
  db_webhooks :: "webhook list"

text \<open>The database \<open>Migrate\<close> creates.\<close>

definition empty_db :: db where
  "empty_db = \<lparr>db_oidc_sessions = [], db_oidc_logout_jtis = [], db_links = [], db_blocked_domains = [],
     db_custom_domains = [], db_folders = [], db_api_keys = [], db_webhooks = []\<rparr>"

lemma empty_db_simps [simp]:
  "db_oidc_sessions empty_db = []" "db_oidc_logout_jtis empty_db = []" "db_links empty_db = []"
  "db_blocked_domains empty_db = []" "db_custom_domains empty_db = []" "db_folders empty_db = []"
  "db_api_keys empty_db = []" "db_webhooks empty_db = []"
  by (simp_all add: empty_db_def)

text \<open>What the schema declares: primary keys and unique indexes.\<close>

definition link_key :: "link \<Rightarrow> string \<times> string" where
  "link_key l = (l_Domain l, l_Slug l)"

definition links_ok :: "link list \<Rightarrow> bool" where
  "links_ok rs \<longleftrightarrow> distinct (map l_ID rs) \<and> distinct (map link_key rs)"

definition schema_ok :: "db \<Rightarrow> bool" where
  "schema_ok d \<longleftrightarrow> links_ok (db_links d) \<and>
     distinct (map os_id (db_oidc_sessions d)) \<and> distinct (map lj_jti (db_oidc_logout_jtis d)) \<and>
     distinct (map bd_ID (db_blocked_domains d)) \<and> distinct (map bd_Domain (db_blocked_domains d)) \<and>
     distinct (map cd_ID (db_custom_domains d)) \<and> distinct (map cd_Domain (db_custom_domains d)) \<and>
     distinct (map f_ID (db_folders d)) \<and> distinct (map ak_ID (db_api_keys d)) \<and>
     distinct (map wh_ID (db_webhooks d))"

text \<open>The outcome of a query: rows, no row (\<open>sql.ErrNoRows\<close>), or another error.\<close>

datatype sql_error = NoRows | SqlFault

definition query_row :: "bool \<Rightarrow> 'r option \<Rightarrow> sql_error + 'r" where
  "query_row fault r = (if fault then Inl SqlFault else case r of None \<Rightarrow> Inl NoRows | Some x \<Rightarrow> Inr x)"

lemma query_row_Inr [scan_simps]: "query_row fault r = Inr x \<longleftrightarrow> \<not> fault \<and> r = Some x"
  by (simp add: query_row_def split: option.splits)

text \<open>\<open>ORDER BY k DESC\<close>, and the value a scan leaves in \<open>HasPIN\<close>.\<close>

definition order_desc :: "('r \<Rightarrow> 'k :: linorder) \<Rightarrow> 'r list \<Rightarrow> 'r list" where
  "order_desc k rs = rev (sort_key k (rev rs))"

definition first_row :: "'r list \<Rightarrow> 'r option" where
  "first_row rs = (case rs of [] \<Rightarrow> None | r # _ \<Rightarrow> Some r)"

lemma set_order_desc [simp]: "set (order_desc k rs) = set rs"
  by (simp add: order_desc_def)

lemma order_desc_mset: "mset (order_desc k rs) = mset rs"
  by (simp add: order_desc_def)

lemma order_desc_sorted: "sorted (rev (map k (order_desc k rs)))"
  by (simp add: order_desc_def rev_map)

lemma first_row_in: "first_row rs = Some r \<Longrightarrow> r \<in> set rs"
  by (simp add: first_row_def split: list.splits)

lemma first_row_None [simp]: "first_row rs = None \<longleftrightarrow> rs = []"
  by (simp add: first_row_def split: list.splits)

lemma first_row_desc_None: "first_row (order_desc k rs) = None \<longleftrightarrow> rs = []"
  using arg_cong [OF order_desc_mset [of k rs], of size] by (cases rs) auto

lemma first_row_desc:
  assumes "first_row (order_desc k rs) = Some r" and "s \<in> set rs"
  shows "k s \<le> k r"
proof -
  obtain xs where "order_desc k rs = r # xs"
    using assms(1) by (auto simp: first_row_def split: list.splits)
  then have "sorted (rev (map k xs) @ [k r])" "s \<in> set (r # xs)"
    using order_desc_sorted [of k rs] assms(2) set_order_desc [of k rs] by simp_all
  then show ?thesis by (auto simp: sorted_append)
qed

text \<open>Writing to a table: an insert checks every unique column.\<close>

definition insert_row :: "'r \<Rightarrow> ('r list \<Rightarrow> bool) \<Rightarrow> 'r list \<Rightarrow> 'r list option" where
  "insert_row r ok rs = (if ok (rs @ [r]) then Some (rs @ [r]) else None)"

definition delete_rows :: "('r \<Rightarrow> bool) \<Rightarrow> 'r list \<Rightarrow> 'r list" where
  "delete_rows p rs = filter (\<lambda>r. \<not> p r) rs"

lemma insert_row_Some: "insert_row r ok rs = Some rs' \<longleftrightarrow> ok rs' \<and> rs' = rs @ [r]"
  by (auto simp: insert_row_def)

lemma set_delete_rows [scan_simps]: "set (delete_rows p rs) = {r \<in> set rs. \<not> p r}"
  by (simp add: delete_rows_def)

lemma distinct_delete_rows [scan_simps, intro]:
  "distinct (map g rs) \<Longrightarrow> distinct (map g (delete_rows p rs))"
  by (simp add: delete_rows_def distinct_map_filter_rows)

lemma length_delete_rows: "length (delete_rows p rs) < length rs \<longleftrightarrow> (\<exists>r\<in>set rs. p r)"
proof -
  have "length (delete_rows p rs) + length (filter p rs) = length rs"
    unfolding delete_rows_def by (induction rs) auto
  moreover have "filter p rs = [] \<longleftrightarrow> \<not> (\<exists>r\<in>set rs. p r)" by (auto simp: filter_empty_conv)
  ultimately show ?thesis by (cases "filter p rs") auto
qed

section \<open>The links table\<close>

text \<open>\<open>scanLink\<close>: \<open>HasPIN\<close> is recomputed from the hash.\<close>

definition scan_link :: "link \<Rightarrow> link" where
  "scan_link l = l\<lparr>l_HasPIN := (l_PinHash l \<noteq> [])\<rparr>"

lemma scan_link_simps [simp]:
  "l_ID (scan_link l) = l_ID l" "l_Slug (scan_link l) = l_Slug l" "l_Domain (scan_link l) = l_Domain l"
  "l_CreatedBy (scan_link l) = l_CreatedBy l" "l_ClickCount (scan_link l) = l_ClickCount l"
  "l_PinHash (scan_link l) = l_PinHash l" "l_HasPIN (scan_link l) = (l_PinHash l \<noteq> [])"
  "link_key (scan_link l) = link_key l" "IsExpired now (scan_link l) = IsExpired now l"
  by (simp_all add: scan_link_def link_key_def expiry_defs cong: option.case_cong)

definition by_id :: "string \<Rightarrow> link list \<Rightarrow> link option" where
  "by_id i rs = find (\<lambda>l. l_ID l = i) rs"

definition by_key :: "string \<Rightarrow> string \<Rightarrow> link list \<Rightarrow> link option" where
  "by_key d s rs = find (\<lambda>l. l_Slug l = s \<and> l_Domain l = d) rs"

lemma by_id_iff: "links_ok rs \<Longrightarrow> by_id i rs = Some l \<longleftrightarrow> l \<in> set rs \<and> l_ID l = i"
  unfolding by_id_def links_ok_def
  by (metis (mono_tags, lifting) distinct_map_inj find_Some_in find_unique)

lemma by_key_iff: "links_ok rs \<Longrightarrow> by_key d s rs = Some l \<longleftrightarrow> l \<in> set rs \<and> l_Slug l = s \<and> l_Domain l = d"
proof
  assume ok: "links_ok rs" and "l \<in> set rs \<and> l_Slug l = s \<and> l_Domain l = d"
  moreover have "r = l" if "r \<in> set rs" "l_Slug r = s" "l_Domain r = d" for r
    using ok that calculation(2) distinct_map_inj [of link_key rs r l]
    by (simp add: links_ok_def link_key_def)
  ultimately show "by_key d s rs = Some l" unfolding by_key_def by (intro find_unique) auto
qed (auto simp: by_key_def dest: find_Some_in)

lemma by_key_None: "by_key d s rs = None \<longleftrightarrow> (\<forall>l\<in>set rs. \<not> (l_Slug l = s \<and> l_Domain l = d))"
  by (auto simp: by_key_def find_None_iff)

lemma by_id_None: "by_id i rs = None \<longleftrightarrow> (\<forall>l\<in>set rs. l_ID l \<noteq> i)"
  by (auto simp: by_id_def find_None_iff)

lemma links_ok_update:
  "links_ok rs \<Longrightarrow> (\<And>l. l_ID (f l) = l_ID l \<and> link_key (f l) = link_key l) \<Longrightarrow> links_ok (update_rows p f rs)"
  by (simp add: links_ok_def map_update_rows_inv)

lemma links_ok_delete: "links_ok rs \<Longrightarrow> links_ok (delete_rows p rs)"
  by (auto simp: links_ok_def)

end
