(* ===== verification/Owned_Tables.thy ===== *)
theory Owned_Tables
  imports Database
begin

text \<open>
  The contract the folder, domain, API-key and webhook services share: every row of their table
  belongs to a user, and \<open>List\<close> and \<open>Delete\<close> take the caller's name and whether the caller is an
  administrator. The locale states it once, with what follows for the owners; each service
  interprets it on its own table. \<open>shown\<close> is the part of a row that a listing returns.
\<close>

definition may_touch :: "('r \<Rightarrow> string) \<Rightarrow> string \<Rightarrow> bool \<Rightarrow> 'r \<Rightarrow> bool" where
  "may_touch owner username isAdmin r = (isAdmin \<or> owner r = username)"

text \<open>\<open>DELETE ... WHERE id = ? [AND owner = ?]\<close>, followed by the test of \<open>RowsAffected\<close>.\<close>

definition owned_delete ::
  "('r \<Rightarrow> string) \<Rightarrow> ('r \<Rightarrow> string) \<Rightarrow> string \<Rightarrow> string \<Rightarrow> bool \<Rightarrow> 'r list \<Rightarrow> 'r list option" where
  "owned_delete rid owner i username isAdmin rs =
     (let rs' = delete_rows (\<lambda>r. rid r = i \<and> may_touch owner username isAdmin r) rs
      in if length rs' = length rs then None else Some rs')"

lemma owned_delete_Some:
  assumes "distinct (map rid rs)" and "owned_delete rid owner i username isAdmin rs = Some rs'"
  shows "rs' = delete_rows (\<lambda>r. rid r = i) rs \<and>
    (\<exists>r\<in>set rs. rid r = i \<and> may_touch owner username isAdmin r)"
proof -
  let ?p = "\<lambda>r. rid r = i \<and> may_touch owner username isAdmin r"
  have rs': "rs' = delete_rows ?p rs" "length (delete_rows ?p rs) \<noteq> length rs"
    using assms(2) by (auto simp: owned_delete_def Let_def split: if_splits)
  have "length (delete_rows ?p rs) \<le> length rs" by (simp add: delete_rows_def)
  with rs' obtain r where r: "r \<in> set rs" "?p r" using length_delete_rows [of ?p rs] by auto
  have "?p x \<longleftrightarrow> rid x = i" if "x \<in> set rs" for x
    using r that distinct_map_inj [OF assms(1) r(1) that] by metis
  then have "delete_rows ?p rs = delete_rows (\<lambda>r. rid r = i) rs"
    by (auto simp: delete_rows_def intro: filter_cong)
  with rs' r show ?thesis by blast
qed

definition owned_list ::
  "('r \<Rightarrow> string) \<Rightarrow> string \<Rightarrow> bool \<Rightarrow> 'r list \<Rightarrow> 'r list" where
  "owned_list owner username isAdmin rs = filter (may_touch owner username isAdmin) rs"

locale owned_table =
  fixes rows :: "db \<Rightarrow> 'r list"
    and rid :: "'r \<Rightarrow> string"
    and owner :: "'r \<Rightarrow> string"
    and shown :: "'r \<Rightarrow> 'r"
    and lst :: "('q \<Rightarrow> bool) \<Rightarrow> string \<Rightarrow> bool \<Rightarrow> db \<Rightarrow> 'e + 'r list"
    and del :: "('q \<Rightarrow> bool) \<Rightarrow> string \<Rightarrow> string \<Rightarrow> bool \<Rightarrow> db \<Rightarrow> db \<times> 'e option"
  assumes del_done: "distinct (map rid (rows d)) \<Longrightarrow> del flt i u adm d = (d', None) \<Longrightarrow>
      rows d' = delete_rows (\<lambda>r. rid r = i) (rows d) \<and>
      (\<exists>r\<in>set (rows d). rid r = i \<and> may_touch owner u adm r)"
    and del_failed: "del flt i u adm d = (d', Some e) \<Longrightarrow> d' = d"
    and lst_rows: "lst flt u adm d = Inr rs \<Longrightarrow> mset rs = mset (map shown (owned_list owner u adm (rows d)))"
    and shown_owner: "owner (shown r) = owner r"
begin

text \<open>A listing shows the caller's own rows, all of them, and nobody else's unless admin.\<close>

lemma lst_own: "lst flt u False d = Inr rs \<Longrightarrow> r \<in> set rs \<Longrightarrow> owner r = u"
proof -
  assume "lst flt u False d = Inr rs" and r: "r \<in> set rs"
  then have "set rs = set (map shown (owned_list owner u False (rows d)))"
    using lst_rows mset_eq_setD by blast
  with r show ?thesis by (auto simp: owned_list_def may_touch_def shown_owner)
qed

lemma lst_complete: "lst flt u adm d = Inr rs \<Longrightarrow> r \<in> set (rows d) \<Longrightarrow> adm \<or> owner r = u \<Longrightarrow> shown r \<in> set rs"
proof -
  assume "lst flt u adm d = Inr rs" and r: "r \<in> set (rows d)" "adm \<or> owner r = u"
  then have "set rs = set (map shown (owned_list owner u adm (rows d)))"
    using lst_rows mset_eq_setD by blast
  with r show ?thesis by (auto simp: owned_list_def may_touch_def)
qed

lemma del_keys: "distinct (map rid (rows d)) \<Longrightarrow> distinct (map rid (rows (fst (del flt i u adm d))))"
proof (cases "del flt i u adm d")
  case (Pair d' e)
  assume "distinct (map rid (rows d))"
  with Pair del_done [of d flt i u adm d'] del_failed [of flt i u adm d d'] show ?thesis
    by (cases e) (auto simp: distinct_delete_rows)
qed

lemma del_foreign:
  assumes "distinct (map rid (rows d))" and "r \<in> set (rows d)" and "owner r \<noteq> u"
  shows "r \<in> set (rows (fst (del flt i u False d)))"
proof (cases "del flt i u False d")
  case (Pair d' e)
  show ?thesis
  proof (cases e)
    case None
    with Pair have p: "rows d' = delete_rows (\<lambda>r. rid r = i) (rows d)"
      "\<exists>r\<in>set (rows d). rid r = i \<and> owner r = u"
      using del_done [OF assms(1), of flt i u False d'] by (auto simp: may_touch_def)
    then obtain x where "x \<in> set (rows d)" "rid x = i" "owner x = u" by blast
    then have "rid r \<noteq> i" using assms distinct_map_inj [OF assms(1,2), of x] by auto
    with p Pair assms(2) show ?thesis by (simp add: set_delete_rows)
  qed (use Pair del_failed [of flt i u False d d'] assms(2) in auto)
qed

lemma del_gone: "distinct (map rid (rows d)) \<Longrightarrow> del flt i u adm d = (d', None) \<Longrightarrow>
  \<forall>r\<in>set (rows d'). rid r \<noteq> i"
  using del_done [of d flt i u adm d'] by (auto simp: set_delete_rows)

text \<open>Any sequence of deletions by users who are not administrators.\<close>

definition del_run :: "(('q \<Rightarrow> bool) \<times> string \<times> string) list \<Rightarrow> db \<Rightarrow> db" where
  "del_run reqs d = fold (\<lambda>(flt, i, u) d. fst (del flt i u False d)) reqs d"

lemma del_run_foreign:
  "distinct (map rid (rows d)) \<Longrightarrow> r \<in> set (rows d) \<Longrightarrow> owner r \<notin> (snd \<circ> snd) ` set reqs \<Longrightarrow>
   r \<in> set (rows (del_run reqs d))"
proof (induction reqs arbitrary: d)
  case (Cons q reqs)
  obtain flt i u where q: "q = (flt, i, u)" by (cases q)
  have "r \<in> set (rows (fst (del flt i u False d)))"
    using Cons.prems q by (intro del_foreign) auto
  then have "r \<in> set (rows (del_run reqs (fst (del flt i u False d))))"
    using Cons.prems by (intro Cons.IH del_keys) auto
  then show ?case by (simp add: del_run_def q)
qed (simp add: del_run_def)

end

end
