(* ===== verification/Go_Ip.thy ===== *)
theory Go_Ip
  imports Prelude "HOL-Library.Word"
begin

unbundle bit_operations_syntax

text \<open>
  The part of package \<open>net\<close> the program relies on: \<open>ParseIP\<close>, \<open>ParseCIDR\<close>, \<open>IPNet.Contains\<close>
  and the address classes. A \<open>net.IP\<close> is a list of 4 or 16 bytes, a byte an \<open>8 word\<close>;
  \<open>ParseIP\<close> answers the 16-byte form, an IPv4 address mapped under \<open>::ffff:0:0/96\<close>.
\<close>

type_synonym ip = "8 word list"

definition v4_prefix :: ip where "v4_prefix = replicate 10 0 @ [255, 255]"

definition IPv4 :: "8 word \<Rightarrow> 8 word \<Rightarrow> 8 word \<Rightarrow> 8 word \<Rightarrow> ip" where
  "IPv4 a b c d = v4_prefix @ [a, b, c, d]"

definition To4 :: "ip \<Rightarrow> ip option" where
  "To4 ip = (if length ip = 4 then Some ip
     else if length ip = 16 \<and> take 12 ip = v4_prefix then Some (drop 12 ip) else None)"

section \<open>Parsing addresses\<close>

definition parse_octet :: "string \<Rightarrow> (8 word) option" where
  "parse_octet s = (if is_number s \<and> length s \<le> 3 \<and> (length s > 1 \<longrightarrow> hd s \<noteq> CHR ''0'')
      \<and> dec_value s \<le> 255 then Some (of_nat (dec_value s)) else None)"

definition parse_ipv4 :: "string \<Rightarrow> ip option" where
  "parse_ipv4 s = (case map parse_octet (split_on CHR ''.'' s) of
      [Some a, Some b, Some c, Some d] \<Rightarrow> Some [a, b, c, d] | _ \<Rightarrow> None)"

definition hex_value :: "char \<Rightarrow> nat option" where
  "hex_value c = (if is_digit c then Some (byte c - 48)
     else if 97 \<le> byte c \<and> byte c \<le> 102 then Some (byte c - 87)
     else if 65 \<le> byte c \<and> byte c \<le> 70 then Some (byte c - 55) else None)"

definition is_hex :: "char \<Rightarrow> bool" where "is_hex c = (hex_value c \<noteq> None)"

definition hex_number :: "string \<Rightarrow> nat" where
  "hex_number s = foldl (\<lambda>n c. 16 * n + (case hex_value c of None \<Rightarrow> 0 | Some v \<Rightarrow> v)) 0 s"

text \<open>
  The loop of \<open>netip.parseIPv6\<close>: \<open>i\<close> bytes are in \<open>acc\<close>, \<open>ell\<close> is the position of the
  ellipsis, at most eight groups are read. Answers the bytes, the ellipsis and the rest.
\<close>

fun ipv6_groups :: "nat \<Rightarrow> ip \<Rightarrow> nat option \<Rightarrow> string \<Rightarrow> (ip \<times> nat option \<times> string) option" where
  "ipv6_groups 0 acc ell s = Some (acc, ell, s)"
| "ipv6_groups (Suc n) acc ell s =
     (let h = takeWhile is_hex s; r = drop (length h) s; v = hex_number h in
      if h = [] \<or> length h > 4 then None
      else if has_prefix r ''.'' then
        (if (ell = None \<and> length acc \<noteq> 12) \<or> length acc + 4 > 16 then None
         else case parse_ipv4 s of None \<Rightarrow> None | Some q \<Rightarrow> Some (acc @ q, ell, []))
      else let acc = acc @ [of_nat (v div 256), of_nat (v mod 256)] in
      if r = [] then Some (acc, ell, [])
      else if \<not> has_prefix r '':'' \<or> length r = 1 then None
      else let r = drop 1 r in
      if has_prefix r '':'' then
        (if ell \<noteq> None then None
         else if length r = 1 then Some (acc, Some (length acc), [])
         else ipv6_groups n acc (Some (length acc)) (drop 1 r))
      else ipv6_groups n acc ell r)"

definition ipv6_finish :: "ip \<times> nat option \<times> string \<Rightarrow> ip option" where
  "ipv6_finish x = (case x of (acc, ell, s) \<Rightarrow>
     if s \<noteq> [] then None
     else if length acc < 16 then
       (case ell of None \<Rightarrow> None
        | Some e \<Rightarrow> Some (take e acc @ replicate (16 - length acc) 0 @ drop e acc))
     else if ell \<noteq> None then None else Some acc)"

definition parse_ipv6 :: "string \<Rightarrow> ip option" where
  "parse_ipv6 s =
     (if has_prefix s ''::'' then
        (if length s = 2 then Some (replicate 16 0)
         else Option.bind (ipv6_groups 8 [] (Some 0) (drop 2 s)) ipv6_finish)
      else Option.bind (ipv6_groups 8 [] None s) ipv6_finish)"

text \<open>\<open>net.ParseIP\<close>: the first dot or colon decides; a zone (\<open>%\<close>) is refused.\<close>

definition ParseIP :: "string \<Rightarrow> ip option" where
  "ParseIP s =
     (if CHR ''%'' \<in> set s then None
      else case dropWhile (\<lambda>c. c \<noteq> CHR ''.'' \<and> c \<noteq> CHR '':'') s of
        [] \<Rightarrow> None
      | c # _ \<Rightarrow> if c = CHR ''.'' then map_option (\<lambda>q. v4_prefix @ q) (parse_ipv4 s)
                  else parse_ipv6 s)"

section \<open>Networks\<close>

type_synonym ip_net = "ip \<times> ip"

definition mask_byte :: "nat \<Rightarrow> 8 word" where
  "mask_byte n = (if n \<ge> 8 then 255 else NOT (drop_bit n 255))"

definition CIDRMask :: "nat \<Rightarrow> nat \<Rightarrow> ip" where
  "CIDRMask ones len = map (\<lambda>i. mask_byte (ones - 8 * i)) [0..<len]"

definition mask_ip :: "ip \<Rightarrow> ip \<Rightarrow> ip" where
  "mask_ip m ip = map2 (AND) ip m"

definition ParseCIDR :: "string \<Rightarrow> ip_net option" where
  "ParseCIDR s =
     (case cut CHR ''/'' s of (addr, n, f) \<Rightarrow>
       if \<not> f \<or> \<not> is_number n then None
       else case ParseIP addr of None \<Rightarrow> None
       | Some ip \<Rightarrow>
           let base = (case To4 ip of Some q \<Rightarrow> q | None \<Rightarrow> ip); len = length base
           in if dec_value n > 8 * len then None
              else let m = CIDRMask (dec_value n) len in Some (mask_ip m base, m))"

definition IPNet_Contains :: "ip_net \<Rightarrow> ip \<Rightarrow> bool" where
  "IPNet_Contains n ip =
     (let x = (case To4 ip of Some q \<Rightarrow> q | None \<Rightarrow> ip)
      in length x = length (fst n) \<and> mask_ip (snd n) (fst n) = mask_ip (snd n) x)"

section \<open>Address classes\<close>

definition first_is :: "(8 word \<Rightarrow> bool) list \<Rightarrow> ip \<Rightarrow> bool" where
  "first_is ps ip = (length ps \<le> length ip \<and> list_all2 (\<lambda>p b. p b) ps (take (length ps) ip))"

definition IsUnspecified :: "ip \<Rightarrow> bool" where
  "IsUnspecified ip = (To4 ip = Some [0, 0, 0, 0] \<or> ip = replicate 16 0)"

definition IsLoopback :: "ip \<Rightarrow> bool" where
  "IsLoopback ip = (case To4 ip of Some q \<Rightarrow> first_is [\<lambda>b. b = 127] q
     | None \<Rightarrow> ip = replicate 15 0 @ [1])"

definition IsMulticast :: "ip \<Rightarrow> bool" where
  "IsMulticast ip = (case To4 ip of Some q \<Rightarrow> first_is [\<lambda>b. b AND 240 = 224] q
     | None \<Rightarrow> length ip = 16 \<and> first_is [\<lambda>b. b = 255] ip)"

definition IsInterfaceLocalMulticast :: "ip \<Rightarrow> bool" where
  "IsInterfaceLocalMulticast ip = (length ip = 16 \<and> first_is [\<lambda>b. b = 255, \<lambda>b. b AND 15 = 1] ip)"

definition IsLinkLocalMulticast :: "ip \<Rightarrow> bool" where
  "IsLinkLocalMulticast ip = (case To4 ip of
       Some q \<Rightarrow> first_is [\<lambda>b. b = 224, \<lambda>b. b = 0, \<lambda>b. b = 0] q
     | None \<Rightarrow> length ip = 16 \<and> first_is [\<lambda>b. b = 255, \<lambda>b. b AND 15 = 2] ip)"

definition IsLinkLocalUnicast :: "ip \<Rightarrow> bool" where
  "IsLinkLocalUnicast ip = (case To4 ip of
       Some q \<Rightarrow> first_is [\<lambda>b. b = 169, \<lambda>b. b = 254] q
     | None \<Rightarrow> length ip = 16 \<and> first_is [\<lambda>b. b = 254, \<lambda>b. b AND 192 = 128] ip)"

lemmas ip_class_defs = IsUnspecified_def IsLoopback_def IsMulticast_def IsInterfaceLocalMulticast_def
  IsLinkLocalMulticast_def IsLinkLocalUnicast_def first_is_def

section \<open>Lemmas\<close>

lemma To4_IPv4 [simp]: "To4 (IPv4 a b c d) = Some [a, b, c, d]"
  by (simp add: To4_def IPv4_def v4_prefix_def)

lemma To4_length: "To4 ip = Some q \<Longrightarrow> length q = 4"
  by (auto simp: To4_def split: if_splits)

lemma parse_ipv4_length: "parse_ipv4 s = Some q \<Longrightarrow> length q = 4"
  by (auto simp: parse_ipv4_def split: list.splits option.splits)

text \<open>Evaluation of the parsers by the simplifier.\<close>

lemma ipv6_groups_unfold: "0 < n \<Longrightarrow> ipv6_groups n acc ell s =
     (let h = takeWhile is_hex s; r = drop (length h) s; v = hex_number h in
      if h = [] \<or> length h > 4 then None
      else if has_prefix r ''.'' then
        (if (ell = None \<and> length acc \<noteq> 12) \<or> length acc + 4 > 16 then None
         else case parse_ipv4 s of None \<Rightarrow> None | Some q \<Rightarrow> Some (acc @ q, ell, []))
      else let acc = acc @ [of_nat (v div 256), of_nat (v mod 256)] in
      if r = [] then Some (acc, ell, [])
      else if \<not> has_prefix r '':'' \<or> length r = 1 then None
      else let r = drop 1 r in
      if has_prefix r '':'' then
        (if ell \<noteq> None then None
         else if length r = 1 then Some (acc, Some (length acc), [])
         else ipv6_groups (n - 1) acc (Some (length acc)) (drop 1 r))
      else ipv6_groups (n - 1) acc ell r)"
  by (cases n) (simp_all only: ipv6_groups.simps diff_Suc_1 less_irrefl)

lemma replicate_unfold: "0 < n \<Longrightarrow> replicate n x = x # replicate (n - 1) x"
  by (cases n) simp_all

lemmas ip_eval = Let_def replicate_unfold ParseCIDR_def cut_def ParseIP_def parse_ipv4_def parse_octet_def is_number_def
  is_digit_def byte_def dec_value_def digit_value_def To4_def v4_prefix_def CIDRMask_def mask_ip_def
  mask_byte_def has_prefix_def upt_rec parse_ipv6_def is_hex_def hex_value_def hex_number_def
  ipv6_finish_def ipv6_groups_unfold

lemma all_bytes:
  fixes b :: "8 word"
  assumes "list_all (\<lambda>n. P (word_of_nat n)) [0..<256]"
  shows "P b"
proof -
  have "unat b < 2 ^ LENGTH(8)" by (rule unsigned_less)
  then have "unat b < 256" by simp
  then have "P (word_of_nat (unat b))"
    by (intro bspec [OF assms [unfolded list_all_iff]]) simp
  then show ?thesis by simp
qed

end
