(* ===== verification/Go_Url.thy ===== *)
theory Go_Url
  imports Go_Ip
begin

text \<open>
  The part of package \<open>net/url\<close> the program relies on: \<open>Parse\<close>, \<open>URL.Hostname\<close>,
  \<open>URL.Query\<close>, \<open>Values.Encode\<close>, \<open>URL.String\<close> and \<open>QueryEscape\<close>. Every function works byte by
  byte, as the library does. Error values are dropped (\<open>None\<close> is an error); the program only
  wraps them into its own message.

  \<open>Values\<close> is a Go map from keys to lists of values. It is an association list here, keys in
  order of first appearance; \<open>Encode\<close> sorts the keys, so the order of the map is not observable.
  The main lemma is \<open>parse_query_Encode\<close>: decoding an encoded map gives the map back, sorted.
\<close>

section \<open>Escaping\<close>

datatype encoding = encodePath | encodePathSegment | encodeHost | encodeZone
  | encodeUserPassword | encodeQueryComponent | encodeFragment

definition shouldEscape :: "char \<Rightarrow> encoding \<Rightarrow> bool" where
  "shouldEscape c mode =
     (if is_alnum c then False
      else if (mode = encodeHost \<or> mode = encodeZone) \<and>
        byte c \<in> set [33, 36, 38, 39, 40, 41, 42, 43, 44, 59, 61, 58, 91, 93, 60, 62, 34] then False
      else if c \<in> set ''-_.~'' then False
      else if c \<in> set ''$&+,/:;=?@'' \<and> mode \<notin> {encodeHost, encodeZone} then
        (case mode of encodePath \<Rightarrow> c = CHR ''?''
         | encodePathSegment \<Rightarrow> c \<in> set ''/;,?''
         | encodeUserPassword \<Rightarrow> c \<in> set ''@/?:''
         | encodeQueryComponent \<Rightarrow> True
         | _ \<Rightarrow> False)
      else if mode = encodeFragment \<and> c \<in> set ''!()*'' then False
      else True)"

definition hex_digit :: "nat \<Rightarrow> char" where
  "hex_digit n = char_of (if n < 10 then 48 + n else 55 + n)"

fun escape :: "encoding \<Rightarrow> string \<Rightarrow> string" where
  "escape mode [] = []"
| "escape mode (c # s) =
     (if c = CHR '' '' \<and> mode = encodeQueryComponent then CHR ''+'' # escape mode s
      else if shouldEscape c mode
        then CHR ''%'' # hex_digit (byte c div 16) # hex_digit (byte c mod 16) # escape mode s
      else c # escape mode s)"

definition unhex :: "char \<Rightarrow> nat" where
  "unhex c = (case hex_value c of None \<Rightarrow> 0 | Some v \<Rightarrow> v)"

text \<open>A percent triple the mode does not allow.\<close>

definition bad_triple :: "encoding \<Rightarrow> char \<Rightarrow> char \<Rightarrow> bool" where
  "bad_triple mode a b =
     ((mode = encodeHost \<and> unhex a < 8 \<and> [a, b] \<noteq> ''25'') \<or>
      (mode = encodeZone \<and> [a, b] \<noteq> ''25'' \<and> 16 * unhex a + unhex b \<noteq> 32 \<and>
       shouldEscape (char_of (16 * unhex a + unhex b)) encodeHost))"

fun unescape :: "encoding \<Rightarrow> string \<Rightarrow> string option" where
  "unescape mode [] = Some []"
| "unescape mode (c # s) =
     (if c = CHR ''%'' then
        (case s of a # b # s' \<Rightarrow>
           if is_hex a \<and> is_hex b \<and> \<not> bad_triple mode a b
           then map_option (Cons (char_of (16 * unhex a + unhex b))) (unescape mode s')
           else None
         | _ \<Rightarrow> None)
      else if (mode = encodeHost \<or> mode = encodeZone) \<and> byte c < 128 \<and> shouldEscape c mode then None
      else map_option (Cons (if c = CHR ''+'' \<and> mode = encodeQueryComponent then CHR '' '' else c))
             (unescape mode s))"

definition QueryEscape :: "string \<Rightarrow> string" where "QueryEscape s = escape encodeQueryComponent s"
definition QueryUnescape :: "string \<Rightarrow> string option" where
  "QueryUnescape s = unescape encodeQueryComponent s"

section \<open>Query strings\<close>

type_synonym Values = "(string \<times> string list) list"

definition add_value :: "string \<Rightarrow> string \<Rightarrow> Values \<Rightarrow> Values" where
  "add_value k v m = AList.update k ((case map_of m k of None \<Rightarrow> [] | Some vs \<Rightarrow> vs) @ [v]) m"

text \<open>One \<open>key=value\<close> piece: \<open>None\<close> when the library drops it (an empty piece, a semicolon, a
  bad escape), silently for a caller of \<open>URL.Query\<close>.\<close>

definition query_piece :: "string \<Rightarrow> (string \<times> string) option" where
  "query_piece p =
     (if CHR '';'' \<in> set p \<or> p = [] then None
      else case cut CHR ''='' p of (k, v, _) \<Rightarrow>
        (case (QueryUnescape k, QueryUnescape v) of (Some k', Some v') \<Rightarrow> Some (k', v') | _ \<Rightarrow> None))"

definition query_pairs :: "string \<Rightarrow> (string \<times> string) list" where
  "query_pairs q = List.map_filter query_piece (split_on CHR ''&'' q)"

definition parse_query :: "string \<Rightarrow> Values" where
  "parse_query q = fold (\<lambda>(k, v) m. add_value k v m) (query_pairs q) []"

definition encode_pair :: "string \<times> string \<Rightarrow> string" where
  "encode_pair kv = QueryEscape (fst kv) @ ''='' @ QueryEscape (snd kv)"

definition flat_values :: "Values \<Rightarrow> (string \<times> string) list" where
  "flat_values m = concat (map (\<lambda>(k, vs). map (Pair k) vs) m)"

definition sort_values :: "Values \<Rightarrow> Values" where
  "sort_values m = sort_key fst m"

definition Values_Encode :: "Values \<Rightarrow> string" where
  "Values_Encode m = join_with ''&'' (map encode_pair (flat_values (sort_values m)))"

section \<open>URLs\<close>

record URL =
  u_Scheme :: string
  u_Opaque :: string
  u_User :: "(string \<times> string option) option"
  u_Host :: string
  u_Path :: string
  u_RawPath :: string
  u_OmitHost :: bool
  u_ForceQuery :: bool
  u_RawQuery :: string
  u_Fragment :: string
  u_RawFragment :: string

definition empty_url :: URL where
  "empty_url = \<lparr>u_Scheme = [], u_Opaque = [], u_User = None, u_Host = [], u_Path = [],
     u_RawPath = [], u_OmitHost = False, u_ForceQuery = False, u_RawQuery = [],
     u_Fragment = [], u_RawFragment = []\<rparr>"

text \<open>\<open>getScheme\<close>: \<open>None\<close> is the error "missing protocol scheme".\<close>

definition scheme_char :: "char \<Rightarrow> bool" where
  "scheme_char c = (is_alnum c \<or> c \<in> set ''+-.'')"

definition getScheme :: "string \<Rightarrow> (string \<times> string) option" where
  "getScheme s =
     (let a = takeWhile scheme_char s; r = dropWhile scheme_char s in
       if s \<noteq> [] \<and> hd s = CHR '':'' then None
       else if a \<noteq> [] \<and> \<not> is_alpha (hd a) then Some ([], s)
       else if has_prefix r '':'' then Some (a, drop 1 r) else Some ([], s))"

definition last_index :: "char \<Rightarrow> string \<Rightarrow> nat option" where
  "last_index c s = (if c \<in> set s then Some (length s - 1 - length (takeWhile (\<lambda>x. x \<noteq> c) (rev s))) else None)"

definition validOptionalPort :: "string \<Rightarrow> bool" where
  "validOptionalPort p = (p = [] \<or> (hd p = CHR '':'' \<and> list_all is_digit (tl p)))"

definition find_zone :: "string \<Rightarrow> nat option" where
  "find_zone s = find (\<lambda>i. has_prefix (drop i s) ''%25'') [0..<length s]"

text \<open>A host in brackets has to be an IPv6 literal; its zone is unescaped by its own rules.\<close>

definition parse_bracketed :: "string \<Rightarrow> string option" where
  "parse_bracketed h =
     (case find_zone h of
        None \<Rightarrow> Option.bind (unescape encodeHost h) (\<lambda>a.
          case ParseIP a of Some ip \<Rightarrow> if CHR '':'' \<in> set a then Some a else None | None \<Rightarrow> None)
      | Some z \<Rightarrow> Option.bind (unescape encodeHost (take z h)) (\<lambda>a.
          Option.bind (unescape encodeZone (drop z h)) (\<lambda>b.
          if ParseIP a \<noteq> None \<and> CHR '':'' \<in> set a \<and> length b > 1 then Some (a @ b) else None)))"

definition parseHost :: "string \<Rightarrow> string option" where
  "parseHost host =
     (case last_index CHR ''['' host of
        Some i \<Rightarrow>
          (case last_index CHR '']'' host of
             None \<Rightarrow> None
           | Some j \<Rightarrow>
               if j < i \<or> i \<noteq> 0 \<or> \<not> validOptionalPort (drop (Suc j) host) then None
               else map_option (\<lambda>h. ''['' @ h @ '']'' @ drop (Suc j) host)
                      (parse_bracketed (drop (Suc i) (take j host))))
      | None \<Rightarrow>
          if (case last_index CHR '':'' host of None \<Rightarrow> False
              | Some i \<Rightarrow> \<not> validOptionalPort (drop i host)) then None
          else unescape encodeHost host)"

definition validUserinfo :: "string \<Rightarrow> bool" where
  "validUserinfo s = list_all (\<lambda>c. is_alnum c \<or> c \<in> set ''-._:~!$&()*+,;=%@'' \<or> byte c = 39) s"

definition parse_user :: "string \<Rightarrow> (string \<times> string option) option" where
  "parse_user s =
     (if \<not> validUserinfo s then None
      else case cut CHR '':'' s of (a, b, f) \<Rightarrow>
        if f then Option.bind (unescape encodeUserPassword a) (\<lambda>u.
                  map_option (\<lambda>p. (u, Some p)) (unescape encodeUserPassword b))
        else map_option (\<lambda>u. (u, None)) (unescape encodeUserPassword s))"

definition parseAuthority :: "string \<Rightarrow> ((string \<times> string option) option \<times> string) option" where
  "parseAuthority a =
     (case last_index CHR ''@'' a of
        None \<Rightarrow> map_option (Pair None) (parseHost a)
      | Some i \<Rightarrow> Option.bind (parseHost (drop (Suc i) a)) (\<lambda>h.
          map_option (\<lambda>u. (Some u, h)) (parse_user (take i a))))"

definition setPath :: "string \<Rightarrow> URL \<Rightarrow> URL option" where
  "setPath p u =
     map_option (\<lambda>path. u\<lparr>u_Path := path, u_RawPath := (if escape encodePath path = p then [] else p)\<rparr>)
       (unescape encodePath p)"

definition setFragment :: "string \<Rightarrow> URL \<Rightarrow> URL option" where
  "setFragment f u =
     map_option (\<lambda>frag. u\<lparr>u_Fragment := frag,
                           u_RawFragment := (if escape encodeFragment frag = f then [] else f)\<rparr>)
       (unescape encodeFragment f)"

definition parse_rest :: "string \<Rightarrow> URL \<Rightarrow> URL option" where
  "parse_rest rest u =
     (if \<not> has_prefix rest ''/'' \<and> u_Scheme u \<noteq> [] then Some (u\<lparr>u_Opaque := rest\<rparr>)
      else if \<not> has_prefix rest ''/'' \<and> CHR '':'' \<in> set (before_char CHR ''/'' rest) then None
      else if (u_Scheme u \<noteq> [] \<or> \<not> has_prefix rest ''///'') \<and> has_prefix rest ''//'' then
        (let a = drop 2 rest; authority = takeWhile (\<lambda>c. c \<noteq> CHR ''/'') a; path = drop (length authority) a
         in Option.bind (parseAuthority authority) (\<lambda>(user, host).
              setPath path (u\<lparr>u_User := user, u_Host := host\<rparr>)))
      else setPath rest (if u_Scheme u \<noteq> [] \<and> has_prefix rest ''/'' then u\<lparr>u_OmitHost := True\<rparr> else u))"

definition parse_no_fragment :: "string \<Rightarrow> URL option" where
  "parse_no_fragment s =
     (if list_ex (\<lambda>c. byte c < 32 \<or> byte c = 127) s then None
      else if s = ''*'' then Some (empty_url\<lparr>u_Path := ''*''\<rparr>)
      else case getScheme s of
        None \<Rightarrow> None
      | Some (scheme, rest) \<Rightarrow>
          let u = empty_url\<lparr>u_Scheme := to_lower scheme\<rparr> in
          if has_suffix rest ''?'' \<and> count_list rest CHR ''?'' = 1
          then parse_rest (butlast rest) (u\<lparr>u_ForceQuery := True\<rparr>)
          else (case cut CHR ''?'' rest of (rest, q, _) \<Rightarrow> parse_rest rest (u\<lparr>u_RawQuery := q\<rparr>)))"

definition Url_Parse :: "string \<Rightarrow> URL option" where
  "Url_Parse raw =
     (case cut CHR ''#'' raw of (s, frag, _) \<Rightarrow>
       Option.bind (parse_no_fragment s) (\<lambda>u. if frag = [] then Some u else setFragment frag u))"

definition URL_Query :: "URL \<Rightarrow> Values" where
  "URL_Query u = parse_query (u_RawQuery u)"

definition splitHostPort :: "string \<Rightarrow> string \<times> string" where
  "splitHostPort hp =
     (let (host, port) = (case last_index CHR '':'' hp of
            None \<Rightarrow> (hp, [])
          | Some i \<Rightarrow> if validOptionalPort (drop i hp) then (take i hp, drop (Suc i) hp) else (hp, []))
      in (if has_prefix host ''['' \<and> has_suffix host '']'' then butlast (drop 1 host) else host, port))"

definition URL_Hostname :: "URL \<Rightarrow> string" where "URL_Hostname u = fst (splitHostPort (u_Host u))"
definition URL_Port :: "URL \<Rightarrow> string" where "URL_Port u = snd (splitHostPort (u_Host u))"

definition validEncoded :: "string \<Rightarrow> encoding \<Rightarrow> bool" where
  "validEncoded s mode =
     list_all (\<lambda>c. c \<in> set ''!$&()*+,;=:@[]%'' \<or> byte c = 39 \<or> \<not> shouldEscape c mode) s"

definition EscapedPath :: "URL \<Rightarrow> string" where
  "EscapedPath u =
     (if u_RawPath u \<noteq> [] \<and> validEncoded (u_RawPath u) encodePath \<and>
         unescape encodePath (u_RawPath u) = Some (u_Path u) then u_RawPath u
      else if u_Path u = ''*'' then ''*'' else escape encodePath (u_Path u))"

definition EscapedFragment :: "URL \<Rightarrow> string" where
  "EscapedFragment u =
     (if u_RawFragment u \<noteq> [] \<and> validEncoded (u_RawFragment u) encodeFragment \<and>
         unescape encodeFragment (u_RawFragment u) = Some (u_Fragment u) then u_RawFragment u
      else escape encodeFragment (u_Fragment u))"

definition Userinfo_String :: "string \<times> string option \<Rightarrow> string" where
  "Userinfo_String ui = escape encodeUserPassword (fst ui) @
     (case snd ui of None \<Rightarrow> [] | Some p \<Rightarrow> '':'' @ escape encodeUserPassword p)"

definition authority_string :: "URL \<Rightarrow> string" where
  "authority_string u =
     (if u_Scheme u = [] \<and> u_Host u = [] \<and> u_User u = None then []
      else if u_OmitHost u \<and> u_Host u = [] \<and> u_User u = None then []
      else (if u_Host u \<noteq> [] \<or> u_Path u \<noteq> [] \<or> u_User u \<noteq> None then ''//'' else []) @
           (case u_User u of None \<Rightarrow> [] | Some ui \<Rightarrow> Userinfo_String ui @ ''@'') @
           (if u_Host u \<noteq> [] then escape encodeHost (u_Host u) else []))"

definition URL_String :: "URL \<Rightarrow> string" where
  "URL_String u =
     (let scheme = (if u_Scheme u \<noteq> [] then u_Scheme u @ '':'' else []);
          middle = (if u_Opaque u \<noteq> [] then u_Opaque u
            else let a = authority_string u; path = EscapedPath u in
              a @ (if path \<noteq> [] \<and> \<not> has_prefix path ''/'' \<and> u_Host u \<noteq> [] then ''/'' else []) @
              (if scheme @ a = [] \<and> CHR '':'' \<in> set (before_char CHR ''/'' path) then ''./'' else []) @ path)
      in scheme @ middle @ (if u_ForceQuery u \<or> u_RawQuery u \<noteq> [] then ''?'' @ u_RawQuery u else []) @
         (if u_Fragment u \<noteq> [] then ''#'' @ EscapedFragment u else []))"

section \<open>Decoding what was encoded\<close>

lemma hex_digit_ok: "n < 16 \<Longrightarrow> is_hex (hex_digit n) \<and> unhex (hex_digit n) = n"
  by (cases "n < 10") (simp_all add: hex_digit_def is_hex_def unhex_def hex_value_def is_digit_def byte_def)

lemma byte_split: "char_of (16 * (byte c div 16) + byte c mod 16) = c"
  by (simp add: byte_def)

lemma plain_char: "\<not> shouldEscape c mode \<Longrightarrow> mode \<noteq> encodeHost \<Longrightarrow> mode \<noteq> encodeZone \<Longrightarrow> c \<noteq> CHR ''%''"
  by (cases mode) (auto simp: shouldEscape_def char_class_defs)

lemma unescape_escape:
  assumes "mode \<noteq> encodeHost" and "mode \<noteq> encodeZone"
  shows "unescape mode (escape mode s) = Some s"
proof (induction s)
  case (Cons c s)
  have "byte c div 16 < 16" using byte_less [of c] by simp
  then have h: "is_hex (hex_digit (byte c div 16))" "unhex (hex_digit (byte c div 16)) = byte c div 16"
    "is_hex (hex_digit (byte c mod 16))" "unhex (hex_digit (byte c mod 16)) = byte c mod 16"
    using hex_digit_ok by simp_all
  have p: "shouldEscape CHR ''+'' encodeQueryComponent"
    by (simp add: shouldEscape_def char_class_defs)
  show ?case
    using Cons assms h byte_split [of c] plain_char [of c mode] p by (auto simp: bad_triple_def)
qed simp

lemma QueryUnescape_Escape [simp]: "QueryUnescape (QueryEscape s) = Some s"
  by (simp add: QueryUnescape_def QueryEscape_def unescape_escape)

lemma hex_digit_alnum: "n < 16 \<Longrightarrow> is_alnum (hex_digit n)"
  by (cases "n < 10") (simp_all add: hex_digit_def char_class_defs)

definition query_char :: "char \<Rightarrow> bool" where
  "query_char c = (is_alnum c \<or> c \<in> set ''-_.~+%'')"

lemma query_char_plain: "\<not> shouldEscape c encodeQueryComponent \<Longrightarrow> query_char c"
  by (simp add: shouldEscape_def query_char_def split: if_splits) blast

lemma escape_step: "c \<in> set (escape encodeQueryComponent (x # s)) \<Longrightarrow>
   c = CHR ''+'' \<or> c = CHR ''%'' \<or> c = hex_digit (byte x div 16) \<or> c = hex_digit (byte x mod 16) \<or>
   (\<not> shouldEscape x encodeQueryComponent \<and> c = x) \<or> c \<in> set (escape encodeQueryComponent s)"
  by (simp split: if_splits) blast

lemma escape_chars: "c \<in> set (QueryEscape s) \<Longrightarrow> query_char c"
  unfolding QueryEscape_def
proof (induction s)
  case (Cons x s)
  have "byte x div 16 < 16" using byte_less [of x] by simp
  then have "query_char (hex_digit (byte x div 16))" "query_char (hex_digit (byte x mod 16))"
    using hex_digit_alnum by (simp_all add: query_char_def)
  moreover have "query_char CHR ''+''" "query_char CHR ''%''" by (simp_all add: query_char_def)
  ultimately show ?case using escape_step [OF Cons.prems] Cons.IH query_char_plain by blast
qed simp

lemma escape_reserved: "c \<in> set ''&=;#'' \<Longrightarrow> c \<notin> set (QueryEscape s)"
proof
  assume "c \<in> set ''&=;#''" and "c \<in> set (QueryEscape s)"
  moreover have "list_all (\<lambda>c. \<not> query_char c) ''&=;#''"
    by (simp add: query_char_def char_class_defs)
  ultimately show False using escape_chars by (auto simp: list_all_iff simp del: set_simps)
qed

lemma escape_safe [simp]:
  "CHR ''&'' \<notin> set (QueryEscape s)" "CHR ''='' \<notin> set (QueryEscape s)"
  "CHR '';'' \<notin> set (QueryEscape s)" "CHR ''#'' \<notin> set (QueryEscape s)"
  by (rule escape_reserved, simp)+

lemma query_piece_encode [simp]: "query_piece (encode_pair kv) = Some kv"
  by (simp add: query_piece_def encode_pair_def cut_found)

lemma encode_pair_safe: "CHR ''&'' \<notin> set (encode_pair kv)"
  by (simp add: encode_pair_def)

lemma query_pairs_encode: "query_pairs (join_with ''&'' (map encode_pair ps)) = ps"
proof (cases "ps = []")
  case False
  have "split_on CHR ''&'' (join_with ''&'' (map encode_pair ps)) = map encode_pair ps"
    by (rule split_join) (use False encode_pair_safe in auto)
  then show ?thesis
    by (simp add: query_pairs_def List.map_filter_def comp_def)
qed (simp add: query_pairs_def List.map_filter_def query_piece_def)

text \<open>Well-formed maps: distinct keys, no key without a value. Parsing yields them.\<close>

definition wf_values :: "Values \<Rightarrow> bool" where
  "wf_values m \<longleftrightarrow> distinct (map fst m) \<and> (\<forall>(k, vs) \<in> set m. vs \<noteq> [])"

lemma in_update: "x \<in> set (AList.update k v m) \<Longrightarrow> x = (k, v) \<or> x \<in> set m"
  by (induction m) (auto split: if_splits)

lemma add_value_wf: "wf_values m \<Longrightarrow> wf_values (add_value k v m)"
  by (auto simp: wf_values_def add_value_def distinct_update dest!: in_update)

lemma fold_add_wf: "wf_values m \<Longrightarrow> wf_values (fold (\<lambda>(k, v) m. add_value k v m) ps m)"
  by (induction ps arbitrary: m) (auto simp: add_value_wf)

lemma parse_query_wf: "wf_values (parse_query q)"
  unfolding parse_query_def by (rule fold_add_wf) (simp add: wf_values_def)

lemma update_snoc: "k \<notin> fst ` set m \<Longrightarrow> AList.update k w (m @ (k, v) # r) = m @ (k, w) # r"
  by (induction m) auto

lemma update_end: "k \<notin> fst ` set m \<Longrightarrow> AList.update k w m = m @ [(k, w)]"
  by (induction m) auto

lemma fold_add_values:
  "k \<notin> fst ` set m \<Longrightarrow>
   fold (\<lambda>(k, v) m. add_value k v m) (map (Pair k) vs) (m @ [(k, ws)]) = m @ [(k, ws @ vs)]"
proof (induction vs arbitrary: ws)
  case (Cons v vs)
  then have "map_of m k = None" by (simp add: map_of_eq_None_iff)
  then have "add_value k v (m @ [(k, ws)]) = m @ [(k, ws @ [v])]"
    using Cons.prems by (simp add: add_value_def update_snoc map_add_def)
  with Cons show ?case by simp
qed simp

lemma fold_add_flat:
  "distinct (map fst (m @ n)) \<Longrightarrow> \<forall>(k, vs)\<in>set n. vs \<noteq> [] \<Longrightarrow>
   fold (\<lambda>(k, v) m. add_value k v m) (flat_values n) m = m @ n"
proof (induction n arbitrary: m)
  case (Cons kv n)
  obtain k v vs where kv: "kv = (k, v # vs)" using Cons.prems(2) by (cases kv; cases "snd kv") auto
  with Cons.prems have k: "k \<notin> fst ` set m" by auto
  then have "map_of m k = None" by (simp add: map_of_eq_None_iff)
  with k have "add_value k v m = m @ [(k, [v])]" by (simp add: add_value_def update_end)
  then have "fold (\<lambda>(k, v) m. add_value k v m) (map (Pair k) (v # vs)) m = m @ [kv]"
    using fold_add_values [OF k, of vs "[v]"] kv by simp
  with Cons show ?case by (simp add: flat_values_def kv)
qed (simp add: flat_values_def)

lemma sort_values_wf: "wf_values m \<Longrightarrow> wf_values (sort_values m)"
  by (simp add: wf_values_def sort_values_def distinct_map_mset [of "sort_key fst m" m fst])

theorem parse_query_Encode: "wf_values m \<Longrightarrow> parse_query (Values_Encode m) = sort_values m"
proof -
  assume "wf_values m"
  then have "wf_values (sort_values m)" by (rule sort_values_wf)
  then have "fold (\<lambda>(k, v) m. add_value k v m) (flat_values (sort_values m)) [] = [] @ sort_values m"
    by (intro fold_add_flat) (simp_all add: wf_values_def)
  then show ?thesis by (simp add: parse_query_def Values_Encode_def query_pairs_encode)
qed

lemma sort_values_map_of: "wf_values m \<Longrightarrow> map_of (sort_values m) = map_of m"
proof -
  assume w: "wf_values m"
  then have "distinct (map fst (sort_values m))" using sort_values_wf wf_values_def by blast
  with w show ?thesis by (intro map_of_eqI) (auto simp: wf_values_def sort_values_def)
qed

end
