(* ===== verification/Domain_Service.thy ===== *)
theory Domain_Service
  imports Owned_Tables Go_Url
begin

text \<open>
  Custom domains, internal/services/domain_service.go. \<open>normal_domain\<close> is what \<open>Create\<close> makes of
  the text the user typed before it checks and stores it.
\<close>

datatype domain_stmt = D_insert | D_list | D_delete

datatype domain_error = DE_Empty | DE_Invalid | DE_Registered | DE_NotFound | DE_Sql

definition normal_domain :: "string \<Rightarrow> string" where
  "normal_domain domain =
     (let d1 = (if contains domain ''://'' then
                  (case Url_Parse domain of
                     Some u \<Rightarrow> if URL_Hostname u \<noteq> [] then URL_Hostname u else domain
                   | None \<Rightarrow> domain)
                else domain);
          d2 = trim_prefix d1 ''http://'';
          d3 = trim_prefix d2 ''https://'';
          d4 = before_char CHR ''/'' d3
      in before_char CHR '':'' d4)"

definition DomainService_Create ::
  "(domain_stmt \<Rightarrow> bool) \<Rightarrow> time \<Rightarrow> string \<Rightarrow> string \<Rightarrow> string \<Rightarrow> db \<Rightarrow> db \<times> (domain_error + custom_domain)" where
  "DomainService_Create flt now uuid rawDomain username d =
     (let domain = to_lower (trim_space rawDomain) in
      if domain = [] then (d, Inl DE_Empty)
      else let domain = normal_domain domain in
        if length domain < 3 \<or> \<not> contains domain ''.'' then (d, Inl DE_Invalid)
        else let cd = \<lparr>cd_ID = uuid, cd_Domain = domain, cd_CreatedBy = username, cd_IsVerified = True,
                      cd_CreatedAt = unix now\<rparr>
             in case (if flt D_insert then None
                      else insert_row cd (\<lambda>rs. distinct (map cd_ID rs) \<and> distinct (map cd_Domain rs))
                             (db_custom_domains d)) of
                  None \<Rightarrow> (d, Inl DE_Registered)
                | Some rows \<Rightarrow> (d\<lparr>db_custom_domains := rows\<rparr>, Inr cd))"

definition DomainService_List ::
  "(domain_stmt \<Rightarrow> bool) \<Rightarrow> string \<Rightarrow> bool \<Rightarrow> db \<Rightarrow> domain_error + custom_domain list" where
  "DomainService_List flt username isAdmin d =
     (if flt D_list then Inl DE_Sql
      else Inr (order_desc cd_CreatedAt (owned_list cd_CreatedBy username isAdmin (db_custom_domains d))))"

definition DomainService_Delete ::
  "(domain_stmt \<Rightarrow> bool) \<Rightarrow> string \<Rightarrow> string \<Rightarrow> bool \<Rightarrow> db \<Rightarrow> db \<times> domain_error option" where
  "DomainService_Delete flt i username isAdmin d =
     (if flt D_delete then (d, Some DE_Sql)
      else case owned_delete cd_ID cd_CreatedBy i username isAdmin (db_custom_domains d) of
        None \<Rightarrow> (d, Some DE_NotFound)
      | Some rows \<Rightarrow> (d\<lparr>db_custom_domains := rows\<rparr>, None))"

interpretation domains: owned_table db_custom_domains cd_ID cd_CreatedBy "\<lambda>x. x"
    DomainService_List DomainService_Delete
  by unfold_locales
    (auto simp: DomainService_Delete_def DomainService_List_def order_desc_mset
      split: if_splits option.splits dest: owned_delete_Some)

lemma contains_iff: "contains s p \<longleftrightarrow> (\<exists>a b. s = a @ p @ b)"
proof (induction s)
  case (Cons c s)
  show ?case
  proof
    assume "contains (c # s) p"
    then consider "has_prefix (c # s) p" | "contains s p" by auto
    then show "\<exists>a b. c # s = a @ p @ b"
    proof cases
      case 1
      then show ?thesis using has_prefix_iff [of "c # s" p] by (metis append_Nil)
    next
      case 2
      then obtain a b where "s = a @ p @ b" using Cons.IH by blast
      then have "c # s = (c # a) @ p @ b" by simp
      then show ?thesis by blast
    qed
  next
    assume "\<exists>a b. c # s = a @ p @ b"
    then obtain a b where ab: "c # s = a @ p @ b" by blast
    show "contains (c # s) p"
    proof (cases a)
      case Nil
      then have "has_prefix (c # s) p" using ab by simp
      then show ?thesis by simp
    next
      case (Cons x a')
      then show ?thesis using ab Cons.IH by auto
    qed
  qed
qed auto

section \<open>Properties\<close>

text \<open>
  A domain that is registered is a bare name: at least three characters, with a dot,
  and with neither a port nor a path nor a scheme left in it; it was not registered before, it
  belongs to the caller, and a refused registration changes nothing.
\<close>

theorem Domain_Create_bare:
  assumes "DomainService_Create flt now uuid raw who d = (d', res)"
  shows "(case res of
      Inl e \<Rightarrow> d' = d
    | Inr cd \<Rightarrow> db_custom_domains d' = db_custom_domains d @ [cd] \<and> cd_CreatedBy cd = who \<and>
        cd_Domain cd \<notin> cd_Domain ` set (db_custom_domains d) \<and>
        3 \<le> length (cd_Domain cd) \<and> CHR ''.'' \<in> set (cd_Domain cd) \<and>
        CHR '':'' \<notin> set (cd_Domain cd) \<and> CHR ''/'' \<notin> set (cd_Domain cd))"
proof (cases res)
  case (Inl e)
  then show ?thesis using assms
    by (auto simp: DomainService_Create_def Let_def split: if_splits option.splits)
next
  case (Inr cd)
  let ?n = "normal_domain (to_lower (trim_space raw))"
  have cd: "cd_Domain cd = ?n" "cd_CreatedBy cd = who" "3 \<le> length ?n" "contains ?n ''.''"
    "insert_row cd (\<lambda>rs. distinct (map cd_ID rs) \<and> distinct (map cd_Domain rs)) (db_custom_domains d) =
      Some (db_custom_domains d')"
    using assms Inr by (auto simp: DomainService_Create_def Let_def split: if_splits option.splits)
  have "CHR ''.'' \<in> set ?n" using cd(4) by (auto simp: contains_iff)
  moreover have "CHR '':'' \<notin> set ?n" by (simp add: normal_domain_def Let_def before_char_notin)
  moreover have "CHR ''/'' \<notin> set ?n"
  proof -
    have "set (before_char c s) \<subseteq> set s" for c s
      using set_takeWhileD [of _ "\<lambda>x. x \<noteq> c" s] by (auto simp: before_char_def split_on_hd)
    then have "CHR ''/'' \<notin> set (before_char CHR '':'' (before_char CHR ''/'' x))" for x
      using before_char_notin [of "CHR ''/''" x] by blast
    then show ?thesis by (simp add: normal_domain_def Let_def)
  qed
  ultimately show ?thesis using cd Inr by (auto simp: insert_row_Some)
qed

lemma domain_example:
  "DomainService_Create (\<lambda>q. False) 0 ''d1'' ''Go.E.com:8443'' ''ana'' empty_db =
    (empty_db\<lparr>db_custom_domains := [\<lparr>cd_ID = ''d1'', cd_Domain = ''go.e.com'', cd_CreatedBy = ''ana'',
       cd_IsVerified = True, cd_CreatedAt = 0\<rparr>]\<rparr>,
     Inr \<lparr>cd_ID = ''d1'', cd_Domain = ''go.e.com'', cd_CreatedBy = ''ana'', cd_IsVerified = True, cd_CreatedAt = 0\<rparr>)"
proof -
  have t: "trim_space ''Go.E.com:8443'' = ''Go.E.com:8443''"
    by (rule trim_visible) (simp_all add: visible_def byte_def)
  have l: "to_lower ''Go.E.com:8443'' = ''go.e.com:8443''" by code_simp
  have n: "normal_domain ''go.e.com:8443'' = ''go.e.com''" by code_simp
  have c: "contains ''go.e.com'' ''.''" by code_simp
  show ?thesis by (simp add: DomainService_Create_def t l n c Let_def insert_row_def unix_def has_prefix_def)
qed

theorem Domain_Create_bare_witness: "CHR '':'' \<notin> set ''go.e.com''"
  using Domain_Create_bare [OF domain_example] by simp

end
