(* ===== verification/Http_Client.thy ===== *)
theory Http_Client
  imports Prelude
begin

text \<open>
  What the program uses of \<open>http.Client\<close> of package net/http: one call of \<open>Do\<close>, the redirects it follows
  on its own, and the timeout that covers them all. The network is a parameter: to the request
  number \<open>k\<close> of the call, for an address, it answers after a duration with a transport error or with
  a status and a \<open>Location\<close>, which is absent, not a URL, or the absolute address it stands for.
\<close>

definition millisecond_ns :: int where "millisecond_ns = 1000000"

datatype location = No_Location | Bad_Location | To string

type_synonym network = "nat \<Rightarrow> string \<Rightarrow> int \<times> (int \<times> location) option"

text \<open>\<open>CheckRedirect\<close>: the library's own policy, which gives up after ten requests, or the function
  that always answers \<open>http.ErrUseLastResponse\<close>.\<close>

datatype redirect_policy = Give_up_after nat | Use_last_response

record http_client =
  hc_Timeout :: int
  hc_CheckRedirect :: redirect_policy

definition zero_client :: http_client where
  "zero_client = \<lparr>hc_Timeout = 0, hc_CheckRedirect = Give_up_after 10\<rparr>"

definition redirect_status :: "int \<Rightarrow> bool" where
  "redirect_status code \<longleftrightarrow> code \<in> {301, 302, 303, 307, 308}"

text \<open>
  The addresses requested from number \<open>k\<close> on, the status of the response (\<open>None\<close> for an error) and the
  time it took; \<open>spent\<close> is the time gone before. A timeout of zero is none.
\<close>

definition out_of_time :: "int \<Rightarrow> int \<Rightarrow> bool" where
  "out_of_time timeout t \<longleftrightarrow> timeout > 0 \<and> t > timeout"

function client_run :: "http_client \<Rightarrow> network \<Rightarrow> int \<Rightarrow> nat \<Rightarrow> string \<Rightarrow> string list \<times> int option \<times> int" where
  "client_run c net spent k url =
     (case net k url of (dur, answer) \<Rightarrow>
        let t = spent + max 0 dur in
        if out_of_time (hc_Timeout c) t then ([url], None, hc_Timeout c)
        else (case answer of
          None \<Rightarrow> ([url], None, t)
        | Some (code, loc) \<Rightarrow>
            if \<not> redirect_status code then ([url], Some code, t)
            else (case loc of
              No_Location \<Rightarrow> ([url], Some code, t)
            | Bad_Location \<Rightarrow> ([url], None, t)
            | To next_url \<Rightarrow>
                (case hc_CheckRedirect c of
                  Use_last_response \<Rightarrow> ([url], Some code, t)
                | Give_up_after n \<Rightarrow>
                    if Suc k \<ge> n then ([url], None, t)
                    else (case client_run c net t (Suc k) next_url of (urls, res) \<Rightarrow> (url # urls, res))))))"
  by pat_completeness auto

termination
  by (relation "measure (\<lambda>(c, net, spent, k, url). case hc_CheckRedirect c of Give_up_after n \<Rightarrow> n - k | _ \<Rightarrow> 0)") auto

declare client_run.simps [simp del]

definition client_Do :: "http_client \<Rightarrow> network \<Rightarrow> string \<Rightarrow> string list \<times> int option \<times> int" where
  "client_Do c net url = client_run c net 0 0 url"

text \<open>A client with the second policy asks for the address it was given and no other.\<close>

lemma client_Do_last:
  "hc_CheckRedirect c = Use_last_response \<Longrightarrow> fst (client_Do c net url) = [url]"
  by (auto simp: client_Do_def client_run.simps Let_def split: prod.splits option.splits location.splits)

text \<open>The timeout bounds a call, redirects included.\<close>

lemma client_run_time:
  "hc_Timeout c > 0 \<Longrightarrow> spent \<le> hc_Timeout c \<Longrightarrow> snd (snd (client_run c net spent k url)) \<le> hc_Timeout c"
proof (induction c net spent k url rule: client_run.induct)
  case (1 c net spent k url)
  obtain dur answer where q: "net k url = (dur, answer)" by (cases "net k url")
  show ?case
  proof (cases "out_of_time (hc_Timeout c) (spent + max 0 dur)")
    case True
    then show ?thesis by (simp add: client_run.simps [of c net spent k url] q Let_def)
  next
    case False
    then have t: "spent + max 0 dur \<le> hc_Timeout c" using 1(2) by (auto simp: out_of_time_def)
    show ?thesis
    proof (cases "\<exists>code next_url n. answer = Some (code, To next_url) \<and> redirect_status code \<and>
        hc_CheckRedirect c = Give_up_after n \<and> \<not> n \<le> Suc k")
      case True
      then obtain code next_url n where a: "answer = Some (code, To next_url)" "redirect_status code"
        "hc_CheckRedirect c = Give_up_after n" "\<not> n \<le> Suc k" by blast
      have "snd (snd (client_run c net (spent + max 0 dur) (Suc k) next_url)) \<le> hc_Timeout c"
        using 1(1) [OF q [symmetric] refl False a(1) refl] a 1(2) t by simp
      then show ?thesis using False a
        by (cases "client_run c net (spent + max 0 dur) (Suc k) next_url")
          (simp add: client_run.simps [of c net spent k url] q Let_def)
    next
      case none: False
      then show ?thesis using False t
        by (auto simp: client_run.simps [of c net spent k url] q Let_def
            split: option.splits location.splits redirect_policy.splits)
    qed
  qed
qed

lemma client_Do_time: "hc_Timeout c > 0 \<Longrightarrow> snd (snd (client_Do c net url)) \<le> hc_Timeout c"
  by (simp add: client_Do_def client_run_time)

end
