(* ===== verification/Egress.thy ===== *)
theory Egress
  imports Go_Url Http_Client
begin

text \<open>
  Outbound URL validation, internal/services/egress.go: the addresses the server refuses to
  call, and the check a webhook target passes when it is stored and before every delivery.
  The resolver (\<open>resolveHost\<close>, DNS in production) is an argument: a name to its addresses, or
  \<open>None\<close> when the lookup fails.
\<close>

datatype outbound_error = EmptyOutboundURL | BadOutboundURL | SchemeNotAllowed string
  | MissingHostname | LocalhostTarget | ReservedAddress ip | CannotResolve string
  | ResolvesToNothing string | ResolvesToReserved string ip

definition blockedCIDRs :: "string list" where
  "blockedCIDRs = [''0.0.0.0/8'', ''10.0.0.0/8'', ''100.64.0.0/10'', ''127.0.0.0/8'',
     ''169.254.0.0/16'', ''172.16.0.0/12'', ''192.0.0.0/24'', ''192.168.0.0/16'',
     ''198.18.0.0/15'', ''::1/128'', ''fc00::/7'', ''fe80::/10'']"

text \<open>\<open>init\<close> panics on a bad entry; \<open>blockedNets_ok\<close> shows there is none.\<close>

definition blockedNets :: "ip_net list" where
  "blockedNets = List.map_filter ParseCIDR blockedCIDRs"

text \<open>A \<open>nil\<close> address is the empty list.\<close>

definition IsBlockedIP :: "ip \<Rightarrow> bool" where
  "IsBlockedIP ip =
     (if ip = [] \<or> IsUnspecified ip \<or> IsLoopback ip \<or> IsLinkLocalUnicast ip \<or>
         IsLinkLocalMulticast ip \<or> IsInterfaceLocalMulticast ip \<or> IsMulticast ip then True
      else list_ex (\<lambda>n. IPNet_Contains n ip) blockedNets)"

definition ValidateOutboundURL :: "(string \<Rightarrow> ip list option) \<Rightarrow> string \<Rightarrow> outbound_error + URL" where
  "ValidateOutboundURL resolveHost raw =
     (let trimmed = trim_space raw in
      if trimmed = [] then Inl EmptyOutboundURL
      else case Url_Parse trimmed of
        None \<Rightarrow> Inl BadOutboundURL
      | Some parsed \<Rightarrow>
          if to_lower (u_Scheme parsed) \<notin> {''http'', ''https''}
          then Inl (SchemeNotAllowed (u_Scheme parsed))
          else let host = URL_Hostname parsed in
          if host = [] then Inl MissingHostname
          else if equal_fold host ''localhost'' then Inl LocalhostTarget
          else (case ParseIP host of
            Some literal \<Rightarrow> if IsBlockedIP literal then Inl (ReservedAddress literal) else Inr parsed
          | None \<Rightarrow>
              (case resolveHost host of
                None \<Rightarrow> Inl (CannotResolve host)
              | Some addrs \<Rightarrow>
                  if addrs = [] then Inl (ResolvesToNothing host)
                  else (case find IsBlockedIP addrs of
                    Some ip \<Rightarrow> Inl (ResolvesToReserved host ip)
                  | None \<Rightarrow> Inr parsed))))"

text \<open>The only client that calls URLs users give; it does not follow redirects.\<close>

definition NewOutboundClient :: "int \<Rightarrow> http_client" where
  "NewOutboundClient timeout = zero_client\<lparr>hc_Timeout := timeout, hc_CheckRedirect := Use_last_response\<rparr>"

lemma NewOutboundClient_simps [simp]:
  "hc_Timeout (NewOutboundClient t) = t" "hc_CheckRedirect (NewOutboundClient t) = Use_last_response"
  by (simp_all add: NewOutboundClient_def)

section \<open>The blocked ranges\<close>

lemma cidrs:
  "ParseCIDR ''0.0.0.0/8'' = Some ([0, 0, 0, 0], [255, 0, 0, 0])"
  "ParseCIDR ''10.0.0.0/8'' = Some ([10, 0, 0, 0], [255, 0, 0, 0])"
  "ParseCIDR ''100.64.0.0/10'' = Some ([100, 64, 0, 0], [255, 192, 0, 0])"
  "ParseCIDR ''127.0.0.0/8'' = Some ([127, 0, 0, 0], [255, 0, 0, 0])"
  "ParseCIDR ''169.254.0.0/16'' = Some ([169, 254, 0, 0], [255, 255, 0, 0])"
  "ParseCIDR ''172.16.0.0/12'' = Some ([172, 16, 0, 0], [255, 240, 0, 0])"
  "ParseCIDR ''192.0.0.0/24'' = Some ([192, 0, 0, 0], [255, 255, 255, 0])"
  "ParseCIDR ''192.168.0.0/16'' = Some ([192, 168, 0, 0], [255, 255, 0, 0])"
  "ParseCIDR ''198.18.0.0/15'' = Some ([198, 18, 0, 0], [255, 254, 0, 0])"
  "ParseCIDR ''::1/128'' = Some (replicate 15 0 @ [1], replicate 16 255)"
  "ParseCIDR ''fc00::/7'' = Some (252 # replicate 15 0, 254 # replicate 15 0)"
  "ParseCIDR ''fe80::/10'' = Some ([254, 128] @ replicate 14 0, [255, 192] @ replicate 14 0)"
  by (simp_all add: ip_eval)

lemma blockedNets_eval: "blockedNets =
   [([0, 0, 0, 0], [255, 0, 0, 0]), ([10, 0, 0, 0], [255, 0, 0, 0]),
    ([100, 64, 0, 0], [255, 192, 0, 0]), ([127, 0, 0, 0], [255, 0, 0, 0]),
    ([169, 254, 0, 0], [255, 255, 0, 0]), ([172, 16, 0, 0], [255, 240, 0, 0]),
    ([192, 0, 0, 0], [255, 255, 255, 0]), ([192, 168, 0, 0], [255, 255, 0, 0]),
    ([198, 18, 0, 0], [255, 254, 0, 0]),
    (replicate 15 0 @ [1], replicate 16 255),
    (252 # replicate 15 0, 254 # replicate 15 0),
    ([254, 128] @ replicate 14 0, [255, 192] @ replicate 14 0)]"
  by (simp add: blockedNets_def blockedCIDRs_def List.map_filter_simps cidrs)

lemma byte_ranges:
  fixes b :: "8 word"
  shows "b AND 192 = 64 \<longleftrightarrow> 64 \<le> b \<and> b \<le> 127" "b AND 240 = 16 \<longleftrightarrow> 16 \<le> b \<and> b \<le> 31"
    "b AND 254 = 18 \<longleftrightarrow> b = 18 \<or> b = 19" "b AND 240 = 224 \<longleftrightarrow> 224 \<le> b \<and> b \<le> 239"
    "b AND 255 = b"
  by (rule all_bytes [of "\<lambda>b. (b AND 192 = 64) = (64 \<le> b \<and> b \<le> 127)"], code_simp)
    (rule all_bytes [of "\<lambda>b. (b AND 240 = 16) = (16 \<le> b \<and> b \<le> 31)"], code_simp,
     rule all_bytes [of "\<lambda>b. (b AND 254 = 18) = (b = 18 \<or> b = 19)"], code_simp,
     rule all_bytes [of "\<lambda>b. (b AND 240 = 224) = (224 \<le> b \<and> b \<le> 239)"], code_simp,
     rule all_bytes [of "\<lambda>b. b AND 255 = b"], code_simp)

text \<open>
  The IPv4 addresses the server refuses, as ranges. An IPv4 address and its IPv6-mapped form
  \<open>::ffff:a.b.c.d\<close> get the same answer, so the mapped form is no way around the list.
\<close>

definition refused_v4 :: "8 word \<Rightarrow> 8 word \<Rightarrow> 8 word \<Rightarrow> bool" where
  "refused_v4 a b c \<longleftrightarrow> a = 0 \<or> a = 10 \<or> (a = 100 \<and> 64 \<le> b \<and> b \<le> 127) \<or> a = 127 \<or>
     (a = 169 \<and> b = 254) \<or> (a = 172 \<and> 16 \<le> b \<and> b \<le> 31) \<or> (a = 192 \<and> b = 0 \<and> c = 0) \<or>
     (a = 192 \<and> b = 168) \<or> (a = 198 \<and> (b = 18 \<or> b = 19)) \<or> (224 \<le> a \<and> a \<le> 239)"

lemma To4_short: "length ip = 4 \<Longrightarrow> To4 ip = Some ip" by (simp add: To4_def)

lemma IsBlockedIP_To4:
  assumes "To4 ip = Some [a, b, c, d]" and "ip \<noteq> []"
    and v6: "ip \<noteq> replicate 16 0" "\<not> IsInterfaceLocalMulticast ip"
  shows "IsBlockedIP ip \<longleftrightarrow> refused_v4 a b c"
  using assms(2) v6
  by (simp add: IsBlockedIP_def IsUnspecified_def IsLoopback_def IsMulticast_def IsLinkLocalMulticast_def
      IsLinkLocalUnicast_def first_is_def assms(1) blockedNets_eval IPNet_Contains_def mask_ip_def
      byte_ranges refused_v4_def) auto

lemma IsBlockedIP_v4: "IsBlockedIP [a, b, c, d] \<longleftrightarrow> refused_v4 a b c"
  by (rule IsBlockedIP_To4 [of _ a b c d])
    (simp_all add: To4_short IsInterfaceLocalMulticast_def replicate_unfold)

lemma IsBlockedIP_mapped: "IsBlockedIP (IPv4 a b c d) \<longleftrightarrow> refused_v4 a b c"
  by (rule IsBlockedIP_To4 [of _ a b c d])
    (simp_all add: IPv4_def v4_prefix_def IsInterfaceLocalMulticast_def first_is_def replicate_unfold To4_def)

definition refused_v6 :: "ip \<Rightarrow> bool" where
  "refused_v6 ip \<longleftrightarrow> ip = replicate 16 0 \<or> ip = replicate 15 0 @ [1] \<or> hd ip = 255 \<or>
     hd ip AND 254 = 252 \<or> (hd ip = 254 \<and> ip ! 1 AND 192 = 128)"

lemma IsBlockedIP_v6:
  assumes "length ip = 16" and "To4 ip = None"
  shows "IsBlockedIP ip \<longleftrightarrow> refused_v6 ip"
proof -
  obtain a b rest where ip: "ip = a # b # rest" "length rest = 14"
    using assms(1) by (cases ip; cases "tl ip") auto
  have z: "map2 (AND) xs (replicate n 0) = replicate n (0 :: 8 word)" if "length xs = n" for xs n
    using that by (induction xs arbitrary: n) auto
  have f: "map2 (AND) xs (replicate n 255) = (xs :: 8 word list)" if "length xs = n" for xs n
    using that by (induction xs arbitrary: n) (auto simp: byte_ranges)
  have c1: "IPNet_Contains (replicate 15 0 @ [1], replicate 16 255) ip \<longleftrightarrow> ip = replicate 15 0 @ [1]"
    using assms f [of ip 16] f [of "replicate 15 0 @ [1]" 16]
    by (auto simp: IPNet_Contains_def mask_ip_def)
  have c2: "IPNet_Contains (252 # replicate 15 0, 254 # replicate 15 0) ip \<longleftrightarrow> a AND 254 = 252"
    using assms ip z [of "b # rest" 15] z [of "replicate 15 0" 15]
    by (auto simp: IPNet_Contains_def mask_ip_def)
  have c3: "IPNet_Contains ([254, 128] @ replicate 14 0, [255, 192] @ replicate 14 0) ip \<longleftrightarrow>
      a = 254 \<and> b AND 192 = 128"
    using assms ip z [of rest 14] z [of "replicate 14 0" 14]
    by (auto simp: IPNet_Contains_def mask_ip_def byte_ranges)
  have c4: "\<not> IPNet_Contains ([w, x, y, v], m) ip" for w x y v m
    using assms by (simp add: IPNet_Contains_def)
  have nets: "list_ex (\<lambda>n. IPNet_Contains n ip) blockedNets \<longleftrightarrow>
      ip = replicate 15 0 @ [1] \<or> a AND 254 = 252 \<or> (a = 254 \<and> b AND 192 = 128)"
    by (simp add: blockedNets_eval c4 c1 c2 c3 [simplified])
  have classes: "IsUnspecified ip \<longleftrightarrow> ip = replicate 16 0" "IsLoopback ip \<longleftrightarrow> ip = replicate 15 0 @ [1]"
    "IsMulticast ip \<longleftrightarrow> a = 255" "IsLinkLocalUnicast ip \<longleftrightarrow> a = 254 \<and> b AND 192 = 128"
    "IsLinkLocalMulticast ip \<Longrightarrow> a = 255" "IsInterfaceLocalMulticast ip \<Longrightarrow> a = 255"
    using assms by (simp_all add: ip_class_defs ip)
  have "ip \<noteq> []" "hd ip = a" "ip ! 1 = b" by (simp_all add: ip)
  then show ?thesis
    unfolding IsBlockedIP_def refused_v6_def using nets classes by (simp only: if_bool_eq_disj) blast
qed

section \<open>Properties of outbound validation\<close>

text \<open>
  The blocklist, as ranges. For IPv4, written as such or mapped into IPv6, it refuses
  0/8, 10/8, 100.64/10, 127/8, 169.254/16, 172.16/12, 192.0.0/24, 192.168/16, 198.18/15 and
  multicast, and nothing else; for other IPv6 addresses the unspecified and loopback
  addresses, fc00::/7, fe80::/10 and multicast, and nothing else.
\<close>

theorem IsBlockedIP_ranges:
  "IsBlockedIP [a, b, c, d] = refused_v4 a b c \<and> IsBlockedIP (IPv4 a b c d) = refused_v4 a b c \<and>
   (length ip = 16 \<and> To4 ip = None \<longrightarrow> IsBlockedIP ip = refused_v6 ip)"
  using IsBlockedIP_v4 IsBlockedIP_mapped IsBlockedIP_v6 by blast

theorem IsBlockedIP_ranges_witness: "IsBlockedIP (replicate 15 0 @ [1])"
  using IsBlockedIP_ranges [of 0 0 0 0 "replicate 15 0 @ [1]"]
  by (simp add: refused_v6_def To4_def v4_prefix_def replicate_unfold)

text \<open>
  Claim C27. A URL the validator accepts is http or https, names a host that is not localhost,
  and every address the host stands for (the literal, or each of the resolver's answers, of
  which there is at least one) is outside the blocked ranges.
\<close>

theorem ValidateOutboundURL_safe:
  assumes "ValidateOutboundURL resolveHost raw = Inr u"
  shows "Url_Parse (trim_space raw) = Some u \<and> to_lower (u_Scheme u) \<in> {''http'', ''https''} \<and>
     URL_Hostname u \<noteq> [] \<and> \<not> equal_fold (URL_Hostname u) ''localhost'' \<and>
     (case ParseIP (URL_Hostname u) of
        Some ip \<Rightarrow> \<not> IsBlockedIP ip
      | None \<Rightarrow> (\<exists>addrs. resolveHost (URL_Hostname u) = Some addrs \<and> addrs \<noteq> [] \<and>
                  (\<forall>ip\<in>set addrs. \<not> IsBlockedIP ip)))"
  using assms unfolding ValidateOutboundURL_def Let_def
  by (auto split: if_splits option.splits simp: find_None_iff)

definition plain_url :: URL where
  "plain_url = empty_url\<lparr>u_Scheme := ''http'', u_Host := ''e.com''\<rparr>"

lemma validate_example: "ValidateOutboundURL (\<lambda>h. Some [[93, 184, 216, 34]]) ''http://e.com'' = Inr plain_url"
proof -
  have t: "trim_space ''http://e.com'' = ''http://e.com''"
    by (rule trim_visible) (simp_all add: visible_def byte_def)
  have p: "Url_Parse ''http://e.com'' = Some plain_url" by code_simp
  have h: "URL_Hostname plain_url = ''e.com''" by code_simp
  have f: "ParseIP ''e.com'' = None" "\<not> equal_fold ''e.com'' ''localhost''" "to_lower (u_Scheme plain_url) = ''http''"
    by code_simp+
  have b: "\<not> IsBlockedIP [93, 184, 216, 34]" by (simp add: IsBlockedIP_v4 refused_v4_def)
  show ?thesis
    unfolding ValidateOutboundURL_def Let_def t p option.case h f(1,3) using f(2) b by simp
qed

theorem ValidateOutboundURL_safe_witness: "\<not> equal_fold (URL_Hostname plain_url) ''localhost''"
  using ValidateOutboundURL_safe [OF validate_example] by blast

end
