(* ===== verification/Api_Key_Service.thy ===== *)
theory Api_Key_Service
  imports Owned_Tables
begin

text \<open>
  API keys, internal/services/api_key_service.go. The digest is a parameter: \<open>sha\<close> maps the bytes
  of a secret to the bytes of its SHA-256 sum; what the properties need of it (that two secrets
  at hand do not collide) is a hypothesis. The 24 random bytes of a new key are an argument,
  \<open>None\<close> when the random source fails.
\<close>

datatype key_stmt = K_insert | K_list | K_delete | K_by_hash | K_touch

datatype key_error = KE_Random | KE_Save | KE_NotFound | KE_Format | KE_Revoked | KE_Sql

definition OIDCSubjectKeyPrefix :: string where
  "OIDCSubjectKeyPrefix = ''oidc-subject-v2:''"

definition hex_lower :: "nat \<Rightarrow> char" where
  "hex_lower n = ''0123456789abcdef'' ! n"

definition hex_encode :: "string \<Rightarrow> string" where
  "hex_encode bs = concat (map (\<lambda>c. [hex_lower (byte c div 16), hex_lower (byte c mod 16)]) bs)"

definition hashAPIKey :: "(string \<Rightarrow> string) \<Rightarrow> string \<Rightarrow> string" where
  "hashAPIKey sha rawSecret = hex_encode (sha rawSecret)"

definition APIKey_create ::
  "(key_stmt \<Rightarrow> bool) \<Rightarrow> (string \<Rightarrow> string) \<Rightarrow> time \<Rightarrow> string \<Rightarrow> string option \<Rightarrow> string \<Rightarrow> string \<Rightarrow> bool \<Rightarrow>
   db \<Rightarrow> db \<times> (key_error + (api_key \<times> string))" where
  "APIKey_create flt sha now uuid random name username oidc d =
     (let name = trim_space name;
          name = (if name = [] then ''Default API Key'' else name)
      in case random of
        None \<Rightarrow> (d, Inl KE_Random)
      | Some randomBytes \<Rightarrow>
          let rawSecret = ''lk_live_'' @ hex_encode randomBytes;
              k = \<lparr>ak_ID = (if oidc then OIDCSubjectKeyPrefix @ uuid else uuid), ak_UserID = username,
                   ak_Name = name, ak_KeyPrefix = take 16 rawSecret @ ''...'',
                   ak_KeyHash = hashAPIKey sha rawSecret, ak_LastUsedAt = None, ak_CreatedAt = unix now\<rparr>
          in case (if flt K_insert then None
                   else insert_row k (\<lambda>rs. distinct (map ak_ID rs)) (db_api_keys d)) of
               None \<Rightarrow> (d, Inl KE_Save)
             | Some rows \<Rightarrow> (d\<lparr>db_api_keys := rows\<rparr>, Inr (k, rawSecret)))"

definition APIKeyService_Create where
  "APIKeyService_Create flt sha now uuid random name username d =
     APIKey_create flt sha now uuid random name username False d"

definition APIKeyService_CreateOIDC where
  "APIKeyService_CreateOIDC flt sha now uuid random name subject d =
     APIKey_create flt sha now uuid random name subject True d"

text \<open>A listing does not select the hash.\<close>

definition without_hash :: "api_key \<Rightarrow> api_key" where
  "without_hash k = k\<lparr>ak_KeyHash := []\<rparr>"

definition APIKeyService_List ::
  "(key_stmt \<Rightarrow> bool) \<Rightarrow> string \<Rightarrow> bool \<Rightarrow> db \<Rightarrow> key_error + api_key list" where
  "APIKeyService_List flt username isAdmin d =
     (if flt K_list then Inl KE_Sql
      else Inr (map without_hash (order_desc ak_CreatedAt (owned_list ak_UserID username isAdmin (db_api_keys d)))))"

definition APIKeyService_Delete ::
  "(key_stmt \<Rightarrow> bool) \<Rightarrow> string \<Rightarrow> string \<Rightarrow> bool \<Rightarrow> db \<Rightarrow> db \<times> key_error option" where
  "APIKeyService_Delete flt i username isAdmin d =
     (if flt K_delete then (d, Some KE_Sql)
      else case owned_delete ak_ID ak_UserID i username isAdmin (db_api_keys d) of
        None \<Rightarrow> (d, Some KE_NotFound)
      | Some rows \<Rightarrow> (d\<lparr>db_api_keys := rows\<rparr>, None))"

text \<open>\<open>ValidateKey\<close>: the result, and the database with \<open>last_used_at\<close> updated if that worked.\<close>

definition ValidateKey ::
  "(key_stmt \<Rightarrow> bool) \<Rightarrow> (string \<Rightarrow> string) \<Rightarrow> (string \<Rightarrow> bool) \<Rightarrow> time \<Rightarrow> string \<Rightarrow> db \<Rightarrow>
   db \<times> (key_error + user_session)" where
  "ValidateKey flt sha isAdmin now token d =
     (let token = trim_space token in
      if \<not> has_prefix token ''lk_live_'' then (d, Inl KE_Format)
      else let keyHash = hashAPIKey sha token in
        (case query_row (flt K_by_hash) (find (\<lambda>k. ak_KeyHash k = keyHash) (db_api_keys d)) of
           Inl NoRows \<Rightarrow> (d, Inl KE_Revoked)
         | Inl SqlFault \<Rightarrow> (d, Inl KE_Sql)
         | Inr k \<Rightarrow>
             (if flt K_touch then d
              else d\<lparr>db_api_keys := update_rows (\<lambda>r. ak_ID r = ak_ID k)
                       (\<lambda>r. r\<lparr>ak_LastUsedAt := Some (unix now)\<rparr>) (db_api_keys d)\<rparr>,
              Inr (empty_session\<lparr>us_UserID := ak_UserID k, us_Username := ak_UserID k, us_Email := ak_UserID k,
                    us_IsAdmin := isAdmin (ak_UserID k), us_CreatedAt := unix now,
                    us_APIKeyID := ak_ID k, us_APIKeyHash := keyHash\<rparr>))))"

interpretation api_keys: owned_table db_api_keys ak_ID ak_UserID without_hash
    APIKeyService_List APIKeyService_Delete
  by unfold_locales
    (auto simp: APIKeyService_Delete_def APIKeyService_List_def order_desc_mset without_hash_def
      split: if_splits option.splits dest: owned_delete_Some)

section \<open>Facts about secrets\<close>

lemma hex_lower_visible: "n < 16 \<Longrightarrow> visible (hex_lower n)"
proof -
  have "list_all visible ''0123456789abcdef''" by code_simp
  then show "n < 16 \<Longrightarrow> ?thesis" by (simp add: hex_lower_def list_all_length)
qed

lemma hex_encode_visible: "c \<in> set (hex_encode bs) \<Longrightarrow> visible c"
proof -
  have "byte x div 16 < 16" for x using byte_less [of x] by simp
  then show "c \<in> set (hex_encode bs) \<Longrightarrow> ?thesis" by (auto simp: hex_encode_def intro!: hex_lower_visible)
qed

lemma secret_trim: "trim_space (''lk_live_'' @ hex_encode bs) = ''lk_live_'' @ hex_encode bs"
proof (rule trim_visible)
  have "c \<in> set (''lk_live_'' @ hex_encode bs) \<Longrightarrow> visible c" for c
    using hex_encode_visible [of c bs] by (auto simp: visible_def byte_def)
  moreover have "last (''lk_live_'' @ hex_encode bs) \<in> set (''lk_live_'' @ hex_encode bs)"
    by (rule last_in_set) simp
  ultimately show "visible (last (''lk_live_'' @ hex_encode bs))" .
  show "visible (hd (''lk_live_'' @ hex_encode bs))" by (simp add: visible_def byte_def)
qed simp

lemma ValidateKey_Inr:
  assumes "ValidateKey flt sha isAdmin now token d = (d', Inr ses)"
  shows "\<exists>k\<in>set (db_api_keys d). ak_KeyHash k = hashAPIKey sha (trim_space token) \<and>
    us_UserID ses = ak_UserID k \<and> us_APIKeyID ses = ak_ID k \<and> us_IsAdmin ses = isAdmin (ak_UserID k) \<and>
    us_APIKeyHash ses = ak_KeyHash k \<and> has_prefix (trim_space token) ''lk_live_''"
  using assms
  by (auto simp: ValidateKey_def Let_def query_row_def split: if_splits option.splits sum.splits
      dest!: find_Some_in)

lemma APIKey_create_Inr:
  assumes "APIKey_create flt sha now uuid random name who oidc d = (d', Inr (k, raw))"
  shows "\<exists>bs. random = Some bs \<and> raw = ''lk_live_'' @ hex_encode bs \<and> ak_KeyHash k = hashAPIKey sha raw \<and>
    ak_UserID k = who \<and> db_api_keys d' = db_api_keys d @ [k] \<and> distinct (map ak_ID (db_api_keys d @ [k])) \<and>
    has_prefix (ak_ID k) OIDCSubjectKeyPrefix = (oidc \<or> has_prefix uuid OIDCSubjectKeyPrefix)"
  using assms
  by (auto simp: APIKey_create_def Let_def insert_row_Some split: if_splits option.splits)

section \<open>Properties\<close>

text \<open>
  Claim C30. A new key works at once and for its owner only: the secret handed out validates to
  a session of the user it was made for, administrator only if the configuration says so of that
  user, provided its digest is not already in the table.
\<close>

theorem new_key_validates:
  assumes "APIKey_create flt sha now uuid random name who oidc d = (d', Inr (k, raw))"
    and "\<forall>r\<in>set (db_api_keys d). ak_KeyHash r \<noteq> hashAPIKey sha raw" and "\<not> flt' K_by_hash"
  shows "\<exists>d'' ses. ValidateKey flt' sha isAdmin now' raw d' = (d'', Inr ses) \<and>
    us_UserID ses = who \<and> us_Username ses = who \<and> us_IsAdmin ses = isAdmin who \<and>
    us_APIKeyID ses = ak_ID k \<and> us_APIKeyHash ses = hashAPIKey sha raw"
proof -
  obtain bs where bs: "raw = ''lk_live_'' @ hex_encode bs" "ak_KeyHash k = hashAPIKey sha raw" "ak_UserID k = who"
    "db_api_keys d' = db_api_keys d @ [k]"
    using APIKey_create_Inr [OF assms(1)] by blast
  have "find (\<lambda>r. ak_KeyHash r = hashAPIKey sha raw) (db_api_keys d') = Some k"
    using assms(2) bs(2,4) by (intro find_unique) auto
  moreover have "trim_space raw = raw" by (simp only: bs(1) secret_trim)
  moreover have "has_prefix raw ''lk_live_''" by (simp only: bs(1) has_prefix_append)
  ultimately show ?thesis using assms(3) bs(3)
    by (simp add: ValidateKey_def Let_def query_row_def empty_session_def)
qed

text \<open>
  A revoked key is dead: once \<open>Delete\<close> succeeds on a key (which only its owner or an
  administrator can do), no token whose digest was that key's validates any more, if no other
  row holds the same digest; and a token that validates always belongs to a row of the table.
\<close>

theorem revoked_key_rejected:
  assumes "distinct (map ak_ID (db_api_keys d))" and "k \<in> set (db_api_keys d)"
    and "\<forall>r\<in>set (db_api_keys d). ak_KeyHash r = ak_KeyHash k \<longrightarrow> r = k"
    and "APIKeyService_Delete flt (ak_ID k) who adm d = (d', None)"
    and "hashAPIKey sha (trim_space token) = ak_KeyHash k"
  shows "(adm \<or> ak_UserID k = who) \<and> (\<exists>e. ValidateKey flt' sha isAdmin now token d' = (d', Inl e))"
proof -
  have d: "db_api_keys d' = delete_rows (\<lambda>r. ak_ID r = ak_ID k) (db_api_keys d)"
    "\<exists>r\<in>set (db_api_keys d). ak_ID r = ak_ID k \<and> (adm \<or> ak_UserID r = who)"
    using api_keys.del_done [OF assms(1,4)] by (auto simp: may_touch_def)
  then have who: "adm \<or> ak_UserID k = who" using distinct_map_inj [OF assms(1,2)] by metis
  have "\<forall>r\<in>set (db_api_keys d'). ak_KeyHash r \<noteq> ak_KeyHash k"
    using assms(3) by (auto simp: d(1) set_delete_rows)
  then have "find (\<lambda>r. ak_KeyHash r = ak_KeyHash k) (db_api_keys d') = None" by (simp add: find_None_iff)
  then have "\<exists>e. ValidateKey flt' sha isAdmin now token d' = (d', Inl e)"
    by (simp add: ValidateKey_def Let_def assms(5) query_row_def)
  with who show ?thesis by blast
qed

definition example_key :: api_key where
  "example_key = \<lparr>ak_ID = ''k1'', ak_UserID = ''ana'', ak_Name = ''ci'', ak_KeyPrefix = ''lk_live_41424344...'',
     ak_KeyHash = hashAPIKey rev (''lk_live_'' @ hex_encode ''ABCDEFGH''), ak_LastUsedAt = None, ak_CreatedAt = 0\<rparr>"

lemma example_key_create:
  "APIKey_create (\<lambda>q. False) rev 0 ''k1'' (Some ''ABCDEFGH'') ''ci'' ''ana'' False empty_db =
    (empty_db\<lparr>db_api_keys := [example_key]\<rparr>, Inr (example_key, ''lk_live_'' @ hex_encode ''ABCDEFGH''))"
proof -
  have "trim_space ''ci'' = ''ci''" by (rule trim_visible) (simp_all add: visible_def byte_def)
  moreover have "take 16 (''lk_live_'' @ hex_encode ''ABCDEFGH'') = ''lk_live_41424344''" by code_simp
  ultimately show ?thesis
    by (simp add: APIKey_create_def Let_def insert_row_def example_key_def unix_def)
qed

theorem new_key_validates_witness:
  "\<exists>d'' ses. ValidateKey (\<lambda>q. False) rev (\<lambda>u. False) 1 (''lk_live_'' @ hex_encode ''ABCDEFGH'')
     (empty_db\<lparr>db_api_keys := [example_key]\<rparr>) = (d'', Inr ses) \<and> us_UserID ses = ''ana''"
  using new_key_validates [OF example_key_create, of "\<lambda>q. False" "\<lambda>u. False" 1] by auto

theorem revoked_key_rejected_witness:
  "\<exists>d' e. APIKeyService_Delete (\<lambda>q. False) ''k1'' ''ana'' False (empty_db\<lparr>db_api_keys := [example_key]\<rparr>) = (d', None) \<and>
     ValidateKey (\<lambda>q. False) rev (\<lambda>u. False) 1 (''lk_live_'' @ hex_encode ''ABCDEFGH'') d' = (d', Inl e)"
proof -
  let ?d = "empty_db\<lparr>db_api_keys := [example_key]\<rparr>"
  obtain d' where d': "APIKeyService_Delete (\<lambda>q. False) (ak_ID example_key) ''ana'' False ?d = (d', None)"
    by (simp add: APIKeyService_Delete_def owned_delete_def may_touch_def delete_rows_def example_key_def)
  have h: "hashAPIKey rev (trim_space (''lk_live_'' @ hex_encode ''ABCDEFGH'')) = ak_KeyHash example_key"
    by (simp only: secret_trim example_key_def api_key.simps)
  from revoked_key_rejected [OF _ _ _ d' h, of "\<lambda>q. False" "\<lambda>u. False" 1] d' show ?thesis
    by (auto simp: example_key_def)
qed

end
