(* ===== verification/Webhook_Service.thy ===== *)
theory Webhook_Service
  imports Owned_Tables Egress Api_Key_Service
begin

text \<open>
  Webhooks, internal/services/webhook_service.go. The resolver, the network and HMAC-SHA256 are
  parameters: \<open>resolveHost\<close> the answers of DNS at the time of the call, \<open>nets\<close> the network at each
  attempt, \<open>mac\<close> the bytes of the code of a body under a secret. \<open>Dispatch\<close> runs in goroutines; here
  it is the list of the requests that leave the program, endpoint by endpoint. A request a client
  would make on its own, to follow a redirect, is recorded as the first one with another address.
\<close>

record webhook_service =
  ws_httpClient :: http_client
  ws_validateTarget :: "string \<Rightarrow> outbound_error + URL"

definition NewWebhookService :: "(string \<Rightarrow> ip list option) \<Rightarrow> webhook_service" where
  "NewWebhookService resolveHost = \<lparr>ws_httpClient = NewOutboundClient (5 * second_ns),
     ws_validateTarget = ValidateOutboundURL resolveHost\<rparr>"

lemma NewWebhookService_simps [simp]:
  "ws_httpClient (NewWebhookService resolveHost) = NewOutboundClient (5 * second_ns)"
  "ws_validateTarget (NewWebhookService resolveHost) = ValidateOutboundURL resolveHost"
  by (simp_all add: NewWebhookService_def)

text \<open>The setter for tests, which no code of the program calls: the scheme alone is looked at.\<close>

definition AllowReservedTargetsForTesting :: "webhook_service \<Rightarrow> webhook_service" where
  "AllowReservedTargetsForTesting s = s\<lparr>ws_validateTarget := (\<lambda>raw.
     case Url_Parse (trim_space raw) of
       None \<Rightarrow> Inl BadOutboundURL
     | Some parsed \<Rightarrow>
         if u_Scheme parsed \<noteq> ''http'' \<and> u_Scheme parsed \<noteq> ''https'' then Inl (SchemeNotAllowed (u_Scheme parsed))
         else Inr parsed)\<rparr>"

datatype webhook_stmt = W_insert | W_list | W_delete | W_dispatch

datatype webhook_error = WE_Target outbound_error | WE_Save | WE_NotFound | WE_Sql

definition WebhookService_Create ::
  "(webhook_stmt \<Rightarrow> bool) \<Rightarrow> webhook_service \<Rightarrow> time \<Rightarrow> string \<Rightarrow> string \<Rightarrow>
   create_webhook_request \<Rightarrow> string \<Rightarrow> db \<Rightarrow> db \<times> (webhook_error + webhook)" where
  "WebhookService_Create flt s now uuid random req username d =
     (case ws_validateTarget s (cw_URL req) of
        Inl e \<Rightarrow> (d, Inl (WE_Target e))
      | Inr parsed \<Rightarrow>
          let url = URL_String parsed;
              secret = trim_space (cw_Secret req);
              secret = (if secret = [] then hex_encode random else secret);
              events = join_with '','' (cw_Events req);
              events = (if events = [] then ''link.created,link.expired,link.self_destructed'' else events);
              wh = \<lparr>wh_ID = uuid, wh_UserID = username, wh_URL = url, wh_Secret = secret, wh_Events = events,
                    wh_IsActive = True, wh_CreatedAt = unix now\<rparr>
          in case (if flt W_insert then None
                   else insert_row wh (\<lambda>rs. distinct (map wh_ID rs)) (db_webhooks d)) of
               None \<Rightarrow> (d, Inl WE_Save)
             | Some rows \<Rightarrow> (d\<lparr>db_webhooks := rows\<rparr>, Inr wh))"

definition WebhookService_List ::
  "(webhook_stmt \<Rightarrow> bool) \<Rightarrow> string \<Rightarrow> bool \<Rightarrow> db \<Rightarrow> webhook_error + webhook list" where
  "WebhookService_List flt username isAdmin d =
     (if flt W_list then Inl WE_Sql
      else Inr (order_desc wh_CreatedAt (owned_list wh_UserID username isAdmin (db_webhooks d))))"

definition WebhookService_Delete ::
  "(webhook_stmt \<Rightarrow> bool) \<Rightarrow> string \<Rightarrow> string \<Rightarrow> bool \<Rightarrow> db \<Rightarrow> db \<times> webhook_error option" where
  "WebhookService_Delete flt i username isAdmin d =
     (if flt W_delete then (d, Some WE_Sql)
      else case owned_delete wh_ID wh_UserID i username isAdmin (db_webhooks d) of
        None \<Rightarrow> (d, Some WE_NotFound)
      | Some rows \<Rightarrow> (d\<lparr>db_webhooks := rows\<rparr>, None))"

interpretation webhooks: owned_table db_webhooks wh_ID wh_UserID "\<lambda>x. x"
    WebhookService_List WebhookService_Delete
  by unfold_locales
    (auto simp: WebhookService_Delete_def WebhookService_List_def order_desc_mset
      split: if_splits option.splits dest: owned_delete_Some)

section \<open>Delivery\<close>

definition isSubscribedToEvent :: "string \<Rightarrow> string \<Rightarrow> bool" where
  "isSubscribedToEvent subscribedEvents event =
     (if subscribedEvents = [] \<or> subscribedEvents = ''*'' then True
      else list_ex (\<lambda>e. trim_space e = event \<or> trim_space e = ''*'') (split_on CHR '','' subscribedEvents))"

definition computeHMACSHA256 :: "(string \<Rightarrow> string \<Rightarrow> string) \<Rightarrow> string \<Rightarrow> string \<Rightarrow> string" where
  "computeHMACSHA256 mac message secret = hex_encode (mac secret message)"

record http_post =
  hp_url :: string
  hp_content_type :: string
  hp_user_agent :: string
  hp_event :: string
  hp_signature :: string
  hp_body :: string

definition success :: "int option \<Rightarrow> bool" where
  "success status = (case status of None \<Rightarrow> False | Some s \<Rightarrow> 200 \<le> s \<and> s < 300)"

text \<open>The loop of attempts: the attempts made, up to and including the first success.\<close>

fun attempts_from :: "(nat \<Rightarrow> int option) \<Rightarrow> nat \<Rightarrow> nat \<Rightarrow> nat list" where
  "attempts_from send attempt 0 = []"
| "attempts_from send attempt (Suc left) =
     attempt # (if success (send attempt) then [] else attempts_from send (Suc attempt) left)"

text \<open>
  What the client makes of one attempt, and the time the whole delivery takes: the check of the
  address, which is that of its DNS lookup (\<open>lookup host\<close>; a literal address needs none), and then the
  calls and the pause after each that failed. The lookup is \<open>net.LookupIP\<close>, which has no deadline of
  this program's.
\<close>

definition check_time :: "(string \<Rightarrow> int) \<Rightarrow> string \<Rightarrow> int" where
  "check_time lookup raw =
     (case Url_Parse (trim_space raw) of
        None \<Rightarrow> 0
      | Some parsed \<Rightarrow>
          let host = URL_Hostname parsed in
          if to_lower (u_Scheme parsed) \<notin> {''http'', ''https''} \<or> host = [] \<or> equal_fold host ''localhost'' \<or> ParseIP host \<noteq> None
          then 0 else lookup host)"

definition attempt_status :: "webhook_service \<Rightarrow> (nat \<Rightarrow> network) \<Rightarrow> string \<Rightarrow> nat \<Rightarrow> int option" where
  "attempt_status s nets targetURL attempt = fst (snd (client_Do (ws_httpClient s) (nets attempt) targetURL))"

definition attempts_made :: "webhook_service \<Rightarrow> (nat \<Rightarrow> network) \<Rightarrow> string \<Rightarrow> nat list" where
  "attempts_made s nets targetURL = attempts_from (attempt_status s nets targetURL) 1 3"

definition delivery_time :: "webhook_service \<Rightarrow> (string \<Rightarrow> int) \<Rightarrow> (nat \<Rightarrow> network) \<Rightarrow> string \<Rightarrow> int" where
  "delivery_time s lookup nets targetURL =
     check_time lookup targetURL +
     (case ws_validateTarget s targetURL of
        Inl _ \<Rightarrow> 0
      | Inr _ \<Rightarrow>
          (\<Sum>attempt\<leftarrow>attempts_made s nets targetURL. snd (snd (client_Do (ws_httpClient s) (nets attempt) targetURL)) +
             (if success (attempt_status s nets targetURL attempt) then 0
              else int (attempt * attempt) * (500 * millisecond_ns))))"

definition deliverWebhook ::
  "webhook_service \<Rightarrow> (string \<Rightarrow> string \<Rightarrow> string) \<Rightarrow> (nat \<Rightarrow> network) \<Rightarrow>
   string \<Rightarrow> string \<Rightarrow> string \<Rightarrow> string \<Rightarrow> http_post list" where
  "deliverWebhook s mac nets targetURL secret event body =
     (case ws_validateTarget s targetURL of
        Inl _ \<Rightarrow> []
      | Inr _ \<Rightarrow>
          (case Url_Parse targetURL of
             None \<Rightarrow> []
           | Some _ \<Rightarrow>
               map (\<lambda>url. \<lparr>hp_url = url, hp_content_type = ''application/json'',
                     hp_user_agent = ''LinkUp-Webhook/2.0'', hp_event = event,
                     hp_signature = ''sha256='' @ computeHMACSHA256 mac body secret, hp_body = body\<rparr>)
                 (concat (map (\<lambda>attempt. fst (client_Do (ws_httpClient s) (nets attempt) targetURL))
                   (attempts_made s nets targetURL)))))"

definition dispatch_rows :: "(webhook_stmt \<Rightarrow> bool) \<Rightarrow> string \<Rightarrow> string \<Rightarrow> db \<Rightarrow> webhook list" where
  "dispatch_rows flt event userID d =
     (if flt W_dispatch then []
      else filter (\<lambda>w. isSubscribedToEvent (wh_Events w) event)
        (filter (\<lambda>w. wh_IsActive w \<and> (wh_UserID w = userID \<or> wh_UserID w = ''global'')) (db_webhooks d)))"

text \<open>\<open>answers\<close> gives, for each endpoint, the network at each attempt.\<close>

definition Dispatch ::
  "(webhook_stmt \<Rightarrow> bool) \<Rightarrow> webhook_service \<Rightarrow> (string \<Rightarrow> string \<Rightarrow> string) \<Rightarrow>
   (webhook \<Rightarrow> nat \<Rightarrow> network) \<Rightarrow> string \<Rightarrow> string \<Rightarrow> string \<Rightarrow> db \<Rightarrow> (webhook \<times> http_post list) list" where
  "Dispatch flt s mac answers event body userID d =
     map (\<lambda>w. (w, deliverWebhook s mac (answers w) (wh_URL w) (wh_Secret w) event body))
       (dispatch_rows flt event userID d)"

lemma attempts_bounds: "length (attempts_from send a n) \<le> n \<and>
    (\<forall>k\<in>set (attempts_from send a n). a \<le> k \<and> k < a + n)"
  by (induction n arbitrary: a) force+

lemma attempts_last: "k \<in> set (butlast (attempts_from send a n)) \<Longrightarrow> \<not> success (send k)"
  by (induction n arbitrary: a) (auto split: if_splits)

lemma concat_one: "\<forall>a\<in>set as. f a = [x] \<Longrightarrow> concat (map f as) = replicate (length as) x"
  by (induction as) auto

text \<open>The hardened client sends one request for an attempt, to the address that was checked.\<close>

lemma deliver_urls:
  "concat (map (\<lambda>attempt. fst (client_Do (NewOutboundClient t) (nets attempt) url)) as) = replicate (length as) url"
  by (intro concat_one) (simp add: client_Do_last)

lemma deliver_sent:
  "p \<in> set (deliverWebhook (NewWebhookService resolveHost) mac nets url secret event body) \<Longrightarrow>
   (\<exists>u. ValidateOutboundURL resolveHost url = Inr u) \<and> hp_url p = url \<and> hp_event p = event \<and> hp_body p = body \<and>
   hp_signature p = ''sha256='' @ computeHMACSHA256 mac body secret"
  by (cases "ValidateOutboundURL resolveHost url") (auto simp: deliverWebhook_def deliver_urls split: option.splits)

lemma deliver_length:
  assumes "ValidateOutboundURL resolveHost url = Inr u" and "Url_Parse url \<noteq> None"
  shows "length (deliverWebhook (NewWebhookService resolveHost) mac nets url secret event body) =
    length (attempts_made (NewWebhookService resolveHost) nets url)"
  using assms by (auto simp: deliverWebhook_def deliver_urls)

section \<open>Properties\<close>

text \<open>
  Claim C22. What leaves the program: every request \<open>Dispatch\<close> sends goes to an active endpoint of
  the user (or a global one) that subscribed to the event, whose URL passes the outbound check
  with the addresses DNS gives at that moment, carries the signature of the body under that
  endpoint's own secret, and there are at most three per endpoint. Whatever the endpoint answers,
  redirections to other addresses included, no other request is made.
\<close>

theorem Dispatch_only_validated:
  assumes "(w, posts) \<in> set (Dispatch flt (NewWebhookService resolveHost) mac answers event body userID d)"
    and "p \<in> set posts"
  shows "w \<in> set (db_webhooks d) \<and> wh_IsActive w \<and> wh_UserID w \<in> {userID, ''global''} \<and>
    isSubscribedToEvent (wh_Events w) event \<and> hp_url p = wh_URL w \<and> hp_event p = event \<and>
    (\<exists>u. ValidateOutboundURL resolveHost (hp_url p) = Inr u) \<and>
    hp_signature p = ''sha256='' @ computeHMACSHA256 mac (hp_body p) (wh_Secret w) \<and> length posts \<le> 3"
proof -
  let ?s = "NewWebhookService resolveHost"
  have w: "w \<in> set (dispatch_rows flt event userID d)"
    and posts: "posts = deliverWebhook ?s mac (answers w) (wh_URL w) (wh_Secret w) event body"
    using assms(1) by (auto simp: Dispatch_def)
  have "length posts \<le> 3"
    using attempts_bounds [of "attempt_status ?s (answers w) (wh_URL w)" 1 3]
    by (auto simp: posts deliverWebhook_def deliver_urls attempts_made_def split: sum.splits option.splits)
  then show ?thesis using w deliver_sent [OF assms(2) [unfolded posts]]
    by (auto simp: dispatch_rows_def split: if_splits)
qed

lemma call_time:
  "snd (snd (client_Do (ws_httpClient (NewWebhookService resolveHost)) net url)) \<le> 5 * second_ns"
  using client_Do_time [of "NewOutboundClient (5 * second_ns)" net url] by (simp add: second_ns_def)

text \<open>
  Claim C34. The retry loop: an endpoint that passes the check is tried until its first success
  and no further, and three times when it never succeeds; every attempt but the last one failed.
  However slow the endpoint, the goroutine of a delivery is done within 22 seconds, pauses included,
  from the moment its address has been checked. The check itself takes no time for a literal
  address and that of one DNS lookup for a name, which the program does not bound.
\<close>

theorem deliver_retries:
  assumes "ValidateOutboundURL resolveHost url = Inr u" and "Url_Parse url \<noteq> None"
    and "s = NewWebhookService resolveHost"
  shows "(\<exists>n. 1 \<le> n \<and> n \<le> 3 \<and> length (deliverWebhook s mac nets url secret event body) = n \<and>
    (\<forall>k. 1 \<le> k \<and> k < n \<longrightarrow> \<not> success (attempt_status s nets url k)) \<and>
    (n < 3 \<longrightarrow> success (attempt_status s nets url n))) \<and>
    delivery_time s lookup nets url \<le> (if ParseIP (URL_Hostname u) = None then lookup (URL_Hostname u) else 0) + 22 * second_ns"
proof
  let ?ok = "\<lambda>k. success (attempt_status s nets url k)"
  have len: "length (deliverWebhook s mac nets url secret event body) = length (attempts_made s nets url)"
    using deliver_length [OF assms(1,2)] by (simp add: assms(3))
  show "\<exists>n. 1 \<le> n \<and> n \<le> 3 \<and> length (deliverWebhook s mac nets url secret event body) = n \<and>
      (\<forall>k. 1 \<le> k \<and> k < n \<longrightarrow> \<not> ?ok k) \<and> (n < 3 \<longrightarrow> ?ok n)"
    unfolding len attempts_made_def
    by (cases "?ok 1"; cases "?ok 2") (auto simp: numeral_3_eq_3 numeral_2_eq_2 less_Suc_eq_le le_Suc_eq)
  have t: "snd (snd (client_Do (ws_httpClient s) (nets k) url)) \<le> 5 * second_ns" for k
    by (simp only: assms(3) call_time)
  have "check_time lookup url = (if ParseIP (URL_Hostname u) = None then lookup (URL_Hostname u) else 0)"
    using assms(1) by (auto simp: ValidateOutboundURL_def check_time_def Let_def split: if_splits option.splits)
  then show "delivery_time s lookup nets url \<le> (if ParseIP (URL_Hostname u) = None then lookup (URL_Hostname u) else 0) + 22 * second_ns"
    using t [of 1] t [of 2] t [of 3] assms(1) unfolding delivery_time_def attempts_made_def assms(3) NewWebhookService_simps
    by (cases "?ok 1"; cases "?ok 2"; cases "?ok 3")
      (simp_all add: numeral_3_eq_3 numeral_2_eq_2 second_ns_def millisecond_ns_def)
qed

text \<open>
  A webhook is stored only when its URL passed the outbound check; what is stored is
  the URL as that check understood it, owned by the caller and active, with a secret of its own
  when the request gives none; a refused one changes nothing.
\<close>

theorem Webhook_Create_validated:
  assumes "WebhookService_Create flt (NewWebhookService resolveHost) now uuid random req who d = (d', res)"
  shows "(case res of
      Inl e \<Rightarrow> d' = d
    | Inr w \<Rightarrow> db_webhooks d' = db_webhooks d @ [w] \<and> wh_UserID w = who \<and> wh_IsActive w \<and> wh_Events w \<noteq> [] \<and>
        (random \<noteq> [] \<longrightarrow> wh_Secret w \<noteq> []) \<and>
        (\<exists>u. ValidateOutboundURL resolveHost (cw_URL req) = Inr u \<and> wh_URL w = URL_String u))"
  using assms
  by (auto simp: WebhookService_Create_def Let_def insert_row_Some hex_encode_def
      split: sum.splits option.splits if_splits)

definition example_webhook :: webhook where
  "example_webhook = \<lparr>wh_ID = ''w1'', wh_UserID = ''ana'', wh_URL = ''http://e.com'', wh_Secret = ''s'',
     wh_Events = ''link.created,link.deleted'', wh_IsActive = True, wh_CreatedAt = 0\<rparr>"

abbreviation example_resolver :: "string \<Rightarrow> ip list option" where
  "example_resolver \<equiv> (\<lambda>h. Some [[93, 184, 216, 34]])"

lemma example_parse: "Url_Parse ''http://e.com'' \<noteq> None"
proof -
  have "Url_Parse ''http://e.com'' = Some plain_url" by code_simp
  then show ?thesis by simp
qed

text \<open>An endpoint that redirects to a private address, and then answers.\<close>

definition example_nets :: "nat \<Rightarrow> network" where
  "example_nets attempt k url =
     (second_ns, Some (if attempt = 2 then (204, No_Location) else (302, To ''http://127.0.0.1/'')))"

lemma example_status: "attempt_status (NewWebhookService r) example_nets url k = Some (if k = 2 then 204 else 302)"
  by (simp add: attempt_status_def client_Do_def client_run.simps example_nets_def Let_def out_of_time_def
      second_ns_def redirect_status_def)

theorem deliver_retries_witness:
  "length (deliverWebhook (NewWebhookService example_resolver) (@) example_nets ''http://e.com'' ''s'' ''e'' ''b'') = 2"
  using deliver_retries [OF validate_example example_parse refl, THEN conjunct1, of "(@)" example_nets "''s''" "''e''" "''b''"]
  by (auto simp: example_status success_def le_Suc_eq numeral_3_eq_3 numeral_2_eq_2 split: if_splits)

lemma example_subscribed: "isSubscribedToEvent ''link.created,link.deleted'' ''link.created''"
proof -
  have "trim_space ''link.created'' = ''link.created''"
    by (rule trim_visible) (simp_all add: visible_def byte_def)
  then show ?thesis by (simp add: isSubscribedToEvent_def)
qed

lemma example_dispatch:
  "Dispatch (\<lambda>q. False) (NewWebhookService example_resolver) (@) (\<lambda>w k. example_nets 2) ''link.created'' ''body'' ''ana''
     (empty_db\<lparr>db_webhooks := [example_webhook]\<rparr>) =
   [(example_webhook, [\<lparr>hp_url = ''http://e.com'', hp_content_type = ''application/json'',
       hp_user_agent = ''LinkUp-Webhook/2.0'', hp_event = ''link.created'',
       hp_signature = ''sha256='' @ computeHMACSHA256 (@) ''body'' ''s'', hp_body = ''body''\<rparr>])]"
proof -
  have "client_Do (NewOutboundClient (5 * second_ns)) (example_nets 2) ''http://e.com'' = ([''http://e.com''], Some 204, second_ns)"
    by (simp add: client_Do_def client_run.simps example_nets_def Let_def out_of_time_def second_ns_def redirect_status_def)
  then show ?thesis using example_parse
    by (auto simp: Dispatch_def dispatch_rows_def example_webhook_def example_subscribed deliverWebhook_def
        validate_example numeral_3_eq_3 success_def attempts_made_def attempt_status_def)
qed

theorem Dispatch_only_validated_witness:
  "\<exists>u. ValidateOutboundURL example_resolver ''http://e.com'' = Inr u"
  using Dispatch_only_validated [of example_webhook _ "\<lambda>q. False" example_resolver "(@)" "\<lambda>w k. example_nets 2"
      "''link.created''" "''body''" "''ana''" "empty_db\<lparr>db_webhooks := [example_webhook]\<rparr>"]
  unfolding example_dispatch by auto

lemma example_webhook_create:
  "WebhookService_Create (\<lambda>q. False) (NewWebhookService example_resolver) 0 ''w1'' ''r''
     \<lparr>cw_URL = ''http://e.com'', cw_Secret = ''s'', cw_Events = [''link.created'', ''link.deleted'']\<rparr> ''ana'' empty_db =
   (empty_db\<lparr>db_webhooks := [example_webhook]\<rparr>, Inr example_webhook)"
proof -
  have "trim_space ''s'' = ''s''" by (rule trim_visible) (simp_all add: visible_def byte_def)
  moreover have "URL_String plain_url = ''http://e.com''" by code_simp
  ultimately show ?thesis
    by (simp add: WebhookService_Create_def validate_example Let_def insert_row_def example_webhook_def unix_def)
qed

theorem Webhook_Create_validated_witness: "wh_UserID example_webhook = ''ana'' \<and> wh_Secret example_webhook \<noteq> []"
  using Webhook_Create_validated [OF example_webhook_create] by simp

end
