(* ===== verification/Router_Engine.thy ===== *)
theory Router_Engine
  imports Models
begin

text \<open>
  Conditional routing, internal/services/router_engine.go. A request is its \<open>User-Agent\<close> and
  \<open>Accept-Language\<close> headers (empty when absent). \<open>draw\<close> is what \<open>crypto/rand\<close> returns for a
  range: \<open>Some v\<close> stands for the number \<open>v\<close> modulo the size of the range, \<open>None\<close> for an error of
  the random source. In the branch without weights the code ignores that error and then
  dereferences a nil pointer; the result \<open>None\<close> of \<open>EvaluateABTest\<close> is that panic.
\<close>

record visit_headers =
  vh_UserAgent :: string
  vh_AcceptLanguage :: string

definition EvaluateDevice :: "string \<Rightarrow> link \<Rightarrow> string \<times> bool" where
  "EvaluateDevice userAgent l =
     (let ua = to_lower userAgent in
      if (contains ua ''iphone'' \<or> contains ua ''ipad'' \<or> contains ua ''ipod'') \<and> l_IOSURL l \<noteq> []
      then (l_IOSURL l, True)
      else if contains ua ''android'' \<and> l_AndroidURL l \<noteq> [] then (l_AndroidURL l, True)
      else ([], False))"

definition locale_rule :: "locale_map \<Rightarrow> string \<Rightarrow> string option" where
  "locale_rule m tag = (case map_of m tag of Some u \<Rightarrow> if u \<noteq> [] then Some u else None | None \<Rightarrow> None)"

fun locale_from :: "locale_map \<Rightarrow> string list \<Rightarrow> string \<times> bool" where
  "locale_from m [] = ([], False)"
| "locale_from m (part # parts) =
     (let tag = trim_space (before_char CHR '';'' part) in
      if tag = [] then locale_from m parts
      else let tagLower = to_lower tag in
        (case locale_rule m tagLower of
           Some u \<Rightarrow> (u, True)
         | None \<Rightarrow>
             (case locale_rule m (before_char CHR ''-'' tagLower) of
                Some u \<Rightarrow> (u, True)
              | None \<Rightarrow> locale_from m parts)))"

definition EvaluateLocale :: "string \<Rightarrow> link \<Rightarrow> string \<times> bool" where
  "EvaluateLocale acceptLanguage l =
     (if l_LocaleRouting l = [] \<or> acceptLanguage = [] then ([], False)
      else locale_from (l_LocaleRouting l) (split_on CHR '','' acceptLanguage))"

definition total_weight :: "ab_variant list \<Rightarrow> int" where
  "total_weight vs = foldl (\<lambda>t v. if av_Weight v > 0 then wrap64 (t + av_Weight v) else t) 0 vs"

fun pick_variant :: "int \<Rightarrow> int \<Rightarrow> ab_variant list \<Rightarrow> ab_variant option" where
  "pick_variant randVal current [] = None"
| "pick_variant randVal current (v # vs) =
     (let current = wrap64 (current + av_Weight v) in
      if randVal < current then Some v else pick_variant randVal current vs)"

definition EvaluateABTest :: "nat option \<Rightarrow> link \<Rightarrow> (string \<times> string \<times> bool) option" where
  "EvaluateABTest draw l =
     (let vs = l_ABVariants l; total = total_weight vs; found = (\<lambda>v. Some (av_Name v, av_TargetURL v, True)) in
      if vs = [] then Some ([], [], False)
      else if total \<le> 0 then
        (case draw of None \<Rightarrow> None | Some n \<Rightarrow> found (vs ! (n mod length vs)))
      else (case draw of
              None \<Rightarrow> found (hd vs)
            | Some n \<Rightarrow>
                (case pick_variant (int n mod total) 0 vs of
                   Some v \<Rightarrow> found v
                 | None \<Rightarrow> found (last vs))))"

definition after_ab :: "visit_headers \<Rightarrow> link \<Rightarrow> string \<times> string" where
  "after_ab r l =
     (let (deviceURL, device) = (if vh_UserAgent r \<noteq> [] then EvaluateDevice (vh_UserAgent r) l else ([], False)) in
      if device \<and> deviceURL \<noteq> [] then (deviceURL, [])
      else let (localeURL, loc) = (if vh_AcceptLanguage r \<noteq> [] \<and> l_LocaleRouting l \<noteq> []
                                    then EvaluateLocale (vh_AcceptLanguage r) l else ([], False)) in
        if loc \<and> localeURL \<noteq> [] then (localeURL, []) else (l_TargetURL l, []))"

definition ResolveDestination :: "nat option \<Rightarrow> visit_headers \<Rightarrow> link \<Rightarrow> (string \<times> string) option" where
  "ResolveDestination draw r l =
     (if l_ABVariants l \<noteq> [] then
        (case EvaluateABTest draw l of
           None \<Rightarrow> None
         | Some (varName, abURL, ok) \<Rightarrow> if ok \<and> abURL \<noteq> [] then Some (abURL, varName) else Some (after_ab r l))
      else Some (after_ab r l))"

section \<open>Weights\<close>

definition weights_ok :: "ab_variant list \<Rightarrow> bool" where
  "weights_ok vs \<longleftrightarrow> (\<forall>v\<in>set vs. 0 \<le> av_Weight v) \<and> 0 < (\<Sum>v\<leftarrow>vs. av_Weight v) \<and> (\<Sum>v\<leftarrow>vs. av_Weight v) < 2 ^ 63"

lemma sum_weights_nonneg: "\<forall>v\<in>set vs. 0 \<le> av_Weight v \<Longrightarrow> 0 \<le> (\<Sum>v\<leftarrow>vs. av_Weight v)"
  by (induction vs) auto

lemma total_weight_from:
  "\<forall>v\<in>set vs. 0 \<le> av_Weight v \<Longrightarrow> 0 \<le> t \<Longrightarrow> t + (\<Sum>v\<leftarrow>vs. av_Weight v) < 2 ^ 63 \<Longrightarrow>
   foldl (\<lambda>t v. if av_Weight v > 0 then wrap64 (t + av_Weight v) else t) t vs = t + (\<Sum>v\<leftarrow>vs. av_Weight v)"
proof (induction vs arbitrary: t)
  case (Cons v vs)
  have "0 \<le> (\<Sum>v\<leftarrow>vs. av_Weight v)" using Cons.prems(1) by (intro sum_weights_nonneg) auto
  then have w: "wrap64 (t + av_Weight v) = t + av_Weight v" using Cons.prems by (intro wrap64_id) auto
  show ?case using Cons.IH [of "t + av_Weight v"] Cons.IH [of t] Cons.prems w by (cases "av_Weight v = 0") auto
qed simp

lemma total_weight_sum: "weights_ok vs \<Longrightarrow> total_weight vs = (\<Sum>v\<leftarrow>vs. av_Weight v)"
  using total_weight_from [of vs 0] by (simp add: total_weight_def weights_ok_def)

text \<open>Where the interval of a variant starts: the sum of the weights before it.\<close>

lemma pick_variant_nth:
  "\<forall>v\<in>set vs. 0 \<le> av_Weight v \<Longrightarrow> 0 \<le> c \<Longrightarrow> c + (\<Sum>v\<leftarrow>vs. av_Weight v) < 2 ^ 63 \<Longrightarrow> c \<le> r \<Longrightarrow>
   r < c + (\<Sum>v\<leftarrow>vs. av_Weight v) \<Longrightarrow>
   \<exists>i<length vs. pick_variant r c vs = Some (vs ! i) \<and> c + (\<Sum>v\<leftarrow>take i vs. av_Weight v) \<le> r \<and>
     r < c + (\<Sum>v\<leftarrow>take (Suc i) vs. av_Weight v)"
proof (induction vs arbitrary: c)
  case (Cons v vs)
  have "0 \<le> (\<Sum>v\<leftarrow>vs. av_Weight v)" using Cons.prems(1) by (intro sum_weights_nonneg) auto
  then have w: "wrap64 (c + av_Weight v) = c + av_Weight v" using Cons.prems by (intro wrap64_id) auto
  show ?case
  proof (cases "r < c + av_Weight v")
    case True
    then show ?thesis using Cons.prems w by (intro exI [of _ 0]) simp
  next
    case False
    then obtain i where "i < length vs" "pick_variant r (c + av_Weight v) vs = Some (vs ! i)"
      "c + av_Weight v + (\<Sum>v\<leftarrow>take i vs. av_Weight v) \<le> r"
      "r < c + av_Weight v + (\<Sum>v\<leftarrow>take (Suc i) vs. av_Weight v)"
      using Cons.IH [of "c + av_Weight v"] Cons.prems by auto
    then show ?thesis using False w by (intro exI [of _ "Suc i"]) (simp add: add.assoc)
  qed
qed simp

lemma take_sum_mono: "\<forall>v\<in>set vs. 0 \<le> av_Weight v \<Longrightarrow> i \<le> j \<Longrightarrow>
  (\<Sum>v\<leftarrow>take i vs. av_Weight v) \<le> (\<Sum>v\<leftarrow>take j vs. av_Weight v)"
proof (induction vs arbitrary: i j)
  case (Cons v vs)
  show ?case
  proof (cases i)
    case 0
    have "0 \<le> (\<Sum>v\<leftarrow>take j (v # vs). av_Weight v)"
      using Cons.prems(1) set_take_subset by (intro sum_weights_nonneg) fastforce
    with 0 show ?thesis by simp
  next
    case (Suc k)
    then obtain j' where "j = Suc j'" using Cons.prems(2) by (cases j) auto
    with Suc Cons show ?thesis by simp
  qed
qed simp

text \<open>
  Claim C23. A/B tests split the traffic in proportion to the weights: for weights that are not
  negative, whose sum is positive and fits in 64 bits, and variants with different names,
  exactly \<open>w\<close> of the equally likely draws select a variant of weight \<open>w\<close>.
\<close>

theorem ab_split_proportional:
  assumes "weights_ok (l_ABVariants l)" and "distinct (map av_Name (l_ABVariants l))"
    and "i < length (l_ABVariants l)"
  shows "card {n. n < nat (total_weight (l_ABVariants l)) \<and>
      (\<exists>u. EvaluateABTest (Some n) l = Some (av_Name (l_ABVariants l ! i), u, True))} =
    nat (av_Weight (l_ABVariants l ! i))"
proof -
  let ?vs = "l_ABVariants l" and ?S = "\<lambda>k. \<Sum>v\<leftarrow>take k (l_ABVariants l). av_Weight v"
  let ?T = "\<Sum>v\<leftarrow>?vs. av_Weight v"
  have nn: "\<forall>v\<in>set ?vs. 0 \<le> av_Weight v" and T: "0 < ?T" "?T < 2 ^ 63" using assms(1) by (auto simp: weights_ok_def)
  have tw: "total_weight ?vs = ?T" using assms(1) by (rule total_weight_sum)
  have ne: "?vs \<noteq> []" using assms(3) by auto
  have pick: "\<exists>k<length ?vs. EvaluateABTest (Some n) l = Some (av_Name (?vs ! k), av_TargetURL (?vs ! k), True) \<and>
      ?S k \<le> int n \<and> int n < ?S (Suc k)" if "int n < ?T" for n
    using pick_variant_nth [OF nn, of 0 "int n"] that T ne
    by (auto simp: EvaluateABTest_def Let_def tw)
  have iff: "(\<exists>u. EvaluateABTest (Some n) l = Some (av_Name (?vs ! i), u, True)) \<longleftrightarrow> ?S i \<le> int n \<and> int n < ?S (Suc i)"
    if n: "int n < ?T" for n
  proof -
    obtain k where k: "k < length ?vs" "EvaluateABTest (Some n) l = Some (av_Name (?vs ! k), av_TargetURL (?vs ! k), True)"
      "?S k \<le> int n" "int n < ?S (Suc k)" using pick [OF n] by blast
    have "av_Name (?vs ! k) = av_Name (?vs ! i) \<longleftrightarrow> k = i"
      using assms(2,3) k(1) by (metis distinct_conv_nth length_map nth_map)
    moreover have "k = i" if "?S i \<le> int n" "int n < ?S (Suc i)"
      using that k(3,4) take_sum_mono [OF nn, of "Suc k" i] take_sum_mono [OF nn, of "Suc i" k]
      by (cases "k < i"; cases "i < k") auto
    ultimately show ?thesis using k by auto
  qed
  have le: "?S (Suc i) \<le> ?T" using take_sum_mono [OF nn, of "Suc i" "length ?vs"] assms(3) by simp
  have "n < nat ?T \<and> (\<exists>u. EvaluateABTest (Some n) l = Some (av_Name (?vs ! i), u, True)) \<longleftrightarrow>
      nat (?S i) \<le> n \<and> n < nat (?S (Suc i))" for n
  proof (cases "int n < ?T")
    case True
    then show ?thesis using iff [OF True] by (simp only: zless_nat_eq_int_zless nat_le_iff simp_thms)
  next
    case False
    then show ?thesis using le by (simp add: zless_nat_eq_int_zless)
  qed
  then have eq: "{n. n < nat (total_weight ?vs) \<and>
      (\<exists>u. EvaluateABTest (Some n) l = Some (av_Name (?vs ! i), u, True))} = {nat (?S i)..<nat (?S (Suc i))}"
    by (simp only: tw set_eq_iff mem_Collect_eq atLeastLessThan_iff) simp
  have "?S (Suc i) = ?S i + av_Weight (?vs ! i)" using assms(3) by (simp add: take_Suc_conv_app_nth)
  then show ?thesis using take_sum_mono [OF nn, of 0 i] nn assms(3) by (simp add: eq nat_add_distrib)
qed

definition ab_example :: link where
  "ab_example = zero_link\<lparr>l_TargetURL := ''https://e.com/'', l_ABVariants :=
     [\<lparr>av_Name = ''A'', av_TargetURL = ''https://a.com/'', av_Weight = 3, av_ClickCount = 0\<rparr>,
      \<lparr>av_Name = ''B'', av_TargetURL = ''https://b.com/'', av_Weight = 1, av_ClickCount = 0\<rparr>]\<rparr>"

theorem ab_split_proportional_witness:
  "card {n. n < nat (total_weight (l_ABVariants ab_example)) \<and>
     (\<exists>u. EvaluateABTest (Some n) ab_example = Some (''A'', u, True))} = 3"
  using ab_split_proportional [of ab_example 0] by (simp add: ab_example_def weights_ok_def)

text \<open>
  Where a visitor can be sent: whatever the headers and the draw, the destination is one
  the link's owner configured (its target, one of its device or locale URLs, or the URL of one
  of its variants), a click is attributed only to a variant of the link whose own URL was
  served, and a link without variants never makes the routing panic.
\<close>

definition owner_urls :: "link \<Rightarrow> string set" where
  "owner_urls l = {l_TargetURL l, l_IOSURL l, l_AndroidURL l} \<union> snd ` set (l_LocaleRouting l) \<union>
     av_TargetURL ` set (l_ABVariants l)"

lemma locale_rule_in: "locale_rule m t = Some u \<Longrightarrow> u \<in> snd ` set m"
  by (auto simp: locale_rule_def split: option.splits if_splits dest!: map_of_SomeD) (force)

lemma locale_from_in: "locale_from m ps = (u, True) \<Longrightarrow> u \<in> snd ` set m"
  by (induction m ps rule: locale_from.induct)
    (auto simp: Let_def locale_rule_in split: if_splits option.splits)

lemma after_ab_in: "fst (after_ab r l) \<in> owner_urls l \<and> snd (after_ab r l) = []"
  using locale_from_in [of "l_LocaleRouting l" "split_on CHR '','' (vh_AcceptLanguage r)"]
  by (auto simp: after_ab_def EvaluateDevice_def EvaluateLocale_def owner_urls_def Let_def
      split: if_splits prod.splits)

lemma pick_variant_in: "pick_variant r c vs = Some v \<Longrightarrow> v \<in> set vs"
  by (induction vs arbitrary: c) (auto simp: Let_def split: if_splits)

lemma EvaluateABTest_in:
  assumes "EvaluateABTest draw l = Some (n, u, True)"
  shows "\<exists>v\<in>set (l_ABVariants l). n = av_Name v \<and> u = av_TargetURL v"
proof -
  let ?vs = "l_ABVariants l"
  have ne: "?vs \<noteq> []" using assms by (auto simp: EvaluateABTest_def Let_def split: if_splits)
  then have "hd ?vs \<in> set ?vs" "last ?vs \<in> set ?vs" "\<And>k. ?vs ! (k mod length ?vs) \<in> set ?vs" by auto
  then show ?thesis using assms pick_variant_in [of _ 0 ?vs]
    by (auto simp: EvaluateABTest_def Let_def split: if_splits option.splits)
qed

theorem ResolveDestination_owner_urls:
  "(case ResolveDestination draw r l of
      None \<Rightarrow> draw = None \<and> l_ABVariants l \<noteq> []
    | Some (u, n) \<Rightarrow> u \<in> owner_urls l \<and>
        (n \<noteq> [] \<longrightarrow> (\<exists>v\<in>set (l_ABVariants l). n = av_Name v \<and> u = av_TargetURL v)))"
proof (cases "l_ABVariants l = []")
  case True
  then show ?thesis using after_ab_in [of r l] by (auto simp: ResolveDestination_def split: prod.splits)
next
  case False
  show ?thesis
  proof (cases "EvaluateABTest draw l")
    case None
    then show ?thesis using False
      by (auto simp: ResolveDestination_def EvaluateABTest_def Let_def split: if_splits option.splits)
  next
    case (Some p)
    obtain n u ok where p: "p = (n, u, ok)" by (cases p)
    show ?thesis
    proof (cases "ok \<and> u \<noteq> []")
      case True
      then show ?thesis using False Some p EvaluateABTest_in [of draw l n u]
        by (auto simp: ResolveDestination_def owner_urls_def)
    next
      case no: False
      then show ?thesis using False Some p after_ab_in [of r l]
        by (auto simp: ResolveDestination_def split: prod.splits)
    qed
  qed
qed

theorem ResolveDestination_owner_urls_witness:
  "\<exists>u n. ResolveDestination (Some 3) \<lparr>vh_UserAgent = [], vh_AcceptLanguage = []\<rparr> ab_example = Some (u, n) \<and>
     u = ''https://b.com/'' \<and> u \<in> owner_urls ab_example"
proof -
  have "ResolveDestination (Some 3) \<lparr>vh_UserAgent = [], vh_AcceptLanguage = []\<rparr> ab_example =
      Some (''https://b.com/'', ''B'')" by code_simp
  then show ?thesis
    using ResolveDestination_owner_urls [where draw = "Some 3" and l = ab_example
        and r = "\<lparr>vh_UserAgent = [], vh_AcceptLanguage = []\<rparr>"]
    by simp
qed

end
