(* ===== verification/Config.thy ===== *)
theory Config
  imports Prelude
begin

text \<open>
  Configuration, internal/config/config.go. The environment is a function that gives the empty
  string for a variable that is not set, as \<open>os.Getenv\<close> does. \<open>Load\<close> returns \<open>None\<close> when
  \<open>refuseUnsafeDevMode\<close> aborts the start of the program. The random bytes of an ephemeral secret
  are an argument.
\<close>

record config =
  cfg_Port :: int
  cfg_Host :: string
  cfg_PublicHost :: string
  cfg_DefaultDomain :: string
  cfg_SessionSecret :: string
  cfg_OIDCClientID :: string
  cfg_OIDCClientSecret :: string
  cfg_OIDCIssuerURL :: string
  cfg_OIDCInternalBase :: string
  cfg_OIDCProviderName :: string
  cfg_OIDCRedirectURI :: string
  cfg_EnrollURL :: string
  cfg_AccountURL :: string
  cfg_DBPath :: string
  cfg_QRForgeURL :: string
  cfg_AdminUsers :: "string list"
  cfg_AdminGroup :: string
  cfg_RequiredGroup :: string
  cfg_DevMode :: bool
  cfg_AllowPrivateTargets :: bool
  cfg_FooterLinks :: bool

type_synonym environment = "string \<Rightarrow> string"

definition getEnv :: "environment \<Rightarrow> string \<Rightarrow> string \<Rightarrow> string" where
  "getEnv env key fallback = (let val = env key in if val \<noteq> [] then val else fallback)"

definition getEnvAsInt :: "environment \<Rightarrow> string \<Rightarrow> int \<Rightarrow> int" where
  "getEnvAsInt env key fallback =
     (if env key = [] then fallback else case Atoi (env key) of None \<Rightarrow> fallback | Some v \<Rightarrow> v)"

definition ParseBool :: "string \<Rightarrow> bool option" where
  "ParseBool s =
     (if s \<in> {''1'', ''t'', ''T'', ''true'', ''TRUE'', ''True''} then Some True
      else if s \<in> {''0'', ''f'', ''F'', ''false'', ''FALSE'', ''False''} then Some False
      else None)"

definition getEnvAsBool :: "environment \<Rightarrow> string \<Rightarrow> bool \<Rightarrow> bool" where
  "getEnvAsBool env key fallback =
     (if env key = [] then fallback else case ParseBool (env key) of None \<Rightarrow> fallback | Some v \<Rightarrow> v)"

definition discovery_suffix :: string where
  "discovery_suffix = ''.well-known/openid-configuration''"

definition recortarDiscovery :: "string \<Rightarrow> string" where
  "recortarDiscovery raw =
     (let recortado = trim_suffix raw ''/'' in
      if has_suffix recortado discovery_suffix then trim_suffix recortado discovery_suffix else raw)"

definition IsOIDCConfigured :: "config \<Rightarrow> bool" where
  "IsOIDCConfigured c \<longleftrightarrow> cfg_OIDCIssuerURL c \<noteq> [] \<and> cfg_OIDCClientID c \<noteq> []"

definition IsAdmin :: "config \<Rightarrow> string \<Rightarrow> string list \<Rightarrow> bool" where
  "IsAdmin c username groups =
     (if cfg_AdminGroup c \<noteq> [] then list_ex (\<lambda>g. equal_fold (trim_space g) (cfg_AdminGroup c)) groups
      else if cfg_AdminUsers c = [] then False
      else username \<in> set (cfg_AdminUsers c))"

definition isLoopbackHost :: "string \<Rightarrow> bool" where
  "isLoopbackHost host =
     (to_lower (trim_space host) \<in> {''127.0.0.1'', ''localhost'', ''::1'', ''[::1]''})"

text \<open>True when the start is refused.\<close>

definition refuseUnsafeDevMode :: "config \<Rightarrow> bool" where
  "refuseUnsafeDevMode c =
     (if \<not> cfg_DevMode c \<or> IsOIDCConfigured c then False
      else if isLoopbackHost (cfg_Host c) then False else True)"

definition session_secret :: "string \<Rightarrow> string \<Rightarrow> string" where
  "session_secret random secretStr =
     (if secretStr = [] then random
      else if length secretStr < 32 then secretStr @ replicate (32 - length secretStr) (CHR 0x00)
      else secretStr)"

definition admin_users :: "string \<Rightarrow> string list" where
  "admin_users s =
     (if s = [] then [] else filter (\<lambda>u. u \<noteq> []) (map trim_space (split_on CHR '','' s)))"

definition read_config :: "string \<Rightarrow> environment \<Rightarrow> config" where
  "read_config random env =
     (let publicHost = getEnv env ''LINKUP_PUBLIC_HOST'' ''localhost:3464'' in
      \<lparr>cfg_Port = getEnvAsInt env ''LINKUP_PORT'' 3464,
       cfg_Host = getEnv env ''LINKUP_HOST'' ''0.0.0.0'',
       cfg_PublicHost = publicHost,
       cfg_DefaultDomain = getEnv env ''LINKUP_DEFAULT_DOMAIN'' publicHost,
       cfg_SessionSecret = session_secret random (env ''LINKUP_SESSION_SECRET''),
       cfg_OIDCClientID = getEnv env ''LINKUP_OIDC_CLIENT_ID'' [],
       cfg_OIDCClientSecret = getEnv env ''LINKUP_OIDC_CLIENT_SECRET'' [],
       cfg_OIDCIssuerURL = recortarDiscovery (trim_space
          (getEnv env ''LINKUP_OIDC_ISSUER'' (getEnv env ''LINKUP_OIDC_DISCOVERY_URL'' []))),
       cfg_OIDCInternalBase = trim_right_char CHR ''/'' (getEnv env ''LINKUP_OIDC_INTERNAL_BASE'' []),
       cfg_OIDCProviderName = trim_space (getEnv env ''LINKUP_OIDC_PROVIDER_NAME'' ''your provider''),
       cfg_OIDCRedirectURI = getEnv env ''LINKUP_OIDC_REDIRECT_URI'' ''http://localhost:3464/auth/callback'',
       cfg_EnrollURL = getEnv env ''LINKUP_ENROLL_URL'' [],
       cfg_AccountURL = getEnv env ''LINKUP_ACCOUNT_URL'' [],
       cfg_DBPath = getEnv env ''LINKUP_DB_PATH'' ''./data/linkup.db'',
       cfg_QRForgeURL = trim_right_char CHR ''/'' (getEnv env ''LINKUP_QRFORGE_URL'' ''https://qr.kaicorplabs.com''),
       cfg_AdminUsers = admin_users (getEnv env ''LINKUP_ADMIN_USERS'' []),
       cfg_AdminGroup = getEnv env ''LINKUP_ADMIN_GROUP'' [],
       cfg_RequiredGroup = trim_space (getEnv env ''LINKUP_REQUIRED_GROUP'' []),
       cfg_DevMode = getEnvAsBool env ''LINKUP_DEV_MODE'' False,
       cfg_AllowPrivateTargets = getEnvAsBool env ''LINKUP_ALLOW_PRIVATE_TARGETS'' False,
       cfg_FooterLinks = (trim_space (getEnv env ''KAICORP_FOOTER_LINKS'' []) \<noteq> [])\<rparr>)"

definition Load :: "string \<Rightarrow> environment \<Rightarrow> config option" where
  "Load random env = (let c = read_config random env in if refuseUnsafeDevMode c then None else Some c)"

section \<open>Properties\<close>

text \<open>
  The program never starts with an open panel: a configuration that \<open>Load\<close> returns has
  OIDC configured, or is not in development mode, or listens on a loopback address; its session
  secret has at least 32 bytes when the ephemeral one has; private targets and development mode
  are off unless their variable parses as true.
\<close>

theorem Load_never_open:
  assumes "Load random env = Some c" and "32 \<le> length random"
  shows "(cfg_DevMode c \<longrightarrow> IsOIDCConfigured c \<or> isLoopbackHost (cfg_Host c)) \<and>
    32 \<le> length (cfg_SessionSecret c) \<and>
    (cfg_DevMode c \<longrightarrow> ParseBool (env ''LINKUP_DEV_MODE'') = Some True) \<and>
    (cfg_AllowPrivateTargets c \<longrightarrow> ParseBool (env ''LINKUP_ALLOW_PRIVATE_TARGETS'') = Some True)"
proof -
  have c: "c = read_config random env" "\<not> refuseUnsafeDevMode c"
    using assms(1) by (auto simp: Load_def Let_def split: if_splits)
  have "cfg_DevMode c \<longrightarrow> IsOIDCConfigured c \<or> isLoopbackHost (cfg_Host c)"
    using c(2) by (auto simp: refuseUnsafeDevMode_def split: if_splits)
  moreover have "32 \<le> length (cfg_SessionSecret c)"
    using assms(2) by (simp add: c(1) read_config_def Let_def session_secret_def)
  moreover have "getEnvAsBool env k False \<longrightarrow> ParseBool (env k) = Some True" for k
    by (auto simp: getEnvAsBool_def split: option.splits)
  then have "cfg_DevMode c \<longrightarrow> ParseBool (env ''LINKUP_DEV_MODE'') = Some True"
    "cfg_AllowPrivateTargets c \<longrightarrow> ParseBool (env ''LINKUP_ALLOW_PRIVATE_TARGETS'') = Some True"
    by (simp_all add: c(1) read_config_def Let_def)
  ultimately show ?thesis by blast
qed

theorem Load_never_open_witness:
  "\<exists>c. Load (replicate 32 CHR ''r'') (\<lambda>k. []) = Some c \<and> 32 \<le> length (cfg_SessionSecret c)"
proof -
  have "\<not> refuseUnsafeDevMode (read_config (replicate 32 CHR ''r'') (\<lambda>k. []))"
    by (simp add: refuseUnsafeDevMode_def read_config_def Let_def getEnvAsBool_def)
  then have l: "Load (replicate 32 CHR ''r'') (\<lambda>k. []) = Some (read_config (replicate 32 CHR ''r'') (\<lambda>k. []))"
    by (simp add: Load_def Let_def)
  from Load_never_open [OF this] l show ?thesis by simp
qed

text \<open>
  Who administers: with an administration group configured, membership of that group
  decides alone, so a person without it is no administrator whatever the list of user names
  says, and nobody is without groups; without such a group the list of names decides alone.
\<close>

theorem IsAdmin_group_or_list:
  "IsAdmin c username groups =
     (if cfg_AdminGroup c \<noteq> []
      then (\<exists>g\<in>set groups. to_lower (trim_space g) = to_lower (cfg_AdminGroup c))
      else username \<in> set (cfg_AdminUsers c))"
  by (auto simp: IsAdmin_def list_ex_iff equal_fold_def)

text \<open>
  The issuer is accepted with or without the well-known suffix, and otherwise left as it
  is to the last character: pasting the discovery document's URL, with or without a slash at its
  end, gives the issuer it belongs to.
\<close>

lemma has_suffix_append [simp]: "has_suffix (x @ s) s"
  by (simp add: has_suffix_def)

lemma trim_suffix_append [simp]: "trim_suffix (x @ s) s = x"
  by (simp add: trim_suffix_def)

lemma has_suffix_iff: "has_suffix s p \<longleftrightarrow> (\<exists>r. s = r @ p)"
  unfolding has_suffix_def has_prefix_iff by (metis rev_append rev_rev_ident)

theorem recortarDiscovery_issuer:
  "recortarDiscovery (issuer @ discovery_suffix) = issuer \<and>
   recortarDiscovery (issuer @ discovery_suffix @ ''/'') = issuer \<and>
   (recortarDiscovery raw = raw \<or> (\<exists>tail\<in>{[], ''/''}. raw = recortarDiscovery raw @ discovery_suffix @ tail))"
proof -
  have "\<not> has_suffix (issuer @ discovery_suffix) ''/''"
    by (simp add: has_suffix_def has_prefix_def discovery_suffix_def)
  then have 1: "recortarDiscovery (issuer @ discovery_suffix) = issuer"
    by (simp add: recortarDiscovery_def trim_suffix_def [of _ "''/''"])
  have "trim_suffix (issuer @ discovery_suffix @ ''/'') ''/'' = issuer @ discovery_suffix"
    using trim_suffix_append [of "issuer @ discovery_suffix" "''/''"] by simp
  then have 2: "recortarDiscovery (issuer @ discovery_suffix @ ''/'') = issuer"
    by (simp add: recortarDiscovery_def)
  have 3: "recortarDiscovery raw = raw \<or> (\<exists>tail\<in>{[], ''/''}. raw = recortarDiscovery raw @ discovery_suffix @ tail)"
  proof (cases "has_suffix (trim_suffix raw ''/'') discovery_suffix")
    case True
    then obtain r where r: "trim_suffix raw ''/'' = r @ discovery_suffix" by (auto simp: has_suffix_iff)
    then have "recortarDiscovery raw = r" by (simp add: recortarDiscovery_def)
    moreover have "raw = trim_suffix raw ''/'' \<or> raw = trim_suffix raw ''/'' @ ''/''"
      by (auto simp: has_suffix_iff trim_suffix_def)
    ultimately show ?thesis using r by auto
  qed (simp add: recortarDiscovery_def)
  from 1 2 3 show ?thesis by blast
qed

end
