(* ===== verification/Base64.thy ===== *)
theory Base64
  imports Prelude
begin

text \<open>
  The URL-safe encoding of package \<open>encoding/base64\<close>, which seals the session cookie and reads
  the payload of an access token: \<open>b64_encode\<close> is \<open>URLEncoding.EncodeToString\<close>,
  \<open>b64_decode True\<close> is \<open>URLEncoding.DecodeString\<close> (padding required) and \<open>b64_decode False\<close> is
  \<open>RawURLEncoding.DecodeString\<close> (no padding). The decoders skip line ends and, as the library
  does when it is not strict, ignore the unused bits of the last group.
\<close>

definition b64_char :: "nat \<Rightarrow> char" where
  "b64_char n = ''ABCDEFGHIJKLMNOPQRSTUVWXYZabcdefghijklmnopqrstuvwxyz0123456789-_'' ! n"

definition b64_value :: "char \<Rightarrow> nat option" where
  "b64_value c =
     (if is_upper c then Some (byte c - 65)
      else if is_lower c then Some (byte c - 71)
      else if is_digit c then Some (byte c + 4)
      else if c = CHR ''-'' then Some 62
      else if c = CHR ''_'' then Some 63
      else None)"

fun b64_encode :: "string \<Rightarrow> string" where
  "b64_encode [] = []"
| "b64_encode [a] = [b64_char (byte a div 4), b64_char (byte a mod 4 * 16), CHR ''='', CHR ''='']"
| "b64_encode [a, b] = [b64_char (byte a div 4), b64_char (byte a mod 4 * 16 + byte b div 16),
     b64_char (byte b mod 16 * 4), CHR ''='']"
| "b64_encode (a # b # c # r) = [b64_char (byte a div 4), b64_char (byte a mod 4 * 16 + byte b div 16),
     b64_char (byte b mod 16 * 4 + byte c div 64), b64_char (byte c mod 64)] @ b64_encode r"

text \<open>The bytes of a last group of two or three characters, and of a full one.\<close>

definition b64_two :: "char \<Rightarrow> char \<Rightarrow> string option" where
  "b64_two a b = (case (b64_value a, b64_value b) of
     (Some x, Some y) \<Rightarrow> Some [char_of (4 * x + y div 16)] | _ \<Rightarrow> None)"

definition b64_three :: "char \<Rightarrow> char \<Rightarrow> char \<Rightarrow> string option" where
  "b64_three a b c = (case (b64_value a, b64_value b, b64_value c) of
     (Some x, Some y, Some z) \<Rightarrow> Some [char_of (4 * x + y div 16), char_of (y mod 16 * 16 + z div 4)]
   | _ \<Rightarrow> None)"

definition b64_four :: "char \<Rightarrow> char \<Rightarrow> char \<Rightarrow> char \<Rightarrow> string option" where
  "b64_four a b c d = (case (b64_value a, b64_value b, b64_value c, b64_value d) of
     (Some x, Some y, Some z, Some w) \<Rightarrow>
       Some [char_of (4 * x + y div 16), char_of (y mod 16 * 16 + z div 4), char_of (z mod 4 * 64 + w)]
   | _ \<Rightarrow> None)"

fun b64_groups :: "bool \<Rightarrow> string \<Rightarrow> string option" where
  "b64_groups pad [] = Some []"
| "b64_groups pad [a] = None"
| "b64_groups pad [a, b] = (if pad then None else b64_two a b)"
| "b64_groups pad [a, b, c] = (if pad then None else b64_three a b c)"
| "b64_groups pad (a # b # c # d # r) =
     (if pad \<and> c = CHR ''='' \<and> d = CHR ''='' \<and> r = [] then b64_two a b
      else if pad \<and> d = CHR ''='' \<and> r = [] then b64_three a b c
      else (case b64_four a b c d of
              None \<Rightarrow> None
            | Some bs \<Rightarrow> map_option ((@) bs) (b64_groups pad r)))"

definition b64_decode :: "bool \<Rightarrow> string \<Rightarrow> string option" where
  "b64_decode pad s = b64_groups pad (filter (\<lambda>c. c \<noteq> CHR 0x0A \<and> c \<noteq> CHR 0x0D) s)"

section \<open>Round trip\<close>

lemma b64_value_char: "n < 64 \<Longrightarrow> b64_value (b64_char n) = Some n"
proof -
  have "list_all (\<lambda>n. b64_value (b64_char n) = Some n) [0..<64]" by code_simp
  then show "n < 64 \<Longrightarrow> ?thesis" by (simp add: list_all_iff)
qed

lemma b64_value_ends [simp]: "b64_value CHR ''='' = None" "b64_value CHR 0x0A = None" "b64_value CHR 0x0D = None"
  by code_simp+

lemma b64_char_not: "n < 64 \<Longrightarrow> b64_char n \<noteq> CHR ''='' \<and> b64_char n \<noteq> CHR 0x0A \<and> b64_char n \<noteq> CHR 0x0D"
  using b64_value_char [of n] by (auto dest: arg_cong [of _ _ b64_value])

lemma char_of_byte: "char_of (byte c) = c"
  by (simp add: byte_def)

lemma byte_bits:
  "byte a div 4 < 64" "byte a mod 4 * 16 < 64" "byte a mod 4 * 16 + byte b div 16 < 64"
  "byte b mod 16 * 4 < 64" "byte b mod 16 * 4 + byte c div 64 < 64" "byte c mod 64 < 64"
proof -
  have "byte a mod 4 \<le> 3" "byte b mod 16 \<le> 15" using mod_less_divisor [of 4] mod_less_divisor [of 16] by fastforce+
  moreover have "byte b div 16 < 16" "byte c div 64 < 4"
    using byte_less [of b] byte_less [of c] by (simp_all add: less_mult_imp_div_less)
  ultimately show "byte a mod 4 * 16 < 64" "byte a mod 4 * 16 + byte b div 16 < 64"
    "byte b mod 16 * 4 < 64" "byte b mod 16 * 4 + byte c div 64 < 64"
    by linarith+
  show "byte a div 4 < 64" "byte c mod 64 < 64" using byte_less [of a] by (simp_all add: less_mult_imp_div_less)
qed

lemma byte_joins:
  "(byte a mod 4 * 16 + byte b div 16) div 16 = byte a mod 4"
  "(byte a mod 4 * 16 + byte b div 16) mod 16 = byte b div 16" "byte b div 16 mod 16 = byte b div 16"
  "(byte b mod 16 * 4 + byte c div 64) div 4 = byte b mod 16"
  "(byte b mod 16 * 4 + byte c div 64) mod 4 = byte c div 64" "byte c div 64 mod 4 = byte c div 64"
proof -
  have "byte b div 16 < 16" "byte c div 64 < 4"
    using byte_less [of b] byte_less [of c] by (simp_all add: less_mult_imp_div_less)
  then show "(byte a mod 4 * 16 + byte b div 16) div 16 = byte a mod 4"
    "(byte a mod 4 * 16 + byte b div 16) mod 16 = byte b div 16" "byte b div 16 mod 16 = byte b div 16"
    "(byte b mod 16 * 4 + byte c div 64) div 4 = byte b mod 16"
    "(byte b mod 16 * 4 + byte c div 64) mod 4 = byte c div 64" "byte c div 64 mod 4 = byte c div 64"
    by simp_all
qed

lemma char_join:
  "char_of (4 * (byte a div 4) + byte a mod 4) = a" "char_of (byte b div 16 * 16 + byte b mod 16) = b"
  "char_of (byte c div 64 * 64 + byte c mod 64) = c"
  by (simp_all only: mult_div_mod_eq div_mult_mod_eq char_of_byte)

lemma b64_groups_encode: "b64_groups True (b64_encode s) = Some s"
proof (induction s rule: b64_encode.induct)
  case (2 a)
  show ?case using char_join(1) [of a]
    by (simp add: b64_two_def b64_value_char byte_bits)
next
  case (3 a b)
  have "b64_char (byte b mod 16 * 4) \<noteq> CHR ''=''" using b64_char_not byte_bits(4) by blast
  then show ?case using char_join(1) [of a] char_join(2) [of b]
    by (simp add: b64_three_def b64_value_char byte_bits byte_joins)
next
  case (4 a b c r)
  have "b64_char (byte c mod 64) \<noteq> CHR ''=''" using b64_char_not byte_bits(6) by blast
  then show ?case using 4 char_join(1) [of a] char_join(2) [of b] char_join(3) [of c]
    by (simp add: b64_four_def b64_value_char byte_bits byte_joins)
qed simp

lemma b64_encode_chars: "c \<in> set (b64_encode s) \<Longrightarrow> c \<noteq> CHR 0x0A \<and> c \<noteq> CHR 0x0D"
proof -
  have n: "n < 64 \<Longrightarrow> b64_char n \<noteq> CHR 0x0A \<and> b64_char n \<noteq> CHR 0x0D" for n using b64_char_not by blast
  show "c \<in> set (b64_encode s) \<Longrightarrow> ?thesis"
    by (induction s rule: b64_encode.induct) (auto simp: n byte_bits)
qed

lemma b64_round_trip: "b64_decode True (b64_encode s) = Some s"
proof -
  have "filter (\<lambda>c. c \<noteq> CHR 0x0A \<and> c \<noteq> CHR 0x0D) (b64_encode s) = b64_encode s"
    using b64_encode_chars by (auto simp: filter_id_conv)
  then show ?thesis by (simp add: b64_decode_def b64_groups_encode)
qed

lemma b64_encode_empty [simp]: "b64_encode s = [] \<longleftrightarrow> s = []"
  by (cases s rule: b64_encode.cases) auto

declare b64_encode.simps [simp del] b64_groups.simps [simp del]

end
