(* ===== verification/Oidc_Origin.thy ===== *)
theory Oidc_Origin
  imports Go_Url
begin

text \<open>
  Talking to the identity provider over an internal address, internal/services/oidc_origen.go:
  the origin swap, the issuers a token may carry, and the rewriting of the authorization
  endpoint. \<open>None\<close> is an error. The library's discovery is a parameter, \<open>newProvider\<close>, which
  takes the address asked and the issuer it must publish.
\<close>

text \<open>The fields of \<open>oauth2.Endpoint\<close> the program reads or writes.\<close>

record oauth_endpoint =
  ep_AuthURL :: string
  ep_TokenURL :: string

definition enOrigen :: "string \<Rightarrow> string \<Rightarrow> string option" where
  "enOrigen destino origen =
     (case Url_Parse destino of
        None \<Rightarrow> None
      | Some u \<Rightarrow>
          (case Url_Parse origen of
             None \<Rightarrow> None
           | Some og \<Rightarrow>
               if u_Host og = [] then None
               else Some (URL_String (u\<lparr>u_Scheme := u_Scheme og,
                      u_Host := (if URL_Port og \<noteq> [] then URL_Hostname og @ '':'' @ URL_Port og
                                 else URL_Hostname og)\<rparr>))))"

definition emisoresAceptados :: "string \<Rightarrow> string \<Rightarrow> string list" where
  "emisoresAceptados issuer internalBase =
     (if internalBase = [] then [issuer]
      else case enOrigen issuer internalBase of
        Some interno \<Rightarrow> if interno \<noteq> issuer then [issuer, interno] else [issuer]
      | None \<Rightarrow> [issuer])"

definition emisorValido :: "string \<Rightarrow> string \<Rightarrow> string \<Rightarrow> bool" where
  "emisorValido recibido issuer internalBase =
     list_ex (\<lambda>esperado. trim_right_char CHR ''/'' recibido = trim_right_char CHR ''/'' esperado)
       (emisoresAceptados issuer internalBase)"

text \<open>The endpoint, rewritten or not, and whether the rewriting worked.\<close>

definition endpointPublico :: "oauth_endpoint \<Rightarrow> string \<Rightarrow> oauth_endpoint \<times> bool" where
  "endpointPublico endpoint issuer =
     (case Url_Parse issuer of
        None \<Rightarrow> (endpoint, False)
      | Some publico \<Rightarrow>
          (case enOrigen (ep_AuthURL endpoint) (u_Scheme publico @ ''://'' @ u_Host publico) of
             None \<Rightarrow> (endpoint, False)
           | Some reescrito \<Rightarrow> (endpoint\<lparr>ep_AuthURL := reescrito\<rparr>, True)))"

definition descubrirProveedor ::
  "(string \<Rightarrow> string \<Rightarrow> 'p option) \<Rightarrow> string \<Rightarrow> string \<Rightarrow> 'p option" where
  "descubrirProveedor newProvider issuer internalBase =
     (if internalBase = [] then newProvider issuer issuer
      else case enOrigen issuer internalBase of
        None \<Rightarrow> None
      | Some interno \<Rightarrow> newProvider interno issuer)"

section \<open>Plain URLs\<close>

text \<open>
  A plain URL is scheme, host name, optional port and path, with no character the library
  would escape. It parses to the expected parts and prints as it was.
\<close>

definition plain_scheme :: "string \<Rightarrow> bool" where
  "plain_scheme s \<longleftrightarrow> s \<noteq> [] \<and> list_all is_lower s"

definition plain_host :: "string \<Rightarrow> bool" where
  "plain_host h \<longleftrightarrow> h \<noteq> [] \<and> list_all (\<lambda>c. is_alnum c \<or> c \<in> set ''-._~'') h"

definition plain_path :: "string \<Rightarrow> bool" where
  "plain_path p \<longleftrightarrow> has_prefix p ''/'' \<and> list_all (\<lambda>c. \<not> shouldEscape c encodePath) p"

definition host_port :: "string \<Rightarrow> string \<Rightarrow> string" where
  "host_port h port = (if port = [] then h else h @ '':'' @ port)"

definition origin_of :: "string \<Rightarrow> string \<Rightarrow> string \<Rightarrow> string" where
  "origin_of s h port = s @ ''://'' @ host_port h port"

definition plain_origin :: "string \<Rightarrow> string \<Rightarrow> string \<Rightarrow> bool" where
  "plain_origin s h port \<longleftrightarrow> plain_scheme s \<and> plain_host h \<and> list_all is_digit port"

lemma escape_plain: "list_all (\<lambda>c. \<not> shouldEscape c mode) s \<Longrightarrow> mode \<noteq> encodeQueryComponent \<Longrightarrow> escape mode s = s"
  by (induction s) auto

lemma unescape_plain:
  "list_all (\<lambda>c. c \<noteq> CHR ''%'' \<and> c \<noteq> CHR ''+'' \<and> \<not> shouldEscape c mode) s \<Longrightarrow> unescape mode s = Some s"
  by (induction s) auto

lemma path_char: "\<not> shouldEscape c encodePath \<Longrightarrow> is_alnum c \<or> c \<in> set ''-_.~$&+,/:;=@''"
  by (auto simp: shouldEscape_def split: if_splits)

lemma path_char_plain: "\<not> shouldEscape c encodePath \<Longrightarrow> c \<noteq> CHR ''#'' \<and> c \<noteq> CHR ''?'' \<and> c \<noteq> CHR ''%'' \<and> visible c"
  using path_char [of c] by (auto simp: char_class_defs visible_def)

lemma alnum_visible: "is_alnum c \<Longrightarrow> visible c \<and> \<not> shouldEscape c encodeHost"
  by (auto simp: char_class_defs visible_def shouldEscape_def)

lemma host_char: "is_alnum c \<or> c \<in> set ''-._~:'' \<Longrightarrow>
  c \<notin> set ''#?%@/[]+ '' \<and> visible c \<and> \<not> shouldEscape c encodeHost"
proof -
  have "list_all (\<lambda>d. d \<notin> set ''#?%@/[]+ '' \<and> visible d \<and> \<not> shouldEscape d encodeHost) ''-._~:''" by code_simp
  moreover have "list_all (\<lambda>d. \<not> is_alnum d) ''#?%@/[]+ ''" by code_simp
  ultimately show "is_alnum c \<or> c \<in> set ''-._~:'' \<Longrightarrow> ?thesis"
    unfolding list_all_iff using alnum_visible by blast
qed

lemma host_port_chars:
  assumes "plain_host h" and "list_all is_digit port" and "c \<in> set (host_port h port)"
  shows "c \<notin> set ''#?%@/[]+ '' \<and> visible c \<and> \<not> shouldEscape c encodeHost"
proof -
  have "c \<in> set h \<or> c = CHR '':'' \<or> c \<in> set port" using assms(3) by (auto simp: host_port_def split: if_splits)
  moreover have "c \<in> set h \<Longrightarrow> is_alnum c \<or> c \<in> set ''-._~''" "c \<in> set port \<Longrightarrow> is_alnum c"
    using assms(1,2) unfolding plain_host_def list_all_iff is_alnum_def by blast+
  ultimately have "is_alnum c \<or> c \<in> set ''-._~:''" by auto
  then show ?thesis by (rule host_char)
qed

lemma lower_scheme: "list_all is_lower s \<Longrightarrow> to_lower s = s"
  by (induction s) (auto simp: to_lower_def lower_char_def char_class_defs)

lemma getScheme_plain:
  assumes "plain_scheme s"
  shows "getScheme (s @ CHR '':'' # r) = Some (s, r)"
proof -
  have all: "list_all scheme_char s" and hd: "is_alpha (hd s)"
    using assms by (cases s; auto simp: plain_scheme_def scheme_char_def list_all_iff is_alnum_def is_alpha_def)+
  have "\<not> scheme_char CHR '':''" by (simp add: scheme_char_def char_class_defs)
  then have "takeWhile scheme_char (s @ CHR '':'' # r) = s" "dropWhile scheme_char (s @ CHR '':'' # r) = CHR '':'' # r"
    using all by (simp_all add: takeWhile_append2 list_all_iff)
  moreover have "hd s \<noteq> CHR '':''" using hd by (auto simp: char_class_defs)
  ultimately show ?thesis using assms hd
    by (simp add: getScheme_def plain_scheme_def has_prefix_def)
qed

lemma last_index_none: "c \<notin> set s \<Longrightarrow> last_index c s = None"
  by (simp add: last_index_def)

lemma last_index_snoc: "c \<notin> set b \<Longrightarrow> last_index c (a @ c # b) = Some (length a)"
proof -
  assume "c \<notin> set b"
  then have "takeWhile (\<lambda>x. x \<noteq> c) (rev b @ c # rev a) = rev b" by (subst takeWhile_append2) auto
  then show ?thesis by (simp add: last_index_def)
qed

lemma parseHost_plain:
  assumes "plain_host h" and "list_all is_digit port"
  shows "parseHost (host_port h port) = Some (host_port h port)"
proof -
  let ?a = "host_port h port"
  have c: "c \<in> set ?a \<Longrightarrow> c \<notin> set ''#?%@/[]+ '' \<and> \<not> shouldEscape c encodeHost" for c
    using host_port_chars [OF assms] by blast
  have u: "unescape encodeHost ?a = Some ?a" by (rule unescape_plain) (use c in \<open>auto simp: list_all_iff\<close>)
  have b: "last_index CHR ''['' ?a = None" by (rule last_index_none) (use c in auto)
  have "CHR '':'' \<notin> set h" using assms(1) by (auto simp: plain_host_def list_all_iff char_class_defs)
  moreover have "CHR '':'' \<notin> set port" using assms(2) by (auto simp: list_all_iff char_class_defs)
  ultimately have "case last_index CHR '':'' ?a of None \<Rightarrow> True | Some i \<Rightarrow> validOptionalPort (drop i ?a)"
    using last_index_snoc [of "CHR '':''" port h] last_index_none [of "CHR '':''" h] assms(2)
    by (simp add: host_port_def validOptionalPort_def)
  then show ?thesis using u b by (auto simp: parseHost_def split: option.splits)
qed

lemma splitHostPort_plain:
  assumes "plain_host h" and "list_all is_digit port"
  shows "splitHostPort (host_port h port) = (h, port)"
proof -
  have nb: "\<not> has_prefix h ''[''" using assms(1)
    by (cases h) (auto simp: plain_host_def has_prefix_def char_class_defs)
  have n: "CHR '':'' \<notin> set h" "CHR '':'' \<notin> set port"
    using assms by (auto simp: plain_host_def list_all_iff char_class_defs)
  show ?thesis
  proof (cases "port = []")
    case True
    then show ?thesis using last_index_none [OF n(1)] nb by (simp add: splitHostPort_def host_port_def)
  next
    case False
    then show ?thesis using last_index_snoc [OF n(2), of h] nb assms(2)
      by (simp add: splitHostPort_def host_port_def validOptionalPort_def)
  qed
qed

definition plain_parsed :: "string \<Rightarrow> string \<Rightarrow> string \<Rightarrow> string \<Rightarrow> URL" where
  "plain_parsed s h port p = empty_url\<lparr>u_Scheme := s, u_Host := host_port h port, u_Path := p\<rparr>"

lemma parse_plain:
  assumes "plain_origin s h port" and "p = [] \<or> plain_path p"
  shows "Url_Parse (origin_of s h port @ p) = Some (plain_parsed s h port p)"
proof -
  let ?a = "host_port h port" and ?r = "''//'' @ host_port h port @ p"
  have o: "plain_scheme s" "plain_host h" "list_all is_digit port" using assms(1) by (simp_all add: plain_origin_def)
  have a: "c \<in> set ?a \<Longrightarrow> c \<notin> set ''#?%@/[]+ '' \<and> visible c" for c using host_port_chars [OF o(2,3)] by blast
  have p: "c \<in> set p \<Longrightarrow> c \<noteq> CHR ''#'' \<and> c \<noteq> CHR ''?'' \<and> c \<noteq> CHR ''%'' \<and> visible c \<and> \<not> shouldEscape c encodePath" for c
    using assms(2) path_char_plain [of c] by (auto simp: plain_path_def list_all_iff)
  have s: "c \<in> set s \<Longrightarrow> c \<noteq> CHR ''#'' \<and> visible c" for c
    using o(1) by (auto simp: plain_scheme_def list_all_iff char_class_defs visible_def)
  have eq: "origin_of s h port @ p = s @ CHR '':'' # ?r" by (simp add: origin_of_def)
  have "CHR ''#'' \<notin> set (s @ CHR '':'' # ?r)" using s a p by auto
  then have "cut CHR ''#'' (origin_of s h port @ p) = (s @ CHR '':'' # ?r, [], False)" unfolding eq by (rule cut_none)
  moreover have "parse_no_fragment (s @ CHR '':'' # ?r) = Some (plain_parsed s h port p)"
  proof -
    have nq: "CHR ''?'' \<notin> set ?r" using a p by auto
    have body: "parse_rest ?r (empty_url\<lparr>u_Scheme := s\<rparr>) = Some (plain_parsed s h port p)"
    proof -
      have "takeWhile (\<lambda>c. c \<noteq> CHR ''/'') p = []"
        using assms(2) by (cases p) (auto simp: plain_path_def has_prefix_def)
      then have t: "takeWhile (\<lambda>c. c \<noteq> CHR ''/'') (?a @ p) = ?a" using a by (subst takeWhile_append2) auto
      have at: "last_index CHR ''@'' ?a = None" by (rule last_index_none) (use a in auto)
      have pa: "parseAuthority ?a = Some (None, ?a)"
        using parseHost_plain [OF o(2,3)] by (simp add: parseAuthority_def at)
      have e: "escape encodePath p = p" using p by (intro escape_plain) (auto simp: list_all_iff)
      have "unescape encodePath (escape encodePath p) = Some p" by (rule unescape_escape) simp_all
      moreover have "s \<noteq> []" using o(1) by (simp add: plain_scheme_def)
      ultimately show ?thesis using t pa e
        by (simp add: parse_rest_def has_prefix_def setPath_def plain_parsed_def empty_url_def Let_def)
    qed
    define r where "r = ?r"
    have "\<not> list_ex (\<lambda>c. byte c < 32 \<or> byte c = 127) (s @ CHR '':'' # r)"
      using s a p unfolding r_def by (force simp: list_ex_iff visible_def byte_def)
    moreover have "s @ CHR '':'' # r \<noteq> ''*''" by (cases s) auto
    moreover have "count_list r CHR ''?'' = 0" using nq by (simp only: r_def count_list_0_iff) simp
    moreover have "cut CHR ''?'' r = (r, [], False)" using nq unfolding r_def by (rule cut_none)
    moreover have "to_lower s = s" using o(1) by (simp add: lower_scheme plain_scheme_def)
    moreover have "(empty_url\<lparr>u_Scheme := s\<rparr>)\<lparr>u_RawQuery := []\<rparr> = empty_url\<lparr>u_Scheme := s\<rparr>" by (simp add: empty_url_def)
    ultimately show ?thesis using getScheme_plain [OF o(1), of r] body unfolding r_def [symmetric]
      by (simp add: parse_no_fragment_def Let_def)
  qed
  ultimately show ?thesis by (simp add: Url_Parse_def)
qed

lemma print_plain:
  assumes "plain_origin s h port" and "p = [] \<or> plain_path p"
  shows "URL_String (plain_parsed s h port p) = origin_of s h port @ p"
proof -
  have o: "plain_scheme s" "plain_host h" "list_all is_digit port" using assms(1) by (simp_all add: plain_origin_def)
  have "host_port h port \<noteq> []" using o(2) by (simp add: host_port_def plain_host_def)
  moreover have "escape encodeHost (host_port h port) = host_port h port"
    using host_port_chars [OF o(2,3)] by (intro escape_plain) (auto simp: list_all_iff)
  moreover have "escape encodePath p = p"
    using assms(2) by (intro escape_plain) (auto simp: plain_path_def)
  moreover have "p \<noteq> ''*''" using assms(2) by (auto simp: plain_path_def has_prefix_def)
  moreover have "p = [] \<or> has_prefix p ''/''" using assms(2) by (auto simp: plain_path_def)
  moreover have "s \<noteq> []" using o(1) by (simp add: plain_scheme_def)
  ultimately show ?thesis
    by (auto simp: URL_String_def plain_parsed_def empty_url_def authority_string_def EscapedPath_def Let_def
        origin_of_def)
qed

section \<open>Properties\<close>

lemma enOrigen_plain:
  assumes "plain_origin s h port" and "p = [] \<or> plain_path p" and "plain_origin s' h' port'"
    and "q = [] \<or> plain_path q"
  shows "enOrigen (origin_of s h port @ p) (origin_of s' h' port' @ q) = Some (origin_of s' h' port' @ p)"
proof -
  have d: "Url_Parse (origin_of s h port @ p) = Some (plain_parsed s h port p)" using assms(1,2) by (rule parse_plain)
  have og: "Url_Parse (origin_of s' h' port' @ q) = Some (plain_parsed s' h' port' q)" using assms(3,4) by (rule parse_plain)
  have hp: "splitHostPort (host_port h' port') = (h', port')"
    using assms(3) by (intro splitHostPort_plain) (simp_all add: plain_origin_def)
  have "host_port h' port' \<noteq> []" using assms(3) by (simp add: host_port_def plain_origin_def plain_host_def)
  moreover have "(plain_parsed s h port p)\<lparr>u_Scheme := s', u_Host := host_port h' port'\<rparr> = plain_parsed s' h' port' p"
    by (simp add: plain_parsed_def empty_url_def)
  moreover have "(if URL_Port (plain_parsed s' h' port' q) \<noteq> []
      then URL_Hostname (plain_parsed s' h' port' q) @ '':'' @ URL_Port (plain_parsed s' h' port' q)
      else URL_Hostname (plain_parsed s' h' port' q)) = host_port h' port'"
    using hp by (simp only: URL_Port_def URL_Hostname_def plain_parsed_def URL.simps fst_conv snd_conv host_port_def) auto
  ultimately show ?thesis using print_plain [OF assms(3,2)]
    by (simp add: enOrigen_def d og) (simp add: plain_parsed_def empty_url_def)
qed

text \<open>
  Claim C28. Two origins, one provider: for plain URLs, the swap of the origin keeps the path to
  the letter and takes host and port from the new origin (no port of the old one leaks), the
  browser is sent to the public origin at the path discovery gave, discovery asks the internal
  address and checks the public issuer, and a token is accepted exactly when its issuer is, up
  to slashes at the end, the public one or the internal one.
\<close>

theorem internal_origin_transparent:
  assumes "plain_origin s h port" and "plain_origin s' h' port'" and "plain_path p" and "plain_path q"
  shows "enOrigen (origin_of s h port @ p) (origin_of s' h' port') = Some (origin_of s' h' port' @ p) \<and>
    endpointPublico \<lparr>ep_AuthURL = origin_of s' h' port' @ q, ep_TokenURL = t\<rparr> (origin_of s h port @ p) =
      (\<lparr>ep_AuthURL = origin_of s h port @ q, ep_TokenURL = t\<rparr>, True) \<and>
    descubrirProveedor newProvider (origin_of s h port @ p) (origin_of s' h' port') =
      newProvider (origin_of s' h' port' @ p) (origin_of s h port @ p) \<and>
    (emisorValido iss (origin_of s h port @ p) (origin_of s' h' port') \<longleftrightarrow>
      trim_right_char CHR ''/'' iss \<in> {trim_right_char CHR ''/'' (origin_of s h port @ p),
        trim_right_char CHR ''/'' (origin_of s' h' port' @ p)})"
proof -
  have ne: "origin_of s' h' port' \<noteq> []" by (simp add: origin_of_def)
  have en: "enOrigen (origin_of s h port @ p) (origin_of s' h' port') = Some (origin_of s' h' port' @ p)"
    using enOrigen_plain [OF assms(1) _ assms(2), of p "[]"] assms(3) by simp
  have pub: "u_Scheme (plain_parsed s h port p) = s" "u_Host (plain_parsed s h port p) = host_port h port"
    by (simp_all add: plain_parsed_def)
  have ep: "endpointPublico \<lparr>ep_AuthURL = origin_of s' h' port' @ q, ep_TokenURL = t\<rparr> (origin_of s h port @ p) =
      (\<lparr>ep_AuthURL = origin_of s h port @ q, ep_TokenURL = t\<rparr>, True)"
    using enOrigen_plain [OF assms(2) _ assms(1), of q "[]"] assms(4) parse_plain [OF assms(1), of p] assms(3)
    by (simp add: endpointPublico_def pub origin_of_def)
  from en ep ne show ?thesis
    by (auto simp: descubrirProveedor_def emisorValido_def emisoresAceptados_def)
qed

theorem internal_origin_transparent_witness:
  "emisorValido ''http://idp:9000/o/linkup/'' ''https://auth.e.com/o/linkup/'' ''http://idp:9000'' \<and>
   \<not> emisorValido ''https://evil.com/o/linkup/'' ''https://auth.e.com/o/linkup/'' ''http://idp:9000''"
proof -
  have "plain_origin ''https'' ''auth.e.com'' []" "plain_origin ''http'' ''idp'' ''9000''" "plain_path ''/o/linkup/''"
    by code_simp+
  note main = internal_origin_transparent [OF this(1,2,3,3), unfolded origin_of_def host_port_def]
  from main [of "[]" "\<lambda>a b. None" "''http://idp:9000/o/linkup/''"] main [of "[]" "\<lambda>a b. None" "''https://evil.com/o/linkup/''"]
  show ?thesis by (auto simp: trim_right_char_def)
qed

end
