(* ===== verification/Http.thy ===== *)
theory Http
  imports Go_Url
begin

text \<open>
  What the handlers see of package \<open>net/http\<close>: a request as the server parsed it, the cookies it
  carries and sets, and the response as a handler builds it. \<open>rq_Form\<close> is \<open>r.Form\<close> after
  \<open>ParseForm\<close> (empty when the body does not parse, most handlers ignore that error) and
  \<open>rq_PostForm\<close> the parameters of the body alone, \<open>None\<close> when it does not parse. A redirect is
  recorded as the URL and status handed to \<open>http.Redirect\<close>.
\<close>

record request =
  rq_Method :: string
  rq_Path :: string
  rq_Host :: string
  rq_Authorization :: string
  rq_UserAgent :: string
  rq_AcceptLanguage :: string
  rq_Cookies :: "(string \<times> string) list"
  rq_Query :: Values
  rq_Form :: Values
  rq_PostForm :: "Values option"
  rq_Body :: string

record cookie =
  ck_Name :: string
  ck_Value :: string
  ck_Path :: string
  ck_MaxAge :: int
  ck_HttpOnly :: bool
  ck_SameSiteLax :: bool
  ck_Secure :: bool

text \<open>\<open>r.Cookie\<close>, \<open>Values.Get\<close>, \<open>r.FormValue\<close>.\<close>

definition Cookie :: "string \<Rightarrow> request \<Rightarrow> string option" where
  "Cookie n r = map_of (rq_Cookies r) n"

definition values_get :: "Values \<Rightarrow> string \<Rightarrow> string" where
  "values_get m k = (case map_of m k of Some (v # _) \<Rightarrow> v | _ \<Rightarrow> [])"

definition FormValue :: "request \<Rightarrow> string \<Rightarrow> string" where
  "FormValue r k = values_get (rq_Form r) k"

definition query_get :: "request \<Rightarrow> string \<Rightarrow> string" where
  "query_get r k = values_get (rq_Query r) k"

text \<open>A request with nothing in it.\<close>

definition blank_request :: request where
  "blank_request = \<lparr>rq_Method = ''GET'', rq_Path = ''/'', rq_Host = [], rq_Authorization = [], rq_UserAgent = [],
     rq_AcceptLanguage = [], rq_Cookies = [], rq_Query = [], rq_Form = [],
     rq_PostForm = None, rq_Body = []\<rparr>"

record 'b response =
  rs_Status :: int
  rs_Headers :: "(string \<times> string) list"
  rs_Cookies :: "cookie list"
  rs_Redirect :: "string option"
  rs_Body :: 'b

text \<open>\<open>w.Header().Set\<close>.\<close>

definition set_header :: "string \<Rightarrow> string \<Rightarrow> 'b response \<Rightarrow> 'b response" where
  "set_header k v rs = rs\<lparr>rs_Headers := AList.update k v (rs_Headers rs)\<rparr>"

text \<open>Headers set before a handler runs, which may overwrite them.\<close>

definition default_headers :: "(string \<times> string) list \<Rightarrow> 'b response \<Rightarrow> 'b response" where
  "default_headers hs rs = rs\<lparr>rs_Headers := fold (\<lambda>(k, v). AList.update k v) (rs_Headers rs) hs\<rparr>"

definition header :: "'b response \<Rightarrow> string \<Rightarrow> string option" where
  "header rs k = map_of (rs_Headers rs) k"

lemma header_set: "header (set_header k v rs) k' = (if k' = k then Some v else header rs k')"
  by (simp add: header_def set_header_def update_conv')

lemma header_default: "header (default_headers hs rs) k =
  (case map_of (rev (rs_Headers rs)) k of Some v \<Rightarrow> Some v | None \<Rightarrow> map_of hs k)"
proof -
  have "map_of (fold (\<lambda>(k, v). AList.update k v) us hs) k = (case map_of (rev us) k of Some v \<Rightarrow> Some v | None \<Rightarrow> map_of hs k)" for us
    by (induction us arbitrary: hs) (auto simp: update_conv' map_add_def split: option.splits)
  then show ?thesis by (simp add: header_def default_headers_def)
qed

lemma default_headers_simps [simp]:
  "rs_Status (default_headers hs rs) = rs_Status rs" "rs_Cookies (default_headers hs rs) = rs_Cookies rs"
  "rs_Redirect (default_headers hs rs) = rs_Redirect rs" "rs_Body (default_headers hs rs) = rs_Body rs"
  by (simp_all add: default_headers_def)

lemma set_header_simps [simp]:
  "rs_Status (set_header k v rs) = rs_Status rs" "rs_Cookies (set_header k v rs) = rs_Cookies rs"
  "rs_Redirect (set_header k v rs) = rs_Redirect rs" "rs_Body (set_header k v rs) = rs_Body rs"
  by (simp_all add: set_header_def)

end
