(* ===== verification/Auth.thy ===== *)
theory Auth
  imports Api_Key_Service Base64 Config Oidc_Origin Http
begin

text \<open>
  Sign-in and sessions, internal/services/auth.go and auth_revocation.go. Parameters, in the
  environment of a call: the clock at its start and when a check is repeated at its end, the
  random values it draws, the AES-GCM, SHA-256 and JSON codecs, and what the OpenID library and
  the provider answer (discovery, code exchange, token verification, UserInfo). \<open>ae_Meanwhile\<close> is
  what other requests do to the database while the call waits for UserInfo: the service holds
  no lock then. The claims of a token whose JSON does not parse are \<open>None\<close>.
\<close>

record oauth_token =
  ot_AccessToken :: string
  ot_Expiry :: "time option"
  ot_IDToken :: "string option"

record userinfo =
  ui_Subject :: string
  ui_Groups :: "string list option"

record id_claims =
  ic_Subject :: string
  ic_PreferredUsername :: string
  ic_Email :: string
  ic_Groups :: "string list"
  ic_SID :: string

record id_token =
  it_Issuer :: string
  it_Nonce :: string
  it_Claims :: "id_claims option"

text \<open>A logout token: \<open>lt_Event\<close> says that the back-channel event is a JSON object,
  \<open>lt_HasNonce\<close> that the claims have a \<open>nonce\<close>.\<close>

record logout_claims =
  lo_SID :: string
  lo_JTI :: string
  lo_IAT :: int
  lo_EXP :: "int option"
  lo_HasNonce :: bool
  lo_Event :: bool

record logout_token =
  lt_Issuer :: string
  lt_Subject :: string
  lt_Claims :: "logout_claims option"

datatype adopted = Adopt_links | Adopt_folders | Adopt_domains | Adopt_keys | Adopt_webhooks

datatype auth_stmt = A_adopt string adopted | A_purge | A_insert | A_row | A_drop | A_recheck | A_login
  | A_begin | A_login_again | A_key_again | A_commit | A_revoke | A_jti_purge | A_jti | A_jti_sessions

record auth_env =
  ae_now :: time
  ae_later :: time
  ae_state :: string
  ae_nonce :: string
  ae_verifier :: string
  ae_session :: string
  ae_gcm_nonce :: "string option"
  ae_sha :: "string \<Rightarrow> string"
  ae_Seal :: "string \<Rightarrow> string \<Rightarrow> string \<Rightarrow> string"
  ae_Open :: "string \<Rightarrow> string \<Rightarrow> string \<Rightarrow> string option"
  ae_Marshal :: "user_session \<Rightarrow> string"
  ae_Unmarshal :: "string \<Rightarrow> user_session option"
  ae_GroupsJSON :: "string \<Rightarrow> string list option"
  ae_Discover :: "string \<Rightarrow> string \<Rightarrow> oauth_endpoint option"
  ae_AuthCodeURL :: "oauth_endpoint \<Rightarrow> string \<Rightarrow> string \<Rightarrow> string \<Rightarrow> string"
  ae_Exchange :: "string \<Rightarrow> string \<Rightarrow> oauth_token option"
  ae_Verify :: "bool \<Rightarrow> string \<Rightarrow> id_token option"
  ae_VerifyLogout :: "bool \<Rightarrow> string \<Rightarrow> logout_token option"
  ae_UserInfo :: "string \<Rightarrow> userinfo option"
  ae_Valid :: "time \<Rightarrow> oauth_token \<Rightarrow> bool"
  ae_Meanwhile :: "db \<Rightarrow> db"
  ae_fault :: "auth_stmt \<Rightarrow> bool"

text \<open>The service: its configuration, whether it has a database, and what discovery has given.\<close>

record auth_service =
  au_cfg :: config
  au_hasDB :: bool
  au_provider :: "oauth_endpoint option"
  au_oauth2Config :: "oauth_endpoint option"

datatype auth_error = AE_Revoked | AE_Unverified | AE_NotConfigured | AE_Unavailable | AE_NoCookie | AE_BadCookie
  | AE_BadState | AE_NoCode | AE_Exchange | AE_IDToken | AE_Issuer | AE_Nonce | AE_Claims | AE_NoSession
  | AE_Crypto | AE_Age | AE_Sql

definition SessionTTL :: int where "SessionTTL = 12 * hour_ns"

definition ttl_seconds :: int where "ttl_seconds = SessionTTL div second_ns"

definition SessionCookieName :: string where "SessionCookieName = ''linkup_session''"
definition StateCookieName :: string where "StateCookieName = ''linkup_oidc_state''"

section \<open>Sealing\<close>

definition encryptAESGCM :: "auth_env \<Rightarrow> string \<Rightarrow> string \<Rightarrow> string option" where
  "encryptAESGCM env plaintext keyBytes =
     (case ae_gcm_nonce env of
        None \<Rightarrow> None
      | Some nonce \<Rightarrow> Some (b64_encode (nonce @ ae_Seal env (ae_sha env keyBytes) nonce plaintext)))"

definition decryptAESGCM :: "auth_env \<Rightarrow> string \<Rightarrow> string \<Rightarrow> string option" where
  "decryptAESGCM env encoded keyBytes =
     (case b64_decode True encoded of
        None \<Rightarrow> None
      | Some ciphertext \<Rightarrow>
          if length ciphertext < 12 then None
          else ae_Open env (ae_sha env keyBytes) (take 12 ciphertext) (drop 12 ciphertext))"

section \<open>The provider\<close>

definition NewAuthService :: "auth_env \<Rightarrow> config \<Rightarrow> bool \<Rightarrow> auth_service" where
  "NewAuthService env cfg hasDB =
     (let a = \<lparr>au_cfg = cfg, au_hasDB = hasDB, au_provider = None, au_oauth2Config = None\<rparr> in
      if IsOIDCConfigured cfg then
        (case descubrirProveedor (ae_Discover env) (cfg_OIDCIssuerURL cfg) (cfg_OIDCInternalBase cfg) of
           None \<Rightarrow> a
         | Some ep \<Rightarrow> a\<lparr>au_provider := Some ep,
             au_oauth2Config := Some (fst (endpointPublico ep (cfg_OIDCIssuerURL cfg)))\<rparr>)
      else a)"

definition reinitProvider :: "auth_env \<Rightarrow> auth_service \<Rightarrow> auth_service \<times> bool" where
  "reinitProvider env a =
     (let cfg = au_cfg a in
      if \<not> IsOIDCConfigured cfg then (a, False)
      else (case descubrirProveedor (ae_Discover env) (cfg_OIDCIssuerURL cfg) (cfg_OIDCInternalBase cfg) of
        None \<Rightarrow> (a, False)
      | Some ep \<Rightarrow>
          let a1 = a\<lparr>au_provider := Some ep\<rparr>; (ep', ok) = endpointPublico ep (cfg_OIDCIssuerURL cfg) in
          if ok then (a1\<lparr>au_oauth2Config := Some ep'\<rparr>, True) else (a1, False)))"

definition currentProvider :: "auth_env \<Rightarrow> auth_service \<Rightarrow> auth_service \<times> bool" where
  "currentProvider env a = (if au_provider a = None then reinitProvider env a else (a, True))"

definition auth_cookie :: "config \<Rightarrow> string \<Rightarrow> string \<Rightarrow> int \<Rightarrow> cookie" where
  "auth_cookie cfg n v age = \<lparr>ck_Name = n, ck_Value = v, ck_Path = ''/'', ck_MaxAge = age, ck_HttpOnly = True,
     ck_SameSiteLax = True, ck_Secure = (\<not> cfg_DevMode cfg)\<rparr>"

definition GetAuthURL :: "auth_env \<Rightarrow> auth_service \<Rightarrow> auth_service \<times> (auth_error + (string \<times> cookie))" where
  "GetAuthURL env a =
     (let (a1, ok) = (if au_oauth2Config a = None then reinitProvider env a else (a, True)) in
      case (if ok then au_oauth2Config a1 else None) of
        None \<Rightarrow> (a1, Inl AE_Unavailable)
      | Some ep \<Rightarrow>
          (a1, Inr (ae_AuthCodeURL env ep (ae_state env) (ae_nonce env) (ae_verifier env),
             auth_cookie (au_cfg a) StateCookieName (ae_state env @ '':'' @ ae_nonce env @ '':'' @ ae_verifier env) 300)))"

definition groupsFromAccessToken :: "auth_env \<Rightarrow> string \<Rightarrow> string list" where
  "groupsFromAccessToken env raw =
     (case split_on CHR ''.'' raw of
        [_, payload, _] \<Rightarrow>
          (case b64_decode False payload of
             None \<Rightarrow> []
           | Some bytes \<Rightarrow> (case ae_GroupsJSON env bytes of None \<Rightarrow> [] | Some gs \<Rightarrow> gs))
      | _ \<Rightarrow> [])"

definition authorizeWithProvider ::
  "auth_env \<Rightarrow> config \<Rightarrow> oauth_token \<Rightarrow> user_session \<Rightarrow> auth_error + user_session" where
  "authorizeWithProvider env cfg token session =
     (if \<not> ae_Valid env (ae_now env) token then Inl AE_Revoked
      else case ae_UserInfo env (ot_AccessToken token) of
        None \<Rightarrow> Inl AE_Unverified
      | Some info \<Rightarrow>
          if ui_Subject info = [] \<or> ui_Subject info \<noteq> us_UserID session then Inl AE_Revoked
          else (case ui_Groups info of
             None \<Rightarrow> Inl AE_Revoked
           | Some gs \<Rightarrow>
               let groups = (if gs = [] then groupsFromAccessToken env (ot_AccessToken token) else gs) in
               if cfg_RequiredGroup cfg \<noteq> [] \<and> cfg_RequiredGroup cfg \<notin> set groups then Inl AE_Revoked
               else Inr (session\<lparr>us_Groups := groups\<rparr>)))"

section \<open>Sessions\<close>

definition saveOIDCSession ::
  "auth_env \<Rightarrow> auth_service \<Rightarrow> user_session \<Rightarrow> string \<Rightarrow> oauth_token \<Rightarrow> db \<Rightarrow> db \<times> (auth_error + user_session)" where
  "saveOIDCSession env a session sid token d =
     (case ot_Expiry token of
        None \<Rightarrow> (d, Inl AE_NoSession)
      | Some expiry \<Rightarrow>
          if \<not> au_hasDB a \<or> us_UserID session = [] \<or> ot_AccessToken token = [] \<or> \<not> ae_Valid env (ae_now env) token
          then (d, Inl AE_NoSession)
          else (case encryptAESGCM env (ot_AccessToken token) (cfg_SessionSecret (au_cfg a)) of
             None \<Rightarrow> (d, Inl AE_Crypto)
           | Some sealed \<Rightarrow>
               if ae_fault env A_purge then (d, Inl AE_Sql)
               else let d1 = d\<lparr>db_oidc_sessions :=
                        delete_rows (\<lambda>r. os_expires_at r \<le> unix (ae_now env)) (db_oidc_sessions d)\<rparr>;
                      row = \<lparr>os_id = ae_session env, os_subject = us_UserID session, os_sid = sid,
                        os_username = us_Username session, os_access_token = sealed,
                        os_expires_at = min (unix expiry) (us_CreatedAt session + ttl_seconds)\<rparr>
                 in (case (if ae_fault env A_insert then None
                           else insert_row row (\<lambda>rs. distinct (map os_id rs)) (db_oidc_sessions d1)) of
                       None \<Rightarrow> (d1, Inl AE_Sql)
                     | Some rows \<Rightarrow> (d1\<lparr>db_oidc_sessions := rows\<rparr>, Inr (session\<lparr>us_SessionID := ae_session env\<rparr>)))))"

definition session_row :: "string \<Rightarrow> db \<Rightarrow> oidc_session option" where
  "session_row i d = find (\<lambda>r. os_id r = i) (db_oidc_sessions d)"

definition drop_session :: "string \<Rightarrow> db \<Rightarrow> db" where
  "drop_session i d = d\<lparr>db_oidc_sessions := delete_rows (\<lambda>r. os_id r = i) (db_oidc_sessions d)\<rparr>"

definition authorizeSession ::
  "auth_env \<Rightarrow> auth_service \<Rightarrow> user_session \<Rightarrow> db \<Rightarrow> auth_service \<times> db \<times> (auth_error + user_session)" where
  "authorizeSession env a session d =
     (if \<not> au_hasDB a \<or> us_SessionID session = [] then (a, d, Inl AE_Revoked)
      else case query_row (ae_fault env A_row) (session_row (us_SessionID session) d) of
        Inl _ \<Rightarrow> (a, d, Inl AE_Revoked)
      | Inr row \<Rightarrow>
          if os_subject row \<noteq> us_UserID session \<or> os_username row \<noteq> us_Username session \<or>
             os_expires_at row \<le> unix (ae_now env) then (a, d, Inl AE_Revoked)
          else (case decryptAESGCM env (os_access_token row) (cfg_SessionSecret (au_cfg a)) of
             None \<Rightarrow> (a, d, Inl AE_Revoked)
           | Some raw \<Rightarrow>
               let (a1, ok) = currentProvider env a in
               if \<not> ok then (a1, d, Inl AE_Unavailable)
               else (case authorizeWithProvider env (au_cfg a) \<lparr>ot_AccessToken = raw,
                        ot_Expiry = Some (os_expires_at row * second_ns), ot_IDToken = None\<rparr> session of
                  Inl e \<Rightarrow>
                    (a1, if e = AE_Revoked \<and> \<not> ae_fault env A_drop
                         then drop_session (us_SessionID session) (ae_Meanwhile env d) else ae_Meanwhile env d, Inl e)
                | Inr s \<Rightarrow>
                    let d1 = ae_Meanwhile env d in
                    (case query_row (ae_fault env A_recheck) (find (\<lambda>r. os_id r = us_SessionID session \<and>
                              os_expires_at r > unix (ae_later env)) (db_oidc_sessions d1)) of
                       Inl _ \<Rightarrow> (a1, d1, Inl AE_Revoked)
                     | Inr _ \<Rightarrow> (a1, d1, Inr s)))))"

definition dev_session :: "int \<Rightarrow> user_session" where
  "dev_session t = empty_session\<lparr>us_UserID := ''dev-user-id'', us_Username := ''dev-user'',
     us_Email := ''dev@kaicorplabs.com'', us_IsAdmin := True, us_CreatedAt := t\<rparr>"

definition GetSession ::
  "auth_env \<Rightarrow> auth_service \<Rightarrow> request \<Rightarrow> db \<Rightarrow> auth_service \<times> db \<times> (auth_error + user_session)" where
  "GetSession env a r d =
     (let cfg = au_cfg a; now = unix (ae_now env) in
      case Cookie SessionCookieName r of
        Some (c # cs) \<Rightarrow>
          (case decryptAESGCM env (c # cs) (cfg_SessionSecret cfg) of
             None \<Rightarrow> (a, d, Inl AE_Crypto)
           | Some decrypted \<Rightarrow>
          (case ae_Unmarshal env decrypted of
             None \<Rightarrow> (a, d, Inl AE_BadCookie)
           | Some session \<Rightarrow>
               if us_CreatedAt session \<le> 0 \<or> us_CreatedAt session > now \<or> now - us_CreatedAt session \<ge> ttl_seconds
               then (a, d, Inl AE_Age)
               else let (a1, d1, res) = (if IsOIDCConfigured cfg then authorizeSession env a session d
                                         else (a, d, Inr session)) in
                 (a1, d1, (case res of
                    Inl e \<Rightarrow> Inl e
                  | Inr s \<Rightarrow> Inr (s\<lparr>us_IsAdmin := (IsAdmin cfg (us_Username s) (us_Groups s) \<or>
                      (cfg_DevMode cfg \<and> \<not> IsOIDCConfigured cfg \<and> us_Username s = ''dev-user''))\<rparr>)))))
      | _ \<Rightarrow> if cfg_DevMode cfg \<and> \<not> IsOIDCConfigured cfg then (a, d, Inr (dev_session now))
             else (a, d, Inl AE_NoCookie))"

definition SetSessionCookie :: "auth_env \<Rightarrow> config \<Rightarrow> user_session \<Rightarrow> cookie option" where
  "SetSessionCookie env cfg session =
     (let issued = (if us_CreatedAt session = 0 then session\<lparr>us_CreatedAt := unix (ae_now env)\<rparr> else session) in
      map_option (\<lambda>v. auth_cookie cfg SessionCookieName v ttl_seconds)
        (encryptAESGCM env (ae_Marshal env issued) (cfg_SessionSecret cfg)))"

definition ClearSessionCookie :: "config \<Rightarrow> cookie list" where
  "ClearSessionCookie cfg = [auth_cookie cfg SessionCookieName [] (-1), auth_cookie cfg StateCookieName [] (-1)]"

section \<open>Signing in\<close>

definition adopt_table :: "adopted \<Rightarrow> string \<Rightarrow> string \<Rightarrow> db \<Rightarrow> db" where
  "adopt_table t new old d =
     (case t of
        Adopt_links \<Rightarrow> d\<lparr>db_links := update_rows (\<lambda>l. l_CreatedBy l = old) (\<lambda>l. l\<lparr>l_CreatedBy := new\<rparr>) (db_links d)\<rparr>
      | Adopt_folders \<Rightarrow>
          d\<lparr>db_folders := update_rows (\<lambda>f. f_CreatedBy f = old) (\<lambda>f. f\<lparr>f_CreatedBy := new\<rparr>) (db_folders d)\<rparr>
      | Adopt_domains \<Rightarrow> d\<lparr>db_custom_domains :=
          update_rows (\<lambda>c. cd_CreatedBy c = old) (\<lambda>c. c\<lparr>cd_CreatedBy := new\<rparr>) (db_custom_domains d)\<rparr>
      | Adopt_keys \<Rightarrow> d\<lparr>db_api_keys := update_rows
          (\<lambda>k. ak_UserID k = old \<and> \<not> has_prefix (to_lower (ak_ID k)) OIDCSubjectKeyPrefix)
          (\<lambda>k. k\<lparr>ak_UserID := new\<rparr>) (db_api_keys d)\<rparr>
      | Adopt_webhooks \<Rightarrow>
          d\<lparr>db_webhooks := update_rows (\<lambda>w. wh_UserID w = old) (\<lambda>w. w\<lparr>wh_UserID := new\<rparr>) (db_webhooks d)\<rparr>)"

text \<open>The statements one after the other, up to the first one that fails.\<close>

fun adopt_from :: "(auth_stmt \<Rightarrow> bool) \<Rightarrow> string \<Rightarrow> (string \<times> adopted) list \<Rightarrow> db \<Rightarrow> db" where
  "adopt_from flt new [] d = d"
| "adopt_from flt new ((old, t) # qs) d =
     (if flt (A_adopt old t) then d else adopt_from flt new qs (adopt_table t new old d))"

definition adoptLegacyOwner :: "auth_env \<Rightarrow> auth_service \<Rightarrow> user_session \<Rightarrow> db \<Rightarrow> db" where
  "adoptLegacyOwner env a session d =
     (if \<not> au_hasDB a \<or> us_UserID session = [] then d
      else adopt_from (ae_fault env) (us_UserID session)
        (List.product (filter (\<lambda>old. old \<noteq> [] \<and> old \<noteq> us_UserID session) [us_Username session, us_Email session])
           [Adopt_links, Adopt_folders, Adopt_domains, Adopt_keys, Adopt_webhooks]) d)"

text \<open>What the callback checks before it trusts the claims: the claims and the access token.\<close>

definition callback_claims :: "auth_env \<Rightarrow> config \<Rightarrow> request \<Rightarrow> auth_error + (id_claims \<times> oauth_token)" where
  "callback_claims env cfg r =
     (case Cookie StateCookieName r of
        None \<Rightarrow> Inl AE_NoCookie
      | Some value \<Rightarrow>
     (case split_on CHR '':'' value of
        [expectedState, expectedNonce, verifier] \<Rightarrow>
          if query_get r ''state'' = [] \<or> query_get r ''state'' \<noteq> expectedState then Inl AE_BadState
          else if query_get r ''code'' = [] then Inl AE_NoCode
          else (case ae_Exchange env (query_get r ''code'') verifier of
             None \<Rightarrow> Inl AE_Exchange
           | Some token \<Rightarrow>
          (case ot_IDToken token of
             None \<Rightarrow> Inl AE_IDToken
           | Some raw \<Rightarrow>
          (case ae_Verify env (cfg_OIDCInternalBase cfg \<noteq> []) raw of
             None \<Rightarrow> Inl AE_IDToken
           | Some idToken \<Rightarrow>
               if \<not> emisorValido (it_Issuer idToken) (cfg_OIDCIssuerURL cfg) (cfg_OIDCInternalBase cfg)
               then Inl AE_Issuer
               else if it_Nonce idToken \<noteq> expectedNonce then Inl AE_Nonce
               else (case it_Claims idToken of None \<Rightarrow> Inl AE_Claims | Some c \<Rightarrow> Inr (c, token)))))
      | _ \<Rightarrow> Inl AE_BadCookie))"

definition HandleCallback ::
  "auth_env \<Rightarrow> auth_service \<Rightarrow> request \<Rightarrow> db \<Rightarrow> db \<times> (auth_error + user_session)" where
  "HandleCallback env a r d =
     (let cfg = au_cfg a in
      if au_oauth2Config a = None then (d, Inl AE_NotConfigured)
      else case callback_claims env cfg r of
        Inl e \<Rightarrow> (d, Inl e)
      | Inr (c, token) \<Rightarrow>
          let username = (if ic_PreferredUsername c \<noteq> [] then ic_PreferredUsername c
                          else if ic_Email c \<noteq> [] then ic_Email c else ic_Subject c);
              session = empty_session\<lparr>us_UserID := ic_Subject c, us_Username := username, us_Email := ic_Email c,
                us_Groups := ic_Groups c, us_IsAdmin := IsAdmin cfg username (ic_Groups c),
                us_CreatedAt := unix (ae_now env)\<rparr>
          in case authorizeWithProvider env cfg token session of
               Inl e \<Rightarrow> (ae_Meanwhile env d, Inl e)
             | Inr s \<Rightarrow>
                 let s1 = s\<lparr>us_IsAdmin := IsAdmin cfg (us_Username s) (us_Groups s)\<rparr> in
                 (case saveOIDCSession env a s1 (ic_SID c) token (ae_Meanwhile env d) of
                    (d1, Inl e) \<Rightarrow> (d1, Inl e)
                  | (d1, Inr s2) \<Rightarrow> (adoptLegacyOwner env a s2 d1, Inr s2)))"

section \<open>API keys and revocation\<close>

text \<open>\<open>ORDER BY expires_at DESC LIMIT 1\<close> among the unexpired logins of the owner.\<close>

definition login_proof :: "auth_env \<Rightarrow> string \<Rightarrow> db \<Rightarrow> sql_error + user_session" where
  "login_proof env owner d =
     (case query_row (ae_fault env A_login) (first_row (order_desc os_expires_at
             (filter (\<lambda>r. os_subject r = owner \<and> os_expires_at r > unix (ae_now env)) (db_oidc_sessions d)))) of
        Inl e \<Rightarrow> Inl e
      | Inr r \<Rightarrow> Inr (empty_session\<lparr>us_SessionID := os_id r, us_UserID := os_subject r, us_Username := os_username r\<rparr>))"

text \<open>The last transaction: the very login and the very key are still there.\<close>

definition still_there :: "auth_env \<Rightarrow> user_session \<Rightarrow> user_session \<Rightarrow> db \<Rightarrow> bool" where
  "still_there env proof session d \<longleftrightarrow>
     \<not> ae_fault env A_begin \<and> \<not> ae_fault env A_login_again \<and> \<not> ae_fault env A_key_again \<and> \<not> ae_fault env A_commit \<and>
     list_ex (\<lambda>r. os_id r = us_SessionID proof \<and> os_subject r = us_UserID session \<and> os_username r = us_Username proof \<and>
        os_expires_at r > unix (ae_later env)) (db_oidc_sessions d) \<and>
     list_ex (\<lambda>k. ak_ID k = us_APIKeyID session \<and> ak_KeyHash k = us_APIKeyHash session \<and>
        ak_UserID k = us_UserID session) (db_api_keys d)"

definition AuthorizeAPIKey ::
  "auth_env \<Rightarrow> auth_service \<Rightarrow> user_session \<Rightarrow> db \<Rightarrow> auth_service \<times> db \<times> (auth_error + user_session)" where
  "AuthorizeAPIKey env a session d =
     (let cfg = au_cfg a in
      if \<not> IsOIDCConfigured cfg then (a, d, Inr session)
      else if \<not> au_hasDB a \<or> us_UserID session = [] \<or> \<not> has_prefix (us_APIKeyID session) OIDCSubjectKeyPrefix \<or>
        us_APIKeyHash session = [] then (a, d, Inl AE_Revoked)
      else case login_proof env (us_UserID session) d of
        Inl _ \<Rightarrow> (a, d, Inl AE_Revoked)
      | Inr proof \<Rightarrow>
          (case authorizeSession env a proof d of
             (a1, d1, Inl e) \<Rightarrow> (a1, d1, Inl e)
           | (a1, d1, Inr p) \<Rightarrow>
               if still_there env p session d1
               then (a1, d1, Inr (session\<lparr>us_Username := us_Username p, us_IsAdmin := IsAdmin cfg (us_Username p) []\<rparr>))
               else (a1, d1, Inl AE_Revoked)))"

text \<open>The session id of a cookie that this server sealed, \<open>None\<close> when there is nothing to revoke.\<close>

definition cookie_session :: "auth_env \<Rightarrow> config \<Rightarrow> request \<Rightarrow> user_session option" where
  "cookie_session env cfg r =
     Option.bind (Cookie SessionCookieName r) (\<lambda>v.
     Option.bind (decryptAESGCM env v (cfg_SessionSecret cfg)) (ae_Unmarshal env))"

definition RevokeSession :: "auth_env \<Rightarrow> auth_service \<Rightarrow> request \<Rightarrow> db \<Rightarrow> db \<times> auth_error option" where
  "RevokeSession env a r d =
     (if \<not> IsOIDCConfigured (au_cfg a) then (d, None)
      else if \<not> au_hasDB a then (d, Some AE_Sql)
      else case cookie_session env (au_cfg a) r of
        None \<Rightarrow> (d, None)
      | Some session \<Rightarrow>
          if us_SessionID session = [] then (d, None)
          else if ae_fault env A_revoke then (d, Some AE_Sql)
          else (drop_session (us_SessionID session) d, None))"

definition logout_acceptable :: "int \<Rightarrow> string \<Rightarrow> logout_claims \<Rightarrow> bool" where
  "logout_acceptable now subject c \<longleftrightarrow>
     \<not> (lo_HasNonce c \<or> lo_JTI c = [] \<or> lo_IAT c \<le> 0 \<or> lo_IAT c > now + 60 \<or> lo_IAT c < now - 300 \<or>
        (case lo_EXP c of None \<Rightarrow> True | Some e \<Rightarrow> e \<le> now) \<or> (subject = [] \<and> lo_SID c = []) \<or> \<not> lo_Event c)"

definition logged_out :: "string \<Rightarrow> string \<Rightarrow> oidc_session \<Rightarrow> bool" where
  "logged_out subject sid r \<longleftrightarrow> (subject = [] \<or> os_subject r = subject) \<and> (sid = [] \<or> os_sid r = sid)"

definition BackchannelLogout ::
  "auth_env \<Rightarrow> auth_service \<Rightarrow> string \<Rightarrow> db \<Rightarrow> auth_service \<times> db \<times> auth_error option" where
  "BackchannelLogout env a raw d =
     (let cfg = au_cfg a; now = unix (ae_now env) in
      if \<not> au_hasDB a \<or> raw = [] then (a, d, Some AE_Revoked)
      else let (a1, ok) = currentProvider env a in
        if \<not> ok then (a1, d, Some AE_Unavailable)
        else (case ae_VerifyLogout env (cfg_OIDCInternalBase cfg \<noteq> []) raw of
           None \<Rightarrow> (a1, d, Some AE_Revoked)
         | Some token \<Rightarrow>
             if \<not> emisorValido (lt_Issuer token) (cfg_OIDCIssuerURL cfg) (cfg_OIDCInternalBase cfg)
             then (a1, d, Some AE_Revoked)
             else (case lt_Claims token of
                None \<Rightarrow> (a1, d, Some AE_Revoked)
              | Some c \<Rightarrow>
                  if \<not> logout_acceptable now (lt_Subject token) c then (a1, d, Some AE_Revoked)
                  else if ae_fault env A_begin \<or> ae_fault env A_jti_purge then (a1, d, Some AE_Sql)
                  else let jtis = delete_rows (\<lambda>j. lj_expires_at j \<le> now) (db_oidc_logout_jtis d) in
                    (case (if ae_fault env A_jti then None
                           else insert_row \<lparr>lj_jti = lo_JTI c, lj_expires_at = now + 600\<rparr>
                                  (\<lambda>rs. distinct (map lj_jti rs)) jtis) of
                       None \<Rightarrow> (a1, d, Some AE_Sql)
                     | Some jtis' \<Rightarrow>
                         if ae_fault env A_jti_sessions \<or> ae_fault env A_commit then (a1, d, Some AE_Sql)
                         else (a1, d\<lparr>db_oidc_logout_jtis := jtis',
                                 db_oidc_sessions := delete_rows (logged_out (lt_Subject token) (lo_SID c))
                                   (db_oidc_sessions d)\<rparr>, None)))))"

end
