(* ===== verification/Folder_Service.thy ===== *)
theory Folder_Service
  imports Owned_Tables
begin

text \<open>
  Folders, internal/services/folder_service.go. \<open>Delete\<close> is one transaction over two tables: a
  fault of any of its statements rolls everything back.
\<close>

datatype folder_stmt = F_insert | F_list | F_get | F_update | F_begin | F_delete | F_release | F_commit

datatype folder_error = FE_EmptyName | FE_Create | FE_NotFound | FE_Update | FE_Release | FE_Sql

definition FolderService_Create ::
  "(folder_stmt \<Rightarrow> bool) \<Rightarrow> time \<Rightarrow> string \<Rightarrow> string \<Rightarrow> string \<Rightarrow> string \<Rightarrow> db \<Rightarrow> db \<times> (folder_error + folder)" where
  "FolderService_Create flt now uuid name color username d =
     (let name = trim_space name in
      if name = [] then (d, Inl FE_EmptyName)
      else let color = trim_space color;
               color = (if color = [] then ''#06b6d4'' else color);
               f = \<lparr>f_ID = uuid, f_Name = name, f_Color = color, f_CreatedBy = username, f_CreatedAt = unix now\<rparr>
           in case (if flt F_insert then None
                    else insert_row f (\<lambda>rs. distinct (map f_ID rs)) (db_folders d)) of
                None \<Rightarrow> (d, Inl FE_Create)
              | Some rows \<Rightarrow> (d\<lparr>db_folders := rows\<rparr>, Inr f))"

definition FolderService_List ::
  "(folder_stmt \<Rightarrow> bool) \<Rightarrow> string \<Rightarrow> bool \<Rightarrow> db \<Rightarrow> folder_error + folder list" where
  "FolderService_List flt username isAdmin d =
     (if flt F_list then Inl FE_Sql
      else Inr (sort_key f_Name (owned_list f_CreatedBy username isAdmin (db_folders d))))"

text \<open>\<open>Get\<close> returns \<open>nil, nil\<close> when there is no such folder.\<close>

definition FolderService_Get :: "(folder_stmt \<Rightarrow> bool) \<Rightarrow> string \<Rightarrow> db \<Rightarrow> folder_error + folder option" where
  "FolderService_Get flt i d =
     (case query_row (flt F_get) (find (\<lambda>f. f_ID f = i) (db_folders d)) of
        Inl NoRows \<Rightarrow> Inr None
      | Inl SqlFault \<Rightarrow> Inl FE_Sql
      | Inr f \<Rightarrow> Inr (Some f))"

definition renamed :: "update_folder_request \<Rightarrow> folder \<Rightarrow> folder_error + folder" where
  "renamed req f =
     (case uf_Name req of
        None \<Rightarrow> Inr f
      | Some n \<Rightarrow> if trim_space n = [] then Inl FE_EmptyName else Inr (f\<lparr>f_Name := trim_space n\<rparr>))"

definition recoloured :: "update_folder_request \<Rightarrow> folder \<Rightarrow> folder" where
  "recoloured req f =
     (case uf_Color req of
        None \<Rightarrow> f
      | Some c \<Rightarrow> if trim_space c \<noteq> [] then f\<lparr>f_Color := trim_space c\<rparr> else f)"

definition FolderService_Update ::
  "(folder_stmt \<Rightarrow> bool) \<Rightarrow> string \<Rightarrow> update_folder_request \<Rightarrow> string \<Rightarrow> bool \<Rightarrow> db \<Rightarrow>
   db \<times> (folder_error + folder)" where
  "FolderService_Update flt i req username isAdmin d =
     (case FolderService_Get flt i d of
        Inl e \<Rightarrow> (d, Inl e)
      | Inr None \<Rightarrow> (d, Inl FE_NotFound)
      | Inr (Some f) \<Rightarrow>
          if \<not> isAdmin \<and> f_CreatedBy f \<noteq> username then (d, Inl FE_NotFound)
          else (case renamed req f of
             Inl e \<Rightarrow> (d, Inl e)
           | Inr g \<Rightarrow>
               let h = recoloured req g in
               if flt F_update then (d, Inl FE_Update)
               else (d\<lparr>db_folders := update_rows (\<lambda>r. f_ID r = f_ID h)
                        (\<lambda>r. r\<lparr>f_Name := f_Name h, f_Color := f_Color h\<rparr>) (db_folders d)\<rparr>, Inr h)))"

definition release_links :: "string \<Rightarrow> db \<Rightarrow> db" where
  "release_links i d =
     d\<lparr>db_links := update_rows (\<lambda>l. l_FolderID l = Some i) (\<lambda>l. l\<lparr>l_FolderID := None\<rparr>) (db_links d)\<rparr>"

definition FolderService_Delete ::
  "(folder_stmt \<Rightarrow> bool) \<Rightarrow> string \<Rightarrow> string \<Rightarrow> bool \<Rightarrow> db \<Rightarrow> db \<times> folder_error option" where
  "FolderService_Delete flt i username isAdmin d =
     (if flt F_begin then (d, Some FE_Sql)
      else if flt F_delete then (d, Some FE_Sql)
      else case owned_delete f_ID f_CreatedBy i username isAdmin (db_folders d) of
        None \<Rightarrow> (d, Some FE_NotFound)
      | Some rows \<Rightarrow>
          if flt F_release then (d, Some FE_Release)
          else if flt F_commit then (d, Some FE_Sql)
          else (release_links i (d\<lparr>db_folders := rows\<rparr>), None))"

interpretation folders: owned_table db_folders f_ID f_CreatedBy "\<lambda>f. f" FolderService_List FolderService_Delete
  by unfold_locales
    (auto simp: FolderService_Delete_def FolderService_List_def release_links_def
      split: if_splits option.splits dest: owned_delete_Some)

lemma renamed_same: "renamed req f = Inr g \<Longrightarrow> f_ID g = f_ID f \<and> f_CreatedBy g = f_CreatedBy f \<and>
    f_CreatedAt g = f_CreatedAt f"
  by (auto simp: renamed_def split: option.splits if_splits)

lemma recoloured_same [simp]: "f_ID (recoloured req f) = f_ID f" "f_CreatedBy (recoloured req f) = f_CreatedBy f"
  "f_CreatedAt (recoloured req f) = f_CreatedAt f" "f_Name (recoloured req f) = f_Name f"
  by (simp_all add: recoloured_def split: option.splits)

lemma Folder_Update_error:
  "FolderService_Update flt i req username isAdmin d = (d', Inl e) \<Longrightarrow> d' = d"
  by (auto simp: FolderService_Update_def Let_def split: sum.splits option.splits if_splits)

lemma Folder_Update_done:
  assumes "FolderService_Update flt i req username isAdmin d = (d', Inr h)"
  shows "\<exists>f g. find (\<lambda>f. f_ID f = i) (db_folders d) = Some f \<and> (isAdmin \<or> f_CreatedBy f = username) \<and>
    renamed req f = Inr g \<and> h = recoloured req g \<and>
    d' = d\<lparr>db_folders := update_rows (\<lambda>r. f_ID r = f_ID h)
            (\<lambda>r. r\<lparr>f_Name := f_Name h, f_Color := f_Color h\<rparr>) (db_folders d)\<rparr>"
proof -
  obtain f where f: "FolderService_Get flt i d = Inr (Some f)" "isAdmin \<or> f_CreatedBy f = username"
    using assms by (auto simp: FolderService_Update_def split: sum.splits option.splits if_splits)
  obtain g where g: "renamed req f = Inr g"
    using assms f by (auto simp: FolderService_Update_def split: sum.splits if_splits)
  have "find (\<lambda>f. f_ID f = i) (db_folders d) = Some f"
    using f(1) by (auto simp: FolderService_Get_def query_row_def split: option.splits if_splits)
  then show ?thesis using assms f g
    by (auto simp: FolderService_Update_def Let_def split: if_splits)
qed

section \<open>Properties\<close>

text \<open>No link points at a folder that is not there.\<close>

definition folders_ok :: "db \<Rightarrow> bool" where
  "folders_ok d \<longleftrightarrow> distinct (map f_ID (db_folders d)) \<and>
     (\<forall>l\<in>set (db_links d). \<forall>i. l_FolderID l = Some i \<longrightarrow> (\<exists>f\<in>set (db_folders d). f_ID f = i))"

text \<open>
  Claim C24. Deleting a folder never leaves a link pointing at a missing folder, whichever
  statement of the transaction fails: a failed deletion changes nothing at all, and one that
  succeeds was asked by the owner or an administrator, removes that folder only, and changes
  no link except that those of the folder are now in no folder.
\<close>

theorem Folder_Delete_no_dangling:
  assumes "folders_ok d" and "FolderService_Delete flt i username isAdmin d = (d', err)"
  shows "folders_ok d' \<and>
    (case err of
       Some e \<Rightarrow> d' = d
     | None \<Rightarrow> (\<exists>f\<in>set (db_folders d). f_ID f = i \<and> (isAdmin \<or> f_CreatedBy f = username)) \<and>
         db_folders d' = filter (\<lambda>f. f_ID f \<noteq> i) (db_folders d) \<and>
         db_links d' = map (\<lambda>l. if l_FolderID l = Some i then l\<lparr>l_FolderID := None\<rparr> else l) (db_links d))"
proof (cases err)
  case (Some e)
  then show ?thesis using folders.del_failed [of flt i username isAdmin d d'] assms by simp
next
  case None
  have keys: "distinct (map f_ID (db_folders d))" using assms(1) by (simp add: folders_ok_def)
  from folders.del_done [OF keys, of flt i username isAdmin d'] None assms(2)
  have f: "db_folders d' = filter (\<lambda>f. f_ID f \<noteq> i) (db_folders d)"
    "\<exists>f\<in>set (db_folders d). f_ID f = i \<and> (isAdmin \<or> f_CreatedBy f = username)"
    by (auto simp: delete_rows_def may_touch_def)
  have l: "db_links d' = map (\<lambda>l. if l_FolderID l = Some i then l\<lparr>l_FolderID := None\<rparr> else l) (db_links d)"
    using assms(2) None
    by (auto simp: FolderService_Delete_def release_links_def update_rows_def split: if_splits option.splits)
  have "folders_ok d'"
    using assms(1) keys
    by (auto simp: folders_ok_def f(1) l distinct_map_filter split: if_splits)
  with f l None show ?thesis by simp
qed

definition example_folder :: folder where
  "example_folder = \<lparr>f_ID = ''f1'', f_Name = ''Work'', f_Color = ''#fff'', f_CreatedBy = ''ana'', f_CreatedAt = 1\<rparr>"

definition folder_db :: db where
  "folder_db = empty_db\<lparr>db_folders := [example_folder],
     db_links := [zero_link\<lparr>l_ID := ''u1'', l_FolderID := Some ''f1''\<rparr>]\<rparr>"

theorem Folder_Delete_no_dangling_witness:
  "\<exists>d'. FolderService_Delete (\<lambda>q. False) ''f1'' ''ana'' False folder_db = (d', None) \<and>
     folders_ok d' \<and> db_folders d' = []"
proof -
  have ok: "folders_ok folder_db" by (simp add: folders_ok_def folder_db_def example_folder_def)
  obtain d' where d': "FolderService_Delete (\<lambda>q. False) ''f1'' ''ana'' False folder_db = (d', None)"
    by (simp add: FolderService_Delete_def owned_delete_def may_touch_def delete_rows_def folder_db_def example_folder_def)
  from Folder_Delete_no_dangling [OF ok d'] have "folders_ok d' \<and> db_folders d' = []"
    by (simp add: folder_db_def example_folder_def)
  with d' show ?thesis by blast
qed

end
