(* ===== verification/Cache.thy ===== *)
theory Cache
  imports Models
begin

text \<open>
  The LRU link cache, internal/services/cache.go.

  The Go cache is two linked structures: \<open>items\<close>, a map from keys to list elements, and
  \<open>evictList\<close>, a doubly linked list of elements with the most recently used in front. An
  element is a pointer; here a pointer is a natural number, \<open>lc_items\<close> maps a key to a
  pointer, and \<open>lc_evict\<close> lists the live elements with their values, front first.
  \<open>lc_inv\<close> says the two agree. Under it the cache refines \<open>lru\<close>, a plain list of
  \<open>(key, link, time)\<close> entries: \<open>lc_abs\<close> is the abstraction, and every operation commutes
  with its abstract counterpart (\<open>*_abs\<close>).

  The locale \<open>slug_cache\<close> is the contract the link service relies on: what a lookup may
  return after each operation. It is interpreted on the operations of this theory.
\<close>

section \<open>The cache of the program\<close>

record cache_entry =
  ce_key :: string
  ce_link :: link
  ce_cachedAt :: time

record link_cache =
  lc_capacity :: int
  lc_items :: "string \<rightharpoonup> nat"
  lc_evict :: "(nat \<times> cache_entry) list"
  lc_next :: nat
  lc_ttl :: int

definition NewLinkCache :: "int \<Rightarrow> int \<Rightarrow> link_cache" where
  "NewLinkCache capacity ttl =
     \<lparr>lc_capacity = (if capacity \<le> 0 then 10000 else capacity),
      lc_items = Map.empty, lc_evict = [], lc_next = 0,
      lc_ttl = (if ttl \<le> 0 then 15 * minute_ns else ttl)\<rparr>"

definition FormatCacheKey :: "string \<Rightarrow> string \<Rightarrow> string" where
  "FormatCacheKey domain slug = (if domain = [] then slug else domain @ '':'' @ slug)"

text \<open>Package \<open>container/list\<close>: removal and \<open>MoveToFront\<close> of an element by its pointer.\<close>

definition list_remove :: "nat \<Rightarrow> (nat \<times> 'e) list \<Rightarrow> (nat \<times> 'e) list" where
  "list_remove p es = filter (\<lambda>e. fst e \<noteq> p) es"

definition move_to_front :: "nat \<Rightarrow> (nat \<times> 'e) list \<Rightarrow> (nat \<times> 'e) list" where
  "move_to_front p es =
     (case map_of es p of None \<Rightarrow> es | Some v \<Rightarrow> (p, v) # list_remove p es)"

definition removeElement :: "nat \<Rightarrow> cache_entry \<Rightarrow> link_cache \<Rightarrow> link_cache" where
  "removeElement p en c = c\<lparr>lc_evict := list_remove p (lc_evict c),
                            lc_items := (lc_items c)(ce_key en := None)\<rparr>"

definition evictOldest :: "link_cache \<Rightarrow> link_cache" where
  "evictOldest c =
     (if lc_evict c = [] then c
      else removeElement (fst (last (lc_evict c))) (snd (last (lc_evict c))) c)"

text \<open>The element a lookup chooses: the key's own, else (for a named domain) the bare slug's.\<close>

definition find_elem :: "string \<Rightarrow> string \<Rightarrow> link_cache \<Rightarrow> nat option" where
  "find_elem domain slug c =
     (case lc_items c (FormatCacheKey domain slug) of
        Some p \<Rightarrow> Some p
      | None \<Rightarrow> (if domain \<noteq> [] then lc_items c slug else None))"

definition LinkCache_Get ::
  "time \<Rightarrow> string \<Rightarrow> string \<Rightarrow> link_cache \<Rightarrow> link_cache \<times> link option" where
  "LinkCache_Get now domain slug c =
     (case find_elem domain slug c of
        None \<Rightarrow> (c, None)
      | Some p \<Rightarrow>
          (case map_of (lc_evict c) p of
             None \<Rightarrow> (c, None)
           | Some en \<Rightarrow>
               if now - ce_cachedAt en > lc_ttl c then (removeElement p en c, None)
               else (c\<lparr>lc_evict := move_to_front p (lc_evict c)\<rparr>, Some (ce_link en))))"

definition set_value :: "nat \<Rightarrow> 'e \<Rightarrow> (nat \<times> 'e) list \<Rightarrow> (nat \<times> 'e) list" where
  "set_value p v es = map (\<lambda>(q, w). if q = p then (q, v) else (q, w)) es"

definition LinkCache_Set ::
  "time \<Rightarrow> string \<Rightarrow> string \<Rightarrow> link option \<Rightarrow> link_cache \<Rightarrow> link_cache" where
  "LinkCache_Set now domain slug lp c =
     (case lp of
        None \<Rightarrow> c
      | Some l \<Rightarrow>
          let key = FormatCacheKey domain slug in
          (case lc_items c key of
             Some p \<Rightarrow>
               c\<lparr>lc_evict := set_value p \<lparr>ce_key = key, ce_link = l, ce_cachedAt = now\<rparr>
                               (move_to_front p (lc_evict c))\<rparr>
           | None \<Rightarrow>
               let c' = (if int (length (lc_evict c)) \<ge> lc_capacity c then evictOldest c else c);
                   p = lc_next c'
               in c'\<lparr>lc_evict := (p, \<lparr>ce_key = key, ce_link = l, ce_cachedAt = now\<rparr>) # lc_evict c',
                    lc_items := (lc_items c')(key \<mapsto> p), lc_next := Suc p\<rparr>))"

definition delete_key :: "string \<Rightarrow> link_cache \<Rightarrow> link_cache" where
  "delete_key key c =
     (case lc_items c key of
        None \<Rightarrow> c
      | Some p \<Rightarrow> (case map_of (lc_evict c) p of None \<Rightarrow> c | Some en \<Rightarrow> removeElement p en c))"

definition LinkCache_Delete :: "string \<Rightarrow> string \<Rightarrow> link_cache \<Rightarrow> link_cache" where
  "LinkCache_Delete domain slug c = delete_key slug (delete_key (FormatCacheKey domain slug) c)"

definition LinkCache_Clear :: "link_cache \<Rightarrow> link_cache" where
  "LinkCache_Clear c = c\<lparr>lc_items := Map.empty, lc_evict := []\<rparr>"

definition LinkCache_Len :: "link_cache \<Rightarrow> int" where
  "LinkCache_Len c = int (length (lc_evict c))"

section \<open>The invariant and the abstraction\<close>

definition lc_inv :: "link_cache \<Rightarrow> bool" where
  "lc_inv c \<longleftrightarrow>
     distinct (map fst (lc_evict c)) \<and>
     distinct (map (ce_key \<circ> snd) (lc_evict c)) \<and>
     (\<forall>e \<in> set (lc_evict c). fst e < lc_next c) \<and>
     (\<forall>k p. lc_items c k = Some p \<longleftrightarrow> (\<exists>en. (p, en) \<in> set (lc_evict c) \<and> ce_key en = k)) \<and>
     0 < lc_capacity c \<and> 0 < lc_ttl c \<and> LinkCache_Len c \<le> lc_capacity c"

type_synonym lru = "(string \<times> link \<times> time) list"

definition abs_entry :: "nat \<times> cache_entry \<Rightarrow> string \<times> link \<times> time" where
  "abs_entry e = (ce_key (snd e), ce_link (snd e), ce_cachedAt (snd e))"

definition lc_abs :: "link_cache \<Rightarrow> lru" where
  "lc_abs c = map abs_entry (lc_evict c)"

definition lru_drop :: "string \<Rightarrow> lru \<Rightarrow> lru" where
  "lru_drop k xs = filter (\<lambda>e. fst e \<noteq> k) xs"

definition lru_pick :: "string \<Rightarrow> string \<Rightarrow> lru \<Rightarrow> string option" where
  "lru_pick domain slug xs =
     (if FormatCacheKey domain slug \<in> fst ` set xs then Some (FormatCacheKey domain slug)
      else if domain \<noteq> [] \<and> slug \<in> fst ` set xs then Some slug else None)"

definition lru_get :: "int \<Rightarrow> time \<Rightarrow> string \<Rightarrow> string \<Rightarrow> lru \<Rightarrow> lru \<times> link option" where
  "lru_get ttl now domain slug xs =
     (case lru_pick domain slug xs of
        None \<Rightarrow> (xs, None)
      | Some k \<Rightarrow>
          (case map_of xs k of
             None \<Rightarrow> (xs, None)
           | Some (l, t) \<Rightarrow>
               if now - t > ttl then (lru_drop k xs, None)
               else ((k, l, t) # lru_drop k xs, Some l)))"

definition lru_set :: "int \<Rightarrow> time \<Rightarrow> string \<Rightarrow> link \<Rightarrow> lru \<Rightarrow> lru" where
  "lru_set cap now k l xs =
     (if k \<in> fst ` set xs then (k, l, now) # lru_drop k xs
      else (k, l, now) # (if cap \<le> int (length xs) then butlast xs else xs))"

definition lru_delete :: "string \<Rightarrow> string \<Rightarrow> lru \<Rightarrow> lru" where
  "lru_delete domain slug xs = lru_drop slug (lru_drop (FormatCacheKey domain slug) xs)"

section \<open>Refinement of the list\<close>

lemma inv_distinct:
  "lc_inv c \<Longrightarrow> distinct (map fst (lc_evict c)) \<and> distinct (map (ce_key \<circ> snd) (lc_evict c))"
  by (simp add: lc_inv_def)

lemma inv_len: "lc_inv c \<Longrightarrow> LinkCache_Len c \<le> lc_capacity c"
  by (simp add: lc_inv_def)

lemma inv_items: "lc_inv c \<Longrightarrow>
  lc_items c k = Some p \<longleftrightarrow> (\<exists>en. (p, en) \<in> set (lc_evict c) \<and> ce_key en = k)"
  by (simp add: lc_inv_def)

lemma inv_deref:
  "lc_inv c \<Longrightarrow> map_of (lc_evict c) p = Some en \<longleftrightarrow> (p, en) \<in> set (lc_evict c)"
  by (simp add: lc_inv_def)

lemma inv_ptr_key:
  assumes "lc_inv c" and "(p, en) \<in> set (lc_evict c)" and "(q, em) \<in> set (lc_evict c)"
  shows "p = q \<longleftrightarrow> ce_key en = ce_key em"
  using inv_distinct [OF assms(1)] assms(2,3)
  by (auto dest: distinct_map_inj [of fst _ "(p, en)" "(q, em)"]
      distinct_map_inj [of "ce_key \<circ> snd" _ "(p, en)" "(q, em)"])

lemma inv_item_entry:
  assumes "lc_inv c" and "lc_items c k = Some p"
  obtains en where "(p, en) \<in> set (lc_evict c)" and "map_of (lc_evict c) p = Some en"
    and "ce_key en = k"
  using assms by (auto simp: inv_items inv_deref)

lemma items_dom_abs: "lc_inv c \<Longrightarrow> (\<exists>p. lc_items c k = Some p) \<longleftrightarrow> k \<in> fst ` set (lc_abs c)"
  by (force simp: inv_items lc_abs_def abs_entry_def)

lemma items_none_abs: "lc_inv c \<Longrightarrow> lc_items c k = None \<longleftrightarrow> k \<notin> fst ` set (lc_abs c)"
  using items_dom_abs [of c k] by (cases "lc_items c k") auto

lemma abs_keys: "map fst (lc_abs c) = map (ce_key \<circ> snd) (lc_evict c)"
  by (simp add: lc_abs_def abs_entry_def)

lemma abs_distinct: "lc_inv c \<Longrightarrow> distinct (map fst (lc_abs c))"
  by (simp add: abs_keys inv_distinct)

lemma abs_map_of:
  "lc_inv c \<Longrightarrow> (p, en) \<in> set (lc_evict c) \<Longrightarrow>
   map_of (lc_abs c) (ce_key en) = Some (ce_link en, ce_cachedAt en)"
  by (rule map_of_is_SomeI) (simp add: abs_distinct, force simp: lc_abs_def abs_entry_def)

lemma abs_length: "length (lc_abs c) = length (lc_evict c)"
  by (simp add: lc_abs_def)

lemma list_remove_by_key:
  assumes "lc_inv c" and "(p, en) \<in> set (lc_evict c)"
  shows "list_remove p (lc_evict c) = filter (\<lambda>e. ce_key (snd e) \<noteq> ce_key en) (lc_evict c)"
  unfolding list_remove_def
proof (rule filter_cong)
  fix e assume "e \<in> set (lc_evict c)"
  then show "(fst e \<noteq> p) = (ce_key (snd e) \<noteq> ce_key en)"
    using inv_ptr_key [OF assms(1), of "fst e" "snd e" p en] assms(2) by simp
qed simp

lemma abs_list_remove:
  assumes "lc_inv c" and "(p, en) \<in> set (lc_evict c)"
  shows "map abs_entry (list_remove p (lc_evict c)) = lru_drop (ce_key en) (lc_abs c)"
  by (simp add: list_remove_by_key [OF assms] lru_drop_def lc_abs_def filter_map comp_def
      abs_entry_def)

lemma removeElement_inv:
  assumes i: "lc_inv c" and e: "(p, en) \<in> set (lc_evict c)"
  shows "lc_inv (removeElement p en c)"
proof -
  let ?c = "removeElement p en c"
  have "int (length (filter (\<lambda>e. fst e \<noteq> p) (lc_evict c))) \<le> lc_capacity c"
    using i length_filter_le [of "\<lambda>e. fst e \<noteq> p" "lc_evict c"]
    unfolding lc_inv_def LinkCache_Len_def by linarith
  moreover have "lc_items ?c k = Some q \<longleftrightarrow> (\<exists>em. (q, em) \<in> set (lc_evict ?c) \<and> ce_key em = k)" for k q
  proof (cases "k = ce_key en")
    case True
    with inv_ptr_key [OF i e, of q] show ?thesis
      by (simp add: removeElement_def list_remove_def) metis
  next
    case False
    with inv_items [OF i, of k q] inv_ptr_key [OF i e, of q] show ?thesis
      by (fastforce simp: removeElement_def list_remove_def)
  qed
  ultimately show ?thesis
    using i unfolding lc_inv_def LinkCache_Len_def
    by (auto simp: removeElement_def list_remove_def intro: distinct_map_filter)
qed

lemma removeElement_abs:
  "lc_inv c \<Longrightarrow> (p, en) \<in> set (lc_evict c) \<Longrightarrow>
   lc_abs (removeElement p en c) = lru_drop (ce_key en) (lc_abs c)"
  using abs_list_remove [of c p en] by (simp add: lc_abs_def removeElement_def)

lemma find_elem_pick:
  assumes "lc_inv c"
  shows "find_elem domain slug c =
    (case lru_pick domain slug (lc_abs c) of None \<Rightarrow> None | Some k \<Rightarrow> lc_items c k)"
proof (cases "lc_items c (FormatCacheKey domain slug)")
  case None
  with items_none_abs [OF assms, of "FormatCacheKey domain slug"] items_none_abs [OF assms, of slug]
  show ?thesis by (simp add: find_elem_def lru_pick_def)
next
  case (Some p)
  with items_dom_abs [OF assms, of "FormatCacheKey domain slug"]
  show ?thesis by (simp add: find_elem_def lru_pick_def)
qed

lemma lru_pick_Some: "lru_pick domain slug xs = Some k \<Longrightarrow> k \<in> fst ` set xs"
  by (auto simp: lru_pick_def split: if_splits)

lemma lc_inv_reorder:
  assumes "lc_inv c" and m: "mset es = mset (lc_evict c)"
  shows "lc_inv (c\<lparr>lc_evict := es\<rparr>)"
proof -
  from m have "set es = set (lc_evict c)" and "length es = length (lc_evict c)"
    by (rule mset_eq_setD, rule mset_eq_length)
  with assms(1) show ?thesis
    using distinct_map_mset [OF m, of fst] distinct_map_mset [OF m, of "ce_key \<circ> snd"]
    by (simp add: lc_inv_def LinkCache_Len_def)
qed

lemma move_to_front_inv:
  assumes i: "lc_inv c" and e: "(p, en) \<in> set (lc_evict c)"
  shows "lc_inv (c\<lparr>lc_evict := move_to_front p (lc_evict c)\<rparr>)"
    and "lc_abs (c\<lparr>lc_evict := move_to_front p (lc_evict c)\<rparr>) =
      (ce_key en, ce_link en, ce_cachedAt en) # lru_drop (ce_key en) (lc_abs c)"
proof -
  let ?es = "list_remove p (lc_evict c)"
  have m: "move_to_front p (lc_evict c) = (p, en) # ?es"
    using e by (simp add: move_to_front_def flip: inv_deref [OF i])
  have s: "set ((p, en) # ?es) = set (lc_evict c)"
  proof (rule set_eqI)
    fix x
    have "x \<in> set (lc_evict c) \<Longrightarrow> fst x = p \<Longrightarrow> x = (p, en)"
      using inv_deref [OF i, of p "snd x"] inv_deref [OF i, of p en] e by (cases x) auto
    then show "x \<in> set ((p, en) # ?es) \<longleftrightarrow> x \<in> set (lc_evict c)"
      using e by (auto simp: list_remove_def)
  qed
  have "distinct (lc_evict c)"
    using i by (simp add: lc_inv_def distinct_map)
  then have "mset ((p, en) # ?es) = mset (lc_evict c)"
    using s by (intro set_eq_iff_mset_eq_distinct [THEN iffD1]) (auto simp: list_remove_def)
  then show "lc_inv (c\<lparr>lc_evict := move_to_front p (lc_evict c)\<rparr>)"
    unfolding m by (rule lc_inv_reorder [OF i])
  show "lc_abs (c\<lparr>lc_evict := move_to_front p (lc_evict c)\<rparr>) =
      (ce_key en, ce_link en, ce_cachedAt en) # lru_drop (ce_key en) (lc_abs c)"
    using abs_list_remove [OF i e] by (simp add: m lc_abs_def abs_entry_def)
qed

theorem LinkCache_Get_abs:
  assumes i: "lc_inv c"
  shows "lc_inv (fst (LinkCache_Get now domain slug c))"
    and "(lc_abs (fst (LinkCache_Get now domain slug c)), snd (LinkCache_Get now domain slug c)) =
      lru_get (lc_ttl c) now domain slug (lc_abs c)"
proof -
  consider (none) "lru_pick domain slug (lc_abs c) = None"
    | (some) k p en where "lru_pick domain slug (lc_abs c) = Some k" "lc_items c k = Some p"
      "(p, en) \<in> set (lc_evict c)" "map_of (lc_evict c) p = Some en" "ce_key en = k"
    using lru_pick_Some [of domain slug "lc_abs c"] items_dom_abs [OF i]
    by (metis i inv_item_entry not_None_eq)
  then have "lc_inv (fst (LinkCache_Get now domain slug c)) \<and>
      (lc_abs (fst (LinkCache_Get now domain slug c)), snd (LinkCache_Get now domain slug c)) =
      lru_get (lc_ttl c) now domain slug (lc_abs c)"
  proof cases
    case none
    with i show ?thesis
      by (simp add: LinkCache_Get_def lru_get_def find_elem_pick)
  next
    case (some k p en)
    with i abs_map_of [OF i some(3)] removeElement_inv [OF i some(3)]
        removeElement_abs [OF i some(3)] move_to_front_inv [OF i some(3)]
    show ?thesis by (simp add: LinkCache_Get_def lru_get_def find_elem_pick)
  qed
  then show "lc_inv (fst (LinkCache_Get now domain slug c))"
    and "(lc_abs (fst (LinkCache_Get now domain slug c)), snd (LinkCache_Get now domain slug c)) =
      lru_get (lc_ttl c) now domain slug (lc_abs c)" by blast+
qed


definition slots :: "(nat \<times> cache_entry) list \<Rightarrow> (nat \<times> string) list" where
  "slots es = map (\<lambda>e. (fst e, ce_key (snd e))) es"

lemma slots_projections:
  "map fst (slots es) = map fst es" "map snd (slots es) = map (ce_key \<circ> snd) es"
  "length (slots es) = length es"
  "(\<exists>en. (p, en) \<in> set es \<and> ce_key en = k) \<longleftrightarrow> (p, k) \<in> set (slots es)"
  "(\<forall>e\<in>set es. fst e < n) \<longleftrightarrow> (\<forall>q\<in>set (slots es). fst q < n)"
  by (force simp: slots_def comp_def)+

lemma lc_inv_slots: "lc_inv c \<longleftrightarrow>
    distinct (map fst (slots (lc_evict c))) \<and> distinct (map snd (slots (lc_evict c))) \<and>
    (\<forall>q\<in>set (slots (lc_evict c)). fst q < lc_next c) \<and>
    (\<forall>k p. lc_items c k = Some p \<longleftrightarrow> (p, k) \<in> set (slots (lc_evict c))) \<and>
    0 < lc_capacity c \<and> 0 < lc_ttl c \<and> int (length (slots (lc_evict c))) \<le> lc_capacity c"
  unfolding lc_inv_def LinkCache_Len_def slots_projections ..

lemma lc_inv_revalue:
  "lc_inv c \<Longrightarrow> slots es = slots (lc_evict c) \<Longrightarrow> lc_inv (c\<lparr>lc_evict := es\<rparr>)"
  by (simp add: lc_inv_slots)

lemma lru_drop_butlast:
  assumes "distinct (map fst xs)" and "xs \<noteq> []"
  shows "lru_drop (fst (last xs)) xs = butlast xs"
proof -
  obtain ys y where xs: "xs = ys @ [y]" using assms(2) by (metis append_butlast_last_id)
  with assms(1) have "\<forall>e\<in>set ys. fst e \<noteq> fst y" by (auto simp: image_iff)
  then show ?thesis by (simp add: xs lru_drop_def)
qed

lemma evictOldest_inv:
  assumes i: "lc_inv c" and ne: "lc_evict c \<noteq> []"
  shows "lc_inv (evictOldest c)" and "lc_abs (evictOldest c) = butlast (lc_abs c)"
    and "length (lc_evict (evictOldest c)) < length (lc_evict c)"
proof -
  have l: "(fst (last (lc_evict c)), snd (last (lc_evict c))) \<in> set (lc_evict c)"
    using ne by simp
  show "lc_inv (evictOldest c)"
    using removeElement_inv [OF i l] ne by (simp add: evictOldest_def)
  have "lc_abs c \<noteq> []" and "last (lc_abs c) = abs_entry (last (lc_evict c))"
    using ne by (simp_all add: lc_abs_def last_map)
  then show a: "lc_abs (evictOldest c) = butlast (lc_abs c)"
    using removeElement_abs [OF i l] lru_drop_butlast [OF abs_distinct [OF i]] ne
    by (simp add: evictOldest_def abs_entry_def)
  show "length (lc_evict (evictOldest c)) < length (lc_evict c)"
    using arg_cong [OF a, of length] ne by (simp add: abs_length)
qed

lemma push_inv:
  assumes i: "lc_inv c" and n: "lc_items c k = None" and len: "LinkCache_Len c < lc_capacity c"
    and key: "ce_key en = k"
  shows "lc_inv (c\<lparr>lc_evict := (lc_next c, en) # lc_evict c,
      lc_items := (lc_items c)(k \<mapsto> lc_next c), lc_next := Suc (lc_next c)\<rparr>)"
proof -
  have f: "e \<in> set (lc_evict c) \<Longrightarrow> fst e < lc_next c" for e using i by (simp add: lc_inv_def)
  have k: "(p, em) \<in> set (lc_evict c) \<Longrightarrow> ce_key em \<noteq> k" for p em
    using n inv_items [OF i, of k p] by auto
  have it: "((lc_items c)(k \<mapsto> lc_next c)) j = Some p \<longleftrightarrow>
      (p, j) \<in> set (slots ((lc_next c, en) # lc_evict c))" for j p
  proof (cases "j = k")
    case True
    with k [of p] key show ?thesis by (fastforce simp: slots_def)
  next
    case False
    with i key show ?thesis by (auto simp: lc_inv_slots slots_def)
  qed
  have "lc_next c \<notin> set (map fst (slots (lc_evict c)))" and "k \<notin> set (map snd (slots (lc_evict c)))"
    using f k by (force simp: slots_def)+
  then show ?thesis
    using i len key it f unfolding lc_inv_slots LinkCache_Len_def
    by (simp add: slots_def less_Suc_eq)
qed

theorem LinkCache_Set_abs:
  assumes i: "lc_inv c"
  shows "lc_inv (LinkCache_Set now domain slug (Some l) c) \<and>
    lc_abs (LinkCache_Set now domain slug (Some l) c) =
      lru_set (lc_capacity c) now (FormatCacheKey domain slug) l (lc_abs c)"
proof (cases "lc_items c (FormatCacheKey domain slug)")
  case (Some p)
  let ?k = "FormatCacheKey domain slug" and ?new = "\<lparr>ce_key = FormatCacheKey domain slug, ce_link = l, ce_cachedAt = now\<rparr>"
  obtain en where en: "(p, en) \<in> set (lc_evict c)" "map_of (lc_evict c) p = Some en" "ce_key en = ?k"
    using inv_item_entry [OF i Some] by blast
  have v: "set_value p ?new (move_to_front p (lc_evict c)) = (p, ?new) # list_remove p (lc_evict c)"
    using en(2) by (auto simp: move_to_front_def set_value_def list_remove_def intro!: map_idI)
  have "lc_inv ((c\<lparr>lc_evict := move_to_front p (lc_evict c)\<rparr>)\<lparr>lc_evict := (p, ?new) # list_remove p (lc_evict c)\<rparr>)"
    by (rule lc_inv_revalue [OF move_to_front_inv(1) [OF i en(1)]]) (simp add: move_to_front_def slots_def en)
  then show ?thesis
    using abs_list_remove [OF i en(1)] items_dom_abs [OF i, of ?k] Some v en(3)
    by (simp add: LinkCache_Set_def Let_def lru_set_def lc_abs_def abs_entry_def)
next
  case None
  let ?k = "FormatCacheKey domain slug" and ?full = "lc_capacity c \<le> int (length (lc_evict c))"
  define c' where "c' = (if ?full then evictOldest c else c)"
  have cap: "0 < lc_capacity c" "LinkCache_Len c \<le> lc_capacity c" using i by (simp_all add: lc_inv_def)
  have e: "?full \<Longrightarrow> lc_evict c \<noteq> []" using cap(1) by auto
  have c': "lc_inv c'" "lc_abs c' = (if ?full then butlast (lc_abs c) else lc_abs c)"
    "LinkCache_Len c' < lc_capacity c" "lc_capacity c' = lc_capacity c"
    using evictOldest_inv [OF i e] i cap
    by (auto simp: c'_def LinkCache_Len_def evictOldest_def removeElement_def)
  have "?k \<notin> fst ` set (lc_abs c')"
    using items_none_abs [OF i, of ?k] None c'(2) by (auto dest: in_set_butlastD)
  then have "lc_items c' ?k = None" using items_none_abs [OF c'(1)] by blast
  from push_inv [OF c'(1) this, of "\<lparr>ce_key = ?k, ce_link = l, ce_cachedAt = now\<rparr>"] c' None
  show ?thesis
    using items_none_abs [OF i, of ?k]
    by (simp add: LinkCache_Set_def Let_def lru_set_def lc_abs_def abs_entry_def flip: c'_def)
qed

lemma delete_key_abs:
  "lc_inv c \<Longrightarrow> lc_inv (delete_key k c) \<and> lc_abs (delete_key k c) = lru_drop k (lc_abs c)"
proof (cases "lc_items c k")
  case None
  moreover assume "lc_inv c"
  ultimately have "k \<notin> fst ` set (lc_abs c)" by (simp add: items_none_abs)
  then have "lru_drop k (lc_abs c) = lc_abs c" by (auto simp: lru_drop_def intro!: filter_True)
  with None \<open>lc_inv c\<close> show ?thesis by (simp add: delete_key_def)
next
  case (Some p)
  assume i: "lc_inv c"
  from inv_item_entry [OF i Some] obtain en where
    "(p, en) \<in> set (lc_evict c)" "map_of (lc_evict c) p = Some en" "ce_key en = k" .
  with Some removeElement_inv [OF i this(1)] removeElement_abs [OF i this(1)]
  show ?thesis by (simp add: delete_key_def)
qed

theorem LinkCache_Delete_abs:
  "lc_inv c \<Longrightarrow> lc_inv (LinkCache_Delete domain slug c) \<and>
     lc_abs (LinkCache_Delete domain slug c) = lru_delete domain slug (lc_abs c)"
  by (simp add: LinkCache_Delete_def lru_delete_def delete_key_abs)

lemma LinkCache_Clear_abs: "lc_inv c \<Longrightarrow> lc_inv (LinkCache_Clear c) \<and> lc_abs (LinkCache_Clear c) = []"
  by (simp add: lc_inv_def LinkCache_Clear_def lc_abs_def LinkCache_Len_def)

lemma NewLinkCache_abs: "lc_inv (NewLinkCache n ttl) \<and> lc_abs (NewLinkCache n ttl) = []"
  by (simp add: lc_inv_def NewLinkCache_def lc_abs_def LinkCache_Len_def duration_defs)


section \<open>The contract the link service relies on\<close>

text \<open>What a cache holds, as a map from keys to links and the time they were stored.\<close>

definition lc_view :: "link_cache \<Rightarrow> string \<Rightarrow> (link \<times> time) option" where
  "lc_view c k = map_of (lc_abs c) k"

definition entries_ok :: "(string \<Rightarrow> (link \<times> time) option) \<Rightarrow> (string \<Rightarrow> link \<Rightarrow> bool) \<Rightarrow> bool" where
  "entries_ok v P \<longleftrightarrow> (\<forall>k l t. v k = Some (l, t) \<longrightarrow> P k l)"

lemma entries_okD: "entries_ok v P \<Longrightarrow> v k = Some (l, t) \<Longrightarrow> P k l"
  by (simp add: entries_ok_def)

lemma entries_ok_le: "entries_ok v P \<Longrightarrow> w \<subseteq>\<^sub>m v \<Longrightarrow> entries_ok w P"
  unfolding entries_ok_def map_le_def by (metis domI)

lemma entries_ok_mono: "entries_ok v P \<Longrightarrow> (\<And>k l. P k l \<Longrightarrow> Q k l) \<Longrightarrow> entries_ok v Q"
  by (auto simp: entries_ok_def)

locale slug_cache =
  fixes get :: "time \<Rightarrow> string \<Rightarrow> string \<Rightarrow> 'c \<Rightarrow> 'c \<times> link option"
    and put :: "time \<Rightarrow> string \<Rightarrow> string \<Rightarrow> link option \<Rightarrow> 'c \<Rightarrow> 'c"
    and del :: "string \<Rightarrow> string \<Rightarrow> 'c \<Rightarrow> 'c"
    and view :: "'c \<Rightarrow> string \<Rightarrow> (link \<times> time) option"
    and inv :: "'c \<Rightarrow> bool"
  assumes get_inv: "inv c \<Longrightarrow> inv (fst (get now d s c))"
    and put_inv: "inv c \<Longrightarrow> inv (put now d s (Some l) c)"
    and del_inv: "inv c \<Longrightarrow> inv (del d s c)"
    and get_view: "inv c \<Longrightarrow> view (fst (get now d s c)) \<subseteq>\<^sub>m view c"
    and get_hit: "inv c \<Longrightarrow> snd (get now d s c) = Some l \<Longrightarrow>
      (\<exists>t. view c (FormatCacheKey d s) = Some (l, t)) \<or>
      (d \<noteq> [] \<and> view c (FormatCacheKey d s) = None \<and> (\<exists>t. view c s = Some (l, t)))"
    and put_view: "inv c \<Longrightarrow>
      view (put now d s (Some l) c) \<subseteq>\<^sub>m (view c)(FormatCacheKey d s \<mapsto> (l, now))"
    and put_hit: "inv c \<Longrightarrow> view (put now d s (Some l) c) (FormatCacheKey d s) = Some (l, now)"
    and get_fresh: "inv c \<Longrightarrow> view c (FormatCacheKey d s) = Some (l, now) \<Longrightarrow> snd (get now d s c) = Some l"
    and del_view: "inv c \<Longrightarrow> view (del d s c) = (view c)(FormatCacheKey d s := None, s := None)"
begin

lemma get_ok: "inv c \<Longrightarrow> entries_ok (view c) P \<Longrightarrow> entries_ok (view (fst (get now d s c))) P"
  using get_view by (rule entries_ok_le [rotated])

lemma put_ok:
  assumes "inv c" and "entries_ok (view c) P" and "P (FormatCacheKey d s) l"
  shows "entries_ok (view (put now d s (Some l) c)) P"
proof (rule entries_ok_le [OF _ put_view [OF assms(1)]])
  show "entries_ok ((view c)(FormatCacheKey d s \<mapsto> (l, now))) P"
    using assms(2,3) by (simp add: entries_ok_def)
qed

lemma del_ok:
  "inv c \<Longrightarrow> entries_ok (view c) P \<Longrightarrow>
   entries_ok (view (del d s c)) (\<lambda>k l. P k l \<and> k \<noteq> FormatCacheKey d s \<and> k \<noteq> s)"
  by (auto simp: del_view entries_ok_def split: if_splits)

text \<open>Overwriting one entry replaces whatever the key held before.\<close>

lemma put_ok_except:
  assumes "inv c" and "entries_ok (view c) Q" and "\<And>k l'. k \<noteq> FormatCacheKey d s \<Longrightarrow> Q k l' \<Longrightarrow> P k l'"
    and "P (FormatCacheKey d s) l"
  shows "entries_ok (view (put now d s (Some l) c)) P"
proof (rule entries_ok_le [OF _ put_view [OF assms(1)]])
  show "entries_ok ((view c)(FormatCacheKey d s \<mapsto> (l, now))) P"
    using assms(2-4) by (simp add: entries_ok_def)
qed

lemma get_hit_ok:
  "inv c \<Longrightarrow> entries_ok (view c) P \<Longrightarrow> snd (get now d s c) = Some l \<Longrightarrow>
   P (FormatCacheKey d s) l \<or> (d \<noteq> [] \<and> view c (FormatCacheKey d s) = None \<and> P s l)"
  using get_hit [of c now d s l] entries_okD [of "view c" P] by blast

lemma get_after_put: "inv c \<Longrightarrow> snd (get now d s (put now d s (Some l) c)) = Some l"
  by (rule get_fresh [OF put_inv put_hit])

lemma get_after_del: "inv c \<Longrightarrow> snd (get now d s (del d s c)) = None"
proof (rule ccontr)
  assume i: "inv c" and "snd (get now d s (del d s c)) \<noteq> None"
  then obtain l where "snd (get now d s (del d s c)) = Some l" by blast
  from get_hit [OF del_inv [OF i] this] show False by (auto simp: del_view [OF i] split: if_splits)
qed

end

lemma lru_drop_map_of: "map_of (lru_drop k xs) = (map_of xs)(k := None)"
  by (induction xs) (auto simp: lru_drop_def fun_eq_iff)

lemma lru_get_le: "map_of (fst (lru_get ttl now d s xs)) \<subseteq>\<^sub>m map_of xs"
  by (auto simp: lru_get_def lru_drop_map_of map_le_def split: option.splits)

lemma lru_get_hit: "snd (lru_get ttl now d s xs) = Some l \<Longrightarrow>
  \<exists>k t. lru_pick d s xs = Some k \<and> map_of xs k = Some (l, t) \<and> now - t \<le> ttl"
  by (auto simp: lru_get_def split: option.splits if_splits)

lemma butlast_map_le: "distinct (map fst xs) \<Longrightarrow> map_of (butlast xs) \<subseteq>\<^sub>m map_of xs"
proof (cases xs rule: rev_cases)
  case (snoc ys y)
  moreover assume "distinct (map fst xs)"
  ultimately have "map_of ys (fst y) = None" by (simp add: map_of_eq_None_iff image_iff)
  with snoc show ?thesis by (cases y) (auto simp: map_le_def map_add_def split: option.splits)
qed simp

lemma lru_set_le:
  "distinct (map fst xs) \<Longrightarrow> map_of (lru_set cap now k l xs) \<subseteq>\<^sub>m (map_of xs)(k \<mapsto> (l, now))"
  using butlast_map_le [of xs] by (auto simp: lru_set_def lru_drop_map_of map_le_def)

interpretation lc: slug_cache LinkCache_Get LinkCache_Set LinkCache_Delete lc_view lc_inv
proof (unfold_locales, goal_cases)
  case (4 c now d s)
  then show ?case using LinkCache_Get_abs(2) [OF 4, of now d s] lru_get_le
    by (simp add: lc_view_def [abs_def] prod_eq_iff)
next
  case (5 c now d s l)
  then have "snd (lru_get (lc_ttl c) now d s (lc_abs c)) = Some l"
    using LinkCache_Get_abs(2) [of c now d s] by (simp add: prod_eq_iff)
  from lru_get_hit [OF this] show ?case
    by (auto simp: lru_pick_def lc_view_def map_of_eq_None_iff split: if_splits)
next
  case (6 c now d s l)
  then show ?case
    using lru_set_le [OF abs_distinct [OF 6], of "lc_capacity c" now "FormatCacheKey d s" l]
    by (simp add: lc_view_def [abs_def] LinkCache_Set_abs)
next
  case (7 c now d s l)
  then show ?case by (simp add: lc_view_def LinkCache_Set_abs lru_set_def)
next
  case (8 c d s l now)
  then have "0 < lc_ttl c" by (simp add: lc_inv_def)
  moreover have "FormatCacheKey d s \<in> fst ` set (lc_abs c)"
    using 8(2) by (force simp: lc_view_def dest: map_of_SomeD)
  ultimately have "snd (lru_get (lc_ttl c) now d s (lc_abs c)) = Some l"
    using 8(2) by (simp add: lru_get_def lru_pick_def lc_view_def)
  then show ?case using LinkCache_Get_abs(2) [OF 8(1), of now d s] by (simp add: prod_eq_iff)
next
  case (9 c d s)
  then show ?case
    by (simp add: lc_view_def [abs_def] LinkCache_Delete_abs lru_delete_def lru_drop_map_of)
qed (simp_all add: LinkCache_Get_abs LinkCache_Set_abs LinkCache_Delete_abs)

section \<open>Properties of the cache\<close>

text \<open>
  Claim C13. The cache of the program (a map of pointers beside a doubly linked list) is an
  LRU list: in every consistent state, \<open>Get\<close>, \<open>Set\<close> and \<open>Delete\<close> act on the list of entries
  exactly as the abstract operations do, return what they return, and leave a consistent
  state, so the cache never holds more than its capacity.
\<close>

theorem LinkCache_refines_lru:
  assumes "lc_inv c"
  shows "(lc_abs (fst (LinkCache_Get now d s c)), snd (LinkCache_Get now d s c)) =
           lru_get (lc_ttl c) now d s (lc_abs c)
    \<and> lc_abs (LinkCache_Set now d s (Some l) c) =
           lru_set (lc_capacity c) now (FormatCacheKey d s) l (lc_abs c)
    \<and> lc_abs (LinkCache_Delete d s c) = lru_delete d s (lc_abs c)
    \<and> lc_inv (fst (LinkCache_Get now d s c)) \<and> lc_inv (LinkCache_Set now d s (Some l) c)
    \<and> lc_inv (LinkCache_Delete d s c)"
  using assms by (simp add: LinkCache_Get_abs LinkCache_Set_abs LinkCache_Delete_abs)

theorem LinkCache_refines_lru_witness:
  "lc_inv (NewLinkCache 2 0) \<and>
   lc_abs (LinkCache_Delete ''d'' ''s'' (NewLinkCache 2 0)) = lru_delete ''d'' ''s'' (lc_abs (NewLinkCache 2 0))"
  using LinkCache_refines_lru [of "NewLinkCache 2 0"] NewLinkCache_abs [of 2 0] by blast

subsection \<open>What is used recently stays\<close>

datatype cache_op =
    CacheGet time string string
  | CacheSet time string string link
  | CacheDelete string string

fun cache_step :: "cache_op \<Rightarrow> link_cache \<Rightarrow> link_cache" where
  "cache_step (CacheGet now d s) c = fst (LinkCache_Get now d s c)"
| "cache_step (CacheSet now d s l) c = LinkCache_Set now d s (Some l) c"
| "cache_step (CacheDelete d s) c = LinkCache_Delete d s c"

fun touched :: "cache_op \<Rightarrow> string set" where
  "touched (CacheGet now d s) = {FormatCacheKey d s, s}"
| "touched (CacheSet now d s l) = {FormatCacheKey d s}"
| "touched (CacheDelete d s) = {FormatCacheKey d s, s}"

definition cache_run :: "cache_op list \<Rightarrow> link_cache \<Rightarrow> link_cache" where
  "cache_run ops c = fold cache_step ops c"

lemma cache_step_inv:
  "lc_inv c \<Longrightarrow> lc_inv (cache_step op c) \<and> lc_capacity (cache_step op c) = lc_capacity c"
proof (cases op)
  case (CacheGet now d s)
  moreover assume "lc_inv c"
  ultimately show ?thesis
    by (simp add: lc.get_inv) (auto simp: LinkCache_Get_def removeElement_def split: option.splits)
next
  case (CacheSet now d s l)
  moreover assume "lc_inv c"
  ultimately show ?thesis
    by (simp add: lc.put_inv)
      (auto simp: LinkCache_Set_def Let_def evictOldest_def removeElement_def split: option.splits)
next
  case (CacheDelete d s)
  moreover assume "lc_inv c"
  ultimately show ?thesis
    by (simp add: lc.del_inv)
      (auto simp: LinkCache_Delete_def delete_key_def removeElement_def split: option.splits)
qed

lemma cache_run_inv:
  "lc_inv c \<Longrightarrow> lc_inv (cache_run ops c) \<and> lc_capacity (cache_run ops c) = lc_capacity c"
  by (induction ops arbitrary: c) (simp_all add: cache_run_def cache_step_inv)

text \<open>\<open>in_front T k v xs\<close>: \<open>k\<close> is stored with \<open>v\<close>, behind entries of keys in \<open>T\<close> only.\<close>

definition in_front :: "string set \<Rightarrow> string \<Rightarrow> link \<times> time \<Rightarrow> lru \<Rightarrow> bool" where
  "in_front T k v xs \<longleftrightarrow> (\<exists>pre post. xs = pre @ (k, v) # post \<and> fst ` set pre \<subseteq> T \<and> k \<notin> T)"

lemma in_front_view: "in_front T k v xs \<Longrightarrow> map_of xs k = Some v"
proof -
  assume "in_front T k v xs"
  then obtain pre post where "xs = pre @ (k, v) # post" "fst ` set pre \<subseteq> T" "k \<notin> T"
    by (auto simp: in_front_def)
  moreover from this(2,3) have "map_of pre k = None" by (auto simp: map_of_eq_None_iff)
  ultimately show ?thesis by (simp add: map_add_def)
qed

lemma in_front_drop: "in_front T k v xs \<Longrightarrow> j \<in> T \<Longrightarrow> in_front T k v (lru_drop j xs)"
proof -
  assume "in_front T k v xs" and j: "j \<in> T"
  then obtain pre post where "xs = pre @ (k, v) # post" "fst ` set pre \<subseteq> T" "k \<notin> T"
    by (auto simp: in_front_def)
  with j show ?thesis unfolding in_front_def lru_drop_def
    by (intro exI [of _ "filter (\<lambda>e. fst e \<noteq> j) pre"] exI [of _ "filter (\<lambda>e. fst e \<noteq> j) post"]) auto
qed

lemma in_front_push: "in_front T k v xs \<Longrightarrow> j \<in> T \<Longrightarrow> in_front T k v ((j, w) # xs)"
proof -
  assume "in_front T k v xs" and j: "j \<in> T"
  then obtain pre post where "xs = pre @ (k, v) # post" "fst ` set pre \<subseteq> T" "k \<notin> T"
    by (auto simp: in_front_def)
  with j show ?thesis unfolding in_front_def by (intro exI [of _ "(j, w) # pre"] exI [of _ post]) auto
qed

lemma in_front_butlast:
  assumes f: "in_front T k v xs" and d: "distinct (map fst xs)" and T: "finite T"
    and j: "j \<in> T" "j \<notin> fst ` set xs" and len: "card T < length xs"
  shows "in_front T k v (butlast xs)"
proof -
  from f obtain pre post where xs: "xs = pre @ (k, v) # post" and pre: "fst ` set pre \<subseteq> T" "k \<notin> T"
    by (auto simp: in_front_def)
  have "length pre = card (fst ` set pre)"
    using d by (metis append.assoc distinct_append distinct_card length_map list.set_map map_append xs)
  also have "\<dots> \<le> card (T - {j})"
    using pre(1) j T by (intro card_mono) (auto simp: xs image_iff)
  also have "\<dots> < card T" using j T by (intro card_Diff1_less) auto
  finally have "post \<noteq> []" using len xs by auto
  with xs pre show ?thesis by (auto simp: in_front_def butlast_append)
qed

lemma cache_step_in_front:
  assumes i: "lc_inv c" and f: "in_front T k v (lc_abs c)" and t: "touched op \<subseteq> T"
    and T: "finite T" "int (card T) < lc_capacity c"
  shows "in_front T k v (lc_abs (cache_step op c))"
proof (cases op)
  case (CacheGet now d s)
  with t have ks: "FormatCacheKey d s \<in> T" "s \<in> T" by auto
  have "lc_abs (cache_step op c) = fst (lru_get (lc_ttl c) now d s (lc_abs c))"
    using LinkCache_Get_abs(2) [OF i, of now d s] CacheGet by (simp add: prod_eq_iff)
  moreover have "lru_pick d s (lc_abs c) = Some j \<Longrightarrow> j \<in> T" for j
    using ks by (auto simp: lru_pick_def split: if_splits)
  ultimately show ?thesis
    using f by (auto simp: lru_get_def in_front_drop in_front_push split: option.splits)
next
  case (CacheSet now d s l)
  with t have ks: "FormatCacheKey d s \<in> T" by auto
  with f i T CacheSet show ?thesis
    by (auto simp: LinkCache_Set_abs lru_set_def in_front_drop abs_distinct
        intro!: in_front_push in_front_butlast)
next
  case (CacheDelete d s)
  with t f i show ?thesis by (simp add: LinkCache_Delete_abs lru_delete_def in_front_drop)
qed

lemma cache_run_in_front:
  "lc_inv c \<Longrightarrow> in_front T k v (lc_abs c) \<Longrightarrow> (\<forall>op\<in>set ops. touched op \<subseteq> T) \<Longrightarrow>
   finite T \<Longrightarrow> int (card T) < lc_capacity c \<Longrightarrow> in_front T k v (lc_abs (cache_run ops c))"
  by (induction ops arbitrary: c) (simp_all add: cache_run_def cache_step_inv cache_step_in_front)

text \<open>
  Claim C35. Least recently used: a link just stored is still there, unchanged, after any
  sequence of lookups, stores and deletions that touch other keys only, as long as those are
  fewer than the capacity; and the cache never exceeds its capacity.
\<close>

theorem recently_stored_survives:
  assumes i: "lc_inv c" and k: "k = FormatCacheKey d s"
    and t: "\<forall>op\<in>set ops. touched op \<subseteq> T" and "k \<notin> T" and T: "finite T" "int (card T) < lc_capacity c"
  shows "lc_view (cache_run ops (LinkCache_Set now d s (Some l) c)) k = Some (l, now)
    \<and> LinkCache_Len (cache_run ops (LinkCache_Set now d s (Some l) c)) \<le> lc_capacity c"
proof -
  let ?c = "LinkCache_Set now d s (Some l) c"
  have c: "lc_inv ?c" "lc_capacity ?c = lc_capacity c"
    using cache_step_inv [OF i, of "CacheSet now d s l"] by auto
  have "in_front T k (l, now) (lc_abs ?c)"
    using LinkCache_Set_abs [OF i, of now d s l]
    using \<open>k \<notin> T\<close> by (simp add: in_front_def lru_set_def k) (metis append_Nil empty_subsetI image_empty list.set(1))
  from cache_run_in_front [OF c(1) this t T(1)] T(2) c(2)
  have "in_front T k (l, now) (lc_abs (cache_run ops ?c))" by simp
  moreover from cache_run_inv [OF c(1)] c(2)
  have "LinkCache_Len (cache_run ops ?c) \<le> lc_capacity c" by (metis inv_len)
  ultimately show ?thesis by (simp add: lc_view_def in_front_view)
qed

theorem recently_stored_survives_witness:
  "lc_view (cache_run [CacheSet 1 [] ''b'' zero_link, CacheGet 2 [] ''b''] (LinkCache_Set 0 [] ''a'' (Some zero_link) (NewLinkCache 2 0)))
     ''a'' = Some (zero_link, 0)"
  using recently_stored_survives [of "NewLinkCache 2 0" "''a''" "[]" "''a''"
      "[CacheSet 1 [] ''b'' zero_link, CacheGet 2 [] ''b'']" "{''b''}" 0 zero_link] NewLinkCache_abs [of 2 0]
  by (simp add: FormatCacheKey_def NewLinkCache_def)

end
