(* ===== verification/Cleaner.thy ===== *)
theory Cleaner
  imports Egress
begin

text \<open>
  The URL cleaner, internal/services/cleaner.go: every destination goes through \<open>CleanURL\<close>,
  which validates it and strips the tracking parameters of its query. The process-wide setting
  \<open>allowPrivateTargets\<close> and the instance's own host are arguments.

  \<open>CleanURL_parsed\<close> is the body of \<open>CleanURL\<close> up to the final \<open>parsed.String()\<close>; the loop that
  deletes from the map while ranging over it visits every key once, so its result is the map
  without the tracking keys and the removed keys, which are then sorted.
\<close>

datatype clean_error = EmptyURL | InvalidProtocol | InvalidFormat | DisallowedScheme string
  | NoHostname | PointsToSelf | ReservedTarget ip

definition knownTrackerParams :: "string list" where
  "knownTrackerParams =
    [''utm_source'', ''utm_medium'', ''utm_campaign'', ''utm_term'', ''utm_content'', ''utm_id'',
     ''utm_source_platform'', ''utm_creative_format'', ''utm_marketing_tactic'', ''utm_reader'',
     ''utm_name'', ''utm_cid'', ''utm_viz_id'', ''utm_pubreferrer'', ''utm_swu'',
     ''gclid'', ''gclsrc'', ''dclid'', ''gad_source'', ''gbraid'', ''wbraid'', ''_ga'', ''_gl'',
     ''fbclid'', ''fbadid'', ''fb_action_ids'', ''fb_action_types'', ''fb_source'', ''fb_ref'',
     ''action_object_map'', ''igshid'',
     ''msclkid'', ''twclid'', ''ttclid'', ''li_fat_id'', ''epik'',
     ''yclid'', ''ym_debug'', ''_openstat'', ''mc_cid'', ''mc_eid'',
     ''_hsenc'', ''_hsmi'', ''hsa_cam'', ''hsa_grp'', ''hsa_mt'', ''hsa_src'', ''hsa_ad'', ''hsa_acc'',
     ''hsa_net'', ''hsa_kw'', ''hsa_tgt'', ''hsa_ol'',
     ''mkt_tok'', ''vero_id'', ''vero_conv'', ''_kx'', ''wickedid'', ''si'', ''feature'']"

definition isTrackerParam :: "string \<Rightarrow> bool" where
  "isTrackerParam key =
     (if key \<in> set knownTrackerParams then True
      else if has_prefix key ''utm_'' \<or> has_prefix key ''hsa_'' then True
      else if has_prefix key ''ref_'' \<or> has_prefix key ''pf_rd_'' \<or> has_prefix key ''pd_rd_'' then True
      else False)"

definition is_tracker :: "string \<Rightarrow> bool" where
  "is_tracker param = isTrackerParam (to_lower param)"

definition with_protocol :: "string \<Rightarrow> clean_error + string" where
  "with_protocol trimmed =
     (if \<not> has_prefix trimmed ''http://'' \<and> \<not> has_prefix trimmed ''https://'' then
        (if contains trimmed ''://'' then Inl InvalidProtocol else Inr (''https://'' @ trimmed))
      else Inr trimmed)"

definition own_host_of :: "string \<Rightarrow> string" where
  "own_host_of ownHost = to_lower (before_char CHR '':'' ownHost)"

definition check_host :: "bool \<Rightarrow> string \<Rightarrow> string \<Rightarrow> clean_error option" where
  "check_host allowPrivate ownHost host =
     (if host = [] then Some NoHostname
      else if ownHost \<noteq> [] \<and> host = own_host_of ownHost then Some PointsToSelf
      else if \<not> allowPrivate then
        (case ParseIP host of
           Some literal \<Rightarrow> if IsBlockedIP literal then Some (ReservedTarget literal) else None
         | None \<Rightarrow> None)
      else None)"

definition kept_values :: "Values \<Rightarrow> Values" where
  "kept_values m = filter (\<lambda>(k, vs). \<not> is_tracker k) m"

definition removed_params :: "Values \<Rightarrow> string list" where
  "removed_params m = sort (filter is_tracker (map fst m))"

definition CleanURL_parsed ::
  "bool \<Rightarrow> string \<Rightarrow> string \<Rightarrow> clean_error + (URL \<times> string list)" where
  "CleanURL_parsed allowPrivate ownHost rawURL =
     (let trimmed = trim_space rawURL in
      if trimmed = [] then Inl EmptyURL
      else case with_protocol trimmed of
        Inl e \<Rightarrow> Inl e
      | Inr full \<Rightarrow>
          (case Url_Parse full of
             None \<Rightarrow> Inl InvalidFormat
           | Some parsed \<Rightarrow>
               if to_lower (u_Scheme parsed) \<notin> {''http'', ''https''}
               then Inl (DisallowedScheme (u_Scheme parsed))
               else (case check_host allowPrivate ownHost (to_lower (URL_Hostname parsed)) of
                 Some e \<Rightarrow> Inl e
               | None \<Rightarrow>
                   let q = URL_Query parsed in
                   Inr (parsed\<lparr>u_RawQuery := Values_Encode (kept_values q)\<rparr>, removed_params q))))"

definition CleanURL ::
  "bool \<Rightarrow> string \<Rightarrow> string \<Rightarrow> clean_error + (string \<times> string list)" where
  "CleanURL allowPrivate ownHost rawURL =
     (case CleanURL_parsed allowPrivate ownHost rawURL of
        Inl e \<Rightarrow> Inl e
      | Inr (u, removed) \<Rightarrow> Inr (URL_String u, removed))"

section \<open>What the cleaner keeps and removes\<close>

lemma kept_wf: "wf_values m \<Longrightarrow> wf_values (kept_values m)"
  by (auto simp: wf_values_def kept_values_def intro: distinct_map_filter)

lemma kept_map_of: "map_of (kept_values m) k = (if is_tracker k then None else map_of m k)"
  by (induction m) (auto simp: kept_values_def)

lemma CleanURL_parsedD:
  assumes "CleanURL_parsed allow own raw = Inr (u, removed)"
  obtains full parsed where "with_protocol (trim_space raw) = Inr full" "Url_Parse full = Some parsed"
    "u = parsed\<lparr>u_RawQuery := Values_Encode (kept_values (URL_Query parsed))\<rparr>"
    "removed = removed_params (URL_Query parsed)"
    "to_lower (u_Scheme parsed) \<in> {''http'', ''https''}"
    "check_host allow own (to_lower (URL_Hostname parsed)) = None"
  using assms unfolding CleanURL_parsed_def Let_def
  by (auto split: if_splits sum.splits option.splits)

text \<open>
  A query as the pairs of its pieces, in their order: what \<open>Query\<close> collects under a key, and what
  \<open>Encode\<close> writes out again.
\<close>

definition values_at :: "Values \<Rightarrow> string \<Rightarrow> string list" where
  "values_at m k = (case map_of m k of None \<Rightarrow> [] | Some vs \<Rightarrow> vs)"

lemma values_at_add: "values_at (add_value j v m) k = values_at m k @ (if j = k then [v] else [])"
  by (simp add: values_at_def add_value_def update_conv' split: option.splits)

lemma values_at_fold:
  "values_at (fold (\<lambda>(k, v) m. add_value k v m) ps m) k = values_at m k @ map snd (filter (\<lambda>p. fst p = k) ps)"
  by (induction ps arbitrary: m) (auto simp: values_at_add)

lemma values_at_parse: "values_at (parse_query q) k = map snd (filter (\<lambda>p. fst p = k) (query_pairs q))"
  by (simp add: parse_query_def values_at_fold) (simp add: values_at_def)

lemma flat_values_at:
  "distinct (map fst m) \<Longrightarrow> filter (\<lambda>p. fst p = k) (flat_values m) = map (Pair k) (values_at m k)"
proof (induction m)
  case (Cons kv m)
  obtain j vs where kv: "kv = (j, vs)" by (cases kv)
  have f: "filter (\<lambda>p. fst p = k) (map (Pair j) vs) = (if j = k then map (Pair k) vs else [])" by (induction vs) auto
  show ?case
  proof (cases "j = k")
    case True
    then have "map_of m k = None" using Cons.prems by (simp add: kv map_of_eq_None_iff)
    with Cons f True show ?thesis by (simp add: kv flat_values_def values_at_def)
  next
    case False
    with Cons f show ?thesis by (simp add: kv flat_values_def values_at_def)
  qed
qed (simp add: flat_values_def values_at_def)

lemma pairs_at: "map (Pair k) (map snd (filter (\<lambda>p. fst p = k) ps)) = filter (\<lambda>p. fst p = k) ps"
  by (induction ps) auto

lemma query_pairs_Encode: "query_pairs (Values_Encode m) = flat_values (sort_values m)"
  by (simp add: Values_Encode_def query_pairs_encode)

lemma parse_query_keys: "fst ` set (parse_query q) = fst ` set (query_pairs q)"
proof -
  have "k \<in> fst ` set (parse_query q) \<longleftrightarrow> values_at (parse_query q) k \<noteq> []" for k
    using parse_query_wf [of q] map_of_eq_None_iff [of "parse_query q" k]
    by (auto simp: wf_values_def values_at_def split: option.splits dest!: map_of_SomeD)
  moreover have "values_at (parse_query q) k \<noteq> [] \<longleftrightarrow> k \<in> fst ` set (query_pairs q)" for k
    by (auto simp: values_at_parse filter_empty_conv)
  ultimately show ?thesis by blast
qed

lemma encoded_pairs:
  "filter (\<lambda>p. fst p = k) (query_pairs (Values_Encode (kept_values (parse_query q)))) =
   (if is_tracker k then [] else filter (\<lambda>p. fst p = k) (query_pairs q))"
proof -
  let ?m = "kept_values (parse_query q)"
  have w: "wf_values ?m" by (rule kept_wf [OF parse_query_wf])
  have "filter (\<lambda>p. fst p = k) (query_pairs (Values_Encode ?m)) = map (Pair k) (values_at (sort_values ?m) k)"
    using sort_values_wf [OF w] by (simp add: query_pairs_Encode flat_values_at wf_values_def)
  also have "values_at (sort_values ?m) k = (if is_tracker k then [] else values_at (parse_query q) k)"
    by (simp add: values_at_def sort_values_map_of [OF w] kept_map_of)
  finally show ?thesis using pairs_at [of k "query_pairs q"] by (simp add: values_at_parse)
qed

text \<open>
  Claim C25. The cleaner changes nothing of a URL but its query, and of the parameters of the query
  that \<open>net/url\<close> can decode it removes the tracking parameters and no other: at every other key the
  cleaned query has the same values in the same order, at a tracking key none, and the keys reported
  as stripped are the tracking keys among the decoded ones, each once, in order. So a piece of the
  query that decodes is either kept or reported. A piece that does not decode (one with a semicolon
  or a bad percent escape) is not kept and not reported, as \<open>CleanURL_loses_semicolon_pairs\<close> shows.
\<close>

theorem CleanURL_strips_trackers_only:
  assumes "CleanURL_parsed allow own raw = Inr (u, removed)"
  shows "\<exists>full parsed. with_protocol (trim_space raw) = Inr full \<and> Url_Parse full = Some parsed \<and>
     u = parsed\<lparr>u_RawQuery := u_RawQuery u\<rparr> \<and>
     (\<forall>k. filter (\<lambda>p. fst p = k) (query_pairs (u_RawQuery u)) =
        (if is_tracker k then [] else filter (\<lambda>p. fst p = k) (query_pairs (u_RawQuery parsed)))) \<and>
     set removed = {k. is_tracker k \<and> k \<in> fst ` set (query_pairs (u_RawQuery parsed))} \<and>
     sorted removed \<and> distinct removed \<and>
     (\<forall>piece\<in>set (split_on CHR ''&'' (u_RawQuery parsed)). case query_piece piece of
        Some (k, v) \<Rightarrow> if is_tracker k then k \<in> set removed else (k, v) \<in> set (query_pairs (u_RawQuery u))
      | None \<Rightarrow> True)"
proof -
  obtain full parsed where p: "with_protocol (trim_space raw) = Inr full" "Url_Parse full = Some parsed"
    "u = parsed\<lparr>u_RawQuery := Values_Encode (kept_values (URL_Query parsed))\<rparr>"
    "removed = removed_params (URL_Query parsed)"
    by (rule CleanURL_parsedD [OF assms])
  let ?q = "u_RawQuery parsed"
  have pairs: "\<forall>k. filter (\<lambda>p. fst p = k) (query_pairs (u_RawQuery u)) =
      (if is_tracker k then [] else filter (\<lambda>p. fst p = k) (query_pairs ?q))"
    by (simp add: p(3) URL_Query_def encoded_pairs)
  have rem: "set removed = {k. is_tracker k \<and> k \<in> fst ` set (query_pairs ?q)}"
    using parse_query_keys [of ?q] by (auto simp: p(4) removed_params_def URL_Query_def)
  have "sorted removed" "distinct removed"
    using parse_query_wf [of ?q] by (simp_all add: p(4) removed_params_def wf_values_def URL_Query_def)
  moreover have "if is_tracker k then k \<in> set removed else (k, v) \<in> set (query_pairs (u_RawQuery u))"
    if "piece \<in> set (split_on CHR ''&'' ?q)" "query_piece piece = Some (k, v)" for piece k v
  proof -
    have m: "(k, v) \<in> set (query_pairs ?q)"
      using that by (force simp: query_pairs_def List.map_filter_def)
    then have "(k, v) \<in> set (filter (\<lambda>p. fst p = k) (query_pairs (u_RawQuery u)))" if "\<not> is_tracker k"
      using pairs [rule_format, of k] that by simp
    with m rem show ?thesis by force
  qed
  moreover have "u = parsed\<lparr>u_RawQuery := u_RawQuery u\<rparr>" by (simp add: p(3))
  ultimately show ?thesis using p(1,2) pairs rem
    by (intro exI [of _ full] exI [of _ parsed]) (auto split: option.split)
qed

definition example_url :: URL where
  "example_url = empty_url\<lparr>u_Scheme := ''https'', u_Host := ''e.com'', u_Path := ''/'', u_RawQuery := ''id=7''\<rparr>"

lemma CleanURL_parsedI:
  assumes "trim_space raw \<noteq> []" "with_protocol (trim_space raw) = Inr full" "Url_Parse full = Some parsed"
    "to_lower (u_Scheme parsed) \<in> {''http'', ''https''}"
    "check_host allow own (to_lower (URL_Hostname parsed)) = None"
  shows "CleanURL_parsed allow own raw =
    Inr (parsed\<lparr>u_RawQuery := Values_Encode (kept_values (URL_Query parsed))\<rparr>, removed_params (URL_Query parsed))"
  using assms by (simp add: CleanURL_parsed_def Let_def)

lemma clean_example:
  "CleanURL_parsed False [] ''https://e.com/?utm_source=n&id=7'' = Inr (example_url, [''utm_source''])"
proof -
  let ?s = "''https://e.com/?utm_source=n&id=7''"
  let ?u = "example_url\<lparr>u_RawQuery := ''utm_source=n&id=7''\<rparr>"
  have t: "trim_space ?s = ?s"
    by (rule trim_visible) (simp_all add: visible_def byte_def)
  have w: "with_protocol ?s = Inr ?s" by code_simp
  have p: "Url_Parse ?s = Some ?u" by code_simp
  have c: "to_lower (u_Scheme ?u) \<in> {''http'', ''https''}" by code_simp
  have h: "check_host False [] (to_lower (URL_Hostname ?u)) = None" by code_simp
  have k: "Values_Encode (kept_values (URL_Query ?u)) = ''id=7''" by code_simp
  have r: "removed_params (URL_Query ?u) = [''utm_source'']" by code_simp
  have e: "?u\<lparr>u_RawQuery := ''id=7''\<rparr> = example_url" by (simp add: example_url_def)
  have n: "?s \<noteq> []" by simp
  from CleanURL_parsedI [of ?s ?s ?u False "[]", unfolded t k r e, OF n w p c h] show ?thesis .
qed

lemma clean_example_string:
  "CleanURL False [] ''https://e.com/?utm_source=n&id=7'' = Inr (''https://e.com/?id=7'', [''utm_source''])"
proof -
  have "URL_String example_url = ''https://e.com/?id=7''" by code_simp
  then show ?thesis by (simp only: CleanURL_def clean_example sum.case prod.case)
qed

theorem CleanURL_strips_trackers_only_witness:
  "\<exists>parsed. Url_Parse ''https://e.com/?utm_source=n&id=7'' = Some parsed \<and>
     example_url = parsed\<lparr>u_RawQuery := ''id=7''\<rparr> \<and>
     set [''utm_source''] = {k. is_tracker k \<and> k \<in> fst ` set (query_pairs (u_RawQuery parsed))}"
proof -
  have w: "with_protocol (trim_space ''https://e.com/?utm_source=n&id=7'') = Inr ''https://e.com/?utm_source=n&id=7''"
    by code_simp
  obtain full parsed where p: "with_protocol (trim_space ''https://e.com/?utm_source=n&id=7'') = Inr full"
    "Url_Parse full = Some parsed" "example_url = parsed\<lparr>u_RawQuery := u_RawQuery example_url\<rparr>"
    "set [''utm_source''] = {k. is_tracker k \<and> k \<in> fst ` set (query_pairs (u_RawQuery parsed))}"
    using CleanURL_strips_trackers_only [OF clean_example] by blast
  have "full = ''https://e.com/?utm_source=n&id=7''" using p(1) unfolding w by (rule sum.inject(2) [THEN iffD1, symmetric])
  moreover have "u_RawQuery example_url = ''id=7''" by (simp add: example_url_def)
  ultimately show ?thesis using p(2-4) by (intro exI [of _ parsed]) simp
qed

text \<open>
  A pair of the query that the library cannot decode (here: one with a semicolon)
  is lost: whatever the rest of the URL, it changes neither the query of the cleaned URL nor
  the list of stripped parameters, so it is removed without being a tracking parameter and
  without being reported.
\<close>

lemma query_pairs_drop:
  "CHR ''&'' \<notin> set p \<Longrightarrow> CHR '';'' \<in> set p \<Longrightarrow> query_pairs (p @ ''&'' @ q) = query_pairs q"
  by (simp add: query_pairs_def split_on_append List.map_filter_simps query_piece_def)

theorem CleanURL_loses_semicolon_pairs:
  assumes "CHR ''&'' \<notin> set p" and "CHR '';'' \<in> set p"
  shows "kept_values (URL_Query (u\<lparr>u_RawQuery := p @ ''&'' @ q\<rparr>)) = kept_values (URL_Query (u\<lparr>u_RawQuery := q\<rparr>))
    \<and> removed_params (URL_Query (u\<lparr>u_RawQuery := p @ ''&'' @ q\<rparr>)) = removed_params (URL_Query (u\<lparr>u_RawQuery := q\<rparr>))"
  using query_pairs_drop [OF assms] by (simp add: URL_Query_def parse_query_def)

theorem CleanURL_loses_semicolon_pairs_witness:
  "kept_values (URL_Query (empty_url\<lparr>u_RawQuery := ''id=7;x=1&c=3''\<rparr>)) =
   kept_values (URL_Query (empty_url\<lparr>u_RawQuery := ''c=3''\<rparr>))"
  using CleanURL_loses_semicolon_pairs [of "''id=7;x=1''" "''c=3''" empty_url] by simp

text \<open>
  Claim C26. What the cleaner accepts as a destination: an http or https URL with a host that
  is not the instance's own and, unless the operator allows private targets, is not an IP
  literal of a reserved range.
\<close>

theorem CleanURL_destination_safe:
  assumes "CleanURL_parsed allow own raw = Inr (u, removed)"
  shows "to_lower (u_Scheme u) \<in> {''http'', ''https''} \<and> URL_Hostname u \<noteq> [] \<and>
    (own = [] \<or> to_lower (URL_Hostname u) \<noteq> own_host_of own) \<and>
    (allow \<or> (case ParseIP (to_lower (URL_Hostname u)) of None \<Rightarrow> True | Some ip \<Rightarrow> \<not> IsBlockedIP ip))"
proof -
  obtain full parsed where p: "u = parsed\<lparr>u_RawQuery := Values_Encode (kept_values (URL_Query parsed))\<rparr>"
    "to_lower (u_Scheme parsed) \<in> {''http'', ''https''}"
    "check_host allow own (to_lower (URL_Hostname parsed)) = None"
    by (rule CleanURL_parsedD [OF assms])
  have "URL_Hostname u = URL_Hostname parsed" by (simp add: p(1) URL_Hostname_def)
  with p(2,3) show ?thesis
    by (auto simp: p(1) check_host_def to_lower_def split: if_splits option.splits)
qed

theorem CleanURL_destination_safe_witness: "to_lower (u_Scheme example_url) \<in> {''http'', ''https''}"
  using CleanURL_destination_safe [OF clean_example] by blast

end
