(* ===== verification/Pin.thy ===== *)
theory Pin
  imports Prelude
begin

text \<open>
  PIN hashing, internal/services/pin.go. The package golang.org/x/crypto/bcrypt is not part of
  the repository: \<open>gen\<close> stands for \<open>GenerateFromPassword\<close> at one call (with the salt of that
  call; \<open>None\<close> for an error, as for an input over 72 bytes) and \<open>cmp\<close> for
  \<open>CompareHashAndPassword\<close>, true when it returns \<open>nil\<close>.
\<close>

datatype pin_error = EmptyPIN | HashFailed

definition HashPIN :: "(string \<Rightarrow> string option) \<Rightarrow> string \<Rightarrow> pin_error + string" where
  "HashPIN gen pin =
     (if length pin < 1 then Inl EmptyPIN
      else case gen pin of None \<Rightarrow> Inl HashFailed | Some h \<Rightarrow> Inr h)"

definition VerifyPIN :: "(string \<Rightarrow> string \<Rightarrow> bool) \<Rightarrow> string \<Rightarrow> string \<Rightarrow> bool" where
  "VerifyPIN cmp pin hash = (if pin = [] \<or> hash = [] then False else cmp hash pin)"

text \<open>What the services rely on: a hash is not empty, and a PIN compares equal to its own hash.\<close>

definition bcrypt_ok :: "(string \<Rightarrow> string option) \<Rightarrow> (string \<Rightarrow> string \<Rightarrow> bool) \<Rightarrow> bool" where
  "bcrypt_ok gen cmp \<longleftrightarrow> (\<forall>p h. gen p = Some h \<longrightarrow> h \<noteq> [] \<and> cmp h p)"

lemma HashPIN_Inr: "HashPIN gen pin = Inr h \<longleftrightarrow> pin \<noteq> [] \<and> gen pin = Some h"
  by (cases pin) (simp_all add: HashPIN_def split: option.splits)

lemma VerifyPIN_HashPIN: "bcrypt_ok gen cmp \<Longrightarrow> HashPIN gen pin = Inr h \<Longrightarrow> h \<noteq> [] \<and> VerifyPIN cmp pin h"
  by (auto simp: HashPIN_Inr VerifyPIN_def bcrypt_ok_def)

end
