(* ===== verification/Link_Service.thy ===== *)
theory Link_Service
  imports Database Cache Cleaner Pin
begin

text \<open>
  The link service, internal/services/link_service.go: the links table and the cache in front
  of it. Every method takes the service's mutex for its whole duration, so a method is one step
  on the pair of the database and the cache; \<open>Serving\<close> composes the steps.

  An operation reads its surroundings from an environment: the clock, the new UUID, the random
  indices \<open>crypto/rand\<close> draws for each attempt at a slug (\<open>None\<close> for an error of the source),
  bcrypt, and which of its SQL statements fail. Webhook notifications are returned as events.
\<close>

datatype link_stmt = Q_exact string string | Q_raw string string | Q_by_id | Q_list
  | Q_blocked string | Q_folder | Q_insert | Q_update | Q_delete | Q_click | Q_variants

record link_env =
  le_now :: time
  le_uuid :: string
  le_slugs :: "nat \<Rightarrow> nat \<Rightarrow> nat option"
  le_hash :: "string \<Rightarrow> string option"
  le_fault :: "link_stmt \<Rightarrow> bool"

record link_cfg =
  ls_ownHost :: string
  ls_allowPrivate :: bool
  ls_webhooks :: bool

record link_service =
  ls_db :: db
  ls_cache :: link_cache

datatype link_error = LE_Clean clean_error | LE_BadURL | LE_Quarantined string
  | LE_SlugLength | LE_SlugChars | LE_SlugReserved string | LE_SlugInUse string
  | LE_Pin pin_error | LE_Save | LE_NotFound | LE_Sql | LE_Expired | LE_Unauthorized
  | LE_FolderNotFound | LE_RedirectType | LE_IOS clean_error | LE_Android clean_error
  | LE_UpdateFailed | LE_DeleteFailed

type_synonym event = "string \<times> link \<times> string"

definition dispatch :: "link_cfg \<Rightarrow> string \<Rightarrow> link \<Rightarrow> event list" where
  "dispatch cfg name l = (if ls_webhooks cfg then [(name, l, l_CreatedBy l)] else [])"

section \<open>Slugs\<close>

definition charset :: string where
  "charset = ''23456789abcdefghjkmnpqrstuvwxyzABCDEFGHJKLMNPQRSTUVWXYZ''"

definition reservedSlugs :: "string list" where
  "reservedSlugs = [''api'', ''auth'', ''preview'', ''pin'', ''static'', ''assets'', ''dashboard'',
     ''settings'', ''health'', ''healthz'', ''favicon.ico'', ''robots.txt'', ''login'', ''logout'', ''admin'']"

definition slug_char :: "char \<Rightarrow> bool" where
  "slug_char c = (is_alnum c \<or> c = CHR ''_'' \<or> c = CHR ''-'')"

definition slugRegex :: "string \<Rightarrow> bool" where
  "slugRegex s = (2 \<le> length s \<and> length s \<le> 64 \<and> list_all slug_char s)"

definition ValidateCustomSlug :: "string \<Rightarrow> link_error option" where
  "ValidateCustomSlug slug =
     (if length slug < 2 \<or> length slug > 64 then Some LE_SlugLength
      else if \<not> slugRegex slug then Some LE_SlugChars
      else if to_lower slug \<in> set reservedSlugs then Some (LE_SlugReserved slug)
      else None)"

definition generateRandomSlug :: "(nat \<Rightarrow> nat option) \<Rightarrow> nat \<Rightarrow> string" where
  "generateRandomSlug rnd n =
     map (\<lambda>i. case rnd i of
            None \<Rightarrow> charset ! (i mod length charset)
          | Some v \<Rightarrow> charset ! (v mod length charset)) [0..<n]"

section \<open>Queries\<close>

definition scan_row :: "bool \<Rightarrow> link option \<Rightarrow> link_error + link" where
  "scan_row fault r =
     (case query_row fault r of
        Inl NoRows \<Rightarrow> Inl LE_NotFound
      | Inl SqlFault \<Rightarrow> Inl LE_Sql
      | Inr l \<Rightarrow> Inr (scan_link l))"

definition GetBySlugExact :: "link_env \<Rightarrow> string \<Rightarrow> string \<Rightarrow> db \<Rightarrow> link_error + link" where
  "GetBySlugExact env domain slug d =
     scan_row (le_fault env (Q_exact domain slug))
       (first_row (filter (\<lambda>l. l_Slug l = slug \<and> l_Domain l = domain) (db_links d)))"

definition GetBySlugRaw :: "link_env \<Rightarrow> string \<Rightarrow> string \<Rightarrow> db \<Rightarrow> link_error + link" where
  "GetBySlugRaw env domain slug d =
     scan_row (le_fault env (Q_raw domain slug))
       (if domain \<noteq> [] then
          first_row (order_desc l_Domain
            (filter (\<lambda>l. l_Slug l = slug \<and> (l_Domain l = domain \<or> l_Domain l = [])) (db_links d)))
        else first_row (filter (\<lambda>l. l_Slug l = slug \<and> l_Domain l = []) (db_links d)))"

definition GetByID :: "link_env \<Rightarrow> string \<Rightarrow> db \<Rightarrow> link_error + link" where
  "GetByID env i d = scan_row (le_fault env Q_by_id) (by_id i (db_links d))"

fun scanLinks :: "link list \<Rightarrow> link list" where
  "scanLinks [] = []"
| "scanLinks (row # rows) = scan_link row # scanLinks rows"

lemma scanLinks_map [simp]: "scanLinks rows = map scan_link rows"
  by (induction rows) simp_all

definition ListByUser :: "link_env \<Rightarrow> string \<Rightarrow> bool \<Rightarrow> db \<Rightarrow> link_error + link list" where
  "ListByUser env username isAdmin d =
     (if le_fault env Q_list then Inl LE_Sql
      else Inr (scanLinks (order_desc l_CreatedAt
        (if isAdmin then db_links d else filter (\<lambda>l. l_CreatedBy l = username) (db_links d)))))"

text \<open>The \<open>COUNT\<close> keeps its initial 0 when the query fails.\<close>

definition checkDomainBlocked :: "link_env \<Rightarrow> string \<Rightarrow> db \<Rightarrow> link_error option" where
  "checkDomainBlocked env targetURL d =
     (case Url_Parse targetURL of
        None \<Rightarrow> Some LE_BadURL
      | Some parsed \<Rightarrow>
          let domain = to_lower (URL_Hostname parsed);
              count = (if le_fault env (Q_blocked domain) then 0
                       else length (filter (\<lambda>b. bd_Domain b = domain) (db_blocked_domains d)))
          in if count > 0 then Some (LE_Quarantined domain) else None)"

fun unique_slug_from :: "link_env \<Rightarrow> string \<Rightarrow> db \<Rightarrow> nat \<Rightarrow> nat \<Rightarrow> string" where
  "unique_slug_from env domain d attempt 0 = generateRandomSlug (le_slugs env attempt) 8"
| "unique_slug_from env domain d attempt (Suc left) =
     (let slug = generateRandomSlug (le_slugs env attempt) 6 in
      if to_lower slug \<in> set reservedSlugs then unique_slug_from env domain d (Suc attempt) left
      else (case GetBySlugRaw env domain slug d of
              Inl _ \<Rightarrow> slug
            | Inr _ \<Rightarrow> unique_slug_from env domain d (Suc attempt) left))"

definition generateUniqueSlug :: "link_env \<Rightarrow> string \<Rightarrow> db \<Rightarrow> string" where
  "generateUniqueSlug env domain d = unique_slug_from env domain d 0 10"

section \<open>Creating a link\<close>

definition clean_optional :: "link_cfg \<Rightarrow> string \<Rightarrow> string" where
  "clean_optional cfg raw =
     (if raw = [] then []
      else case CleanURL (ls_allowPrivate cfg) (ls_ownHost cfg) raw of Inl _ \<Rightarrow> [] | Inr (c, _) \<Rightarrow> c)"

definition sanitize_variant :: "link_cfg \<Rightarrow> ab_variant \<Rightarrow> ab_variant option" where
  "sanitize_variant cfg v =
     (if trim_space (av_TargetURL v) = [] then None
      else case CleanURL (ls_allowPrivate cfg) (ls_ownHost cfg) (av_TargetURL v) of
        Inl _ \<Rightarrow> None
      | Inr (c, _) \<Rightarrow> Some (v\<lparr>av_TargetURL := c\<rparr>))"

definition choose_slug :: "link_env \<Rightarrow> string \<Rightarrow> string \<Rightarrow> db \<Rightarrow> link_error + string" where
  "choose_slug env domain customSlug d =
     (let slug = trim_space customSlug in
      if slug \<noteq> [] then
        (case ValidateCustomSlug slug of
           Some e \<Rightarrow> Inl e
         | None \<Rightarrow> (case GetBySlugExact env domain slug d of
                      Inr _ \<Rightarrow> Inl (LE_SlugInUse slug)
                    | Inl _ \<Rightarrow> Inr slug))
      else Inr (generateUniqueSlug env domain d))"

definition choose_pin :: "link_env \<Rightarrow> string \<Rightarrow> link_error + (string \<times> bool)" where
  "choose_pin env pin =
     (if trim_space pin = [] then Inr ([], False)
      else case HashPIN (le_hash env) (trim_space pin) of
        Inl e \<Rightarrow> Inl (LE_Pin e)
      | Inr h \<Rightarrow> Inr (h, True))"

text \<open>\<open>time.Now().Add(time.Duration(h) * time.Hour).Unix()\<close>: the product has 64 bits.\<close>

definition in_hours :: "time \<Rightarrow> int \<Rightarrow> int" where
  "in_hours now h = unix (now + wrap64 (h * hour_ns))"

definition choose_expiry :: "time \<Rightarrow> create_link_request \<Rightarrow> int option" where
  "choose_expiry now req =
     (if pos_ptr (cr_ExpiresAt req) then cr_ExpiresAt req
      else (case cr_ExpiresInHours req of
              Some h \<Rightarrow> if h > 0 then Some (in_hours now h) else None
            | None \<Rightarrow> None))"

definition new_link ::
  "link_cfg \<Rightarrow> link_env \<Rightarrow> create_link_request \<Rightarrow> string \<Rightarrow> string \<Rightarrow> string \<Rightarrow> string \<times> bool \<Rightarrow> link" where
  "new_link cfg env req createdBy cleanTarget slug pin =
     (let title = trim_space (cr_Title req); now = unix (le_now env) in
      \<lparr>l_ID = le_uuid env, l_Slug = slug, l_Domain = to_lower (trim_space (cr_Domain req)),
       l_TargetURL = cleanTarget, l_OriginalURL = cr_URL req,
       l_Title = (if title = [] then slug else title), l_FolderID = cr_FolderID req, l_Tags = cr_Tags req,
       l_HasPIN = snd pin, l_PinHash = fst pin,
       l_RedirectType = (if cr_RedirectType req = 301 then 301 else 302),
       l_ExpiresAt = choose_expiry (le_now env) req, l_MaxClicks = cr_MaxClicks req, l_ClickCount = 0,
       l_LastClickedAt = None, l_CreatedBy = createdBy, l_IsActive = True,
       l_IOSURL = clean_optional cfg (cr_IOSURL req), l_AndroidURL = clean_optional cfg (cr_AndroidURL req),
       l_LocaleRouting = cr_LocaleRouting req,
       l_ABVariants = List.map_filter (sanitize_variant cfg) (cr_ABVariants req),
       l_CreatedAt = now, l_UpdatedAt = now\<rparr>)"

text \<open>Steps 1 to 6 of \<open>Create\<close>: the link it is going to insert, and the stripped parameters.\<close>

definition prepare_link ::
  "link_cfg \<Rightarrow> link_env \<Rightarrow> create_link_request \<Rightarrow> string \<Rightarrow> db \<Rightarrow> link_error + (link \<times> string list)" where
  "prepare_link cfg env req createdBy d =
     (case CleanURL (ls_allowPrivate cfg) (ls_ownHost cfg) (cr_URL req) of
        Inl e \<Rightarrow> Inl (LE_Clean e)
      | Inr (cleanTarget, stripped) \<Rightarrow>
     (case checkDomainBlocked env cleanTarget d of
        Some e \<Rightarrow> Inl e
      | None \<Rightarrow>
     (case choose_slug env (to_lower (trim_space (cr_Domain req))) (cr_CustomSlug req) d of
        Inl e \<Rightarrow> Inl e
      | Inr slug \<Rightarrow>
     (case choose_pin env (cr_PIN req) of
        Inl e \<Rightarrow> Inl e
      | Inr pin \<Rightarrow> Inr (new_link cfg env req createdBy cleanTarget slug pin, stripped)))))"

definition LinkService_Create ::
  "link_cfg \<Rightarrow> link_env \<Rightarrow> create_link_request \<Rightarrow> string \<Rightarrow> link_service \<Rightarrow>
   link_service \<times> (link_error + (link \<times> string list)) \<times> event list" where
  "LinkService_Create cfg env req createdBy s =
     (case prepare_link cfg env req createdBy (ls_db s) of
        Inl e \<Rightarrow> (s, Inl e, [])
      | Inr (l, stripped) \<Rightarrow>
          (case (if le_fault env Q_insert then None else insert_row l links_ok (db_links (ls_db s))) of
             None \<Rightarrow> (s, Inl LE_Save, [])
           | Some rows \<Rightarrow>
               (s\<lparr>ls_db := (ls_db s)\<lparr>db_links := rows\<rparr>,
                  ls_cache := LinkCache_Set (le_now env) (l_Domain l) (l_Slug l) (Some l) (ls_cache s)\<rparr>,
                Inr (l, stripped), dispatch cfg ''link.created'' l)))"

section \<open>Resolving a request\<close>

text \<open>The database part of \<open>Resolve\<close>: the row for the host, else the one of the root domain.\<close>

definition lookup_link :: "link_env \<Rightarrow> string \<Rightarrow> string \<Rightarrow> db \<Rightarrow> link_error + link" where
  "lookup_link env domain slug d =
     (case GetBySlugRaw env domain slug d of
        Inr l \<Rightarrow> Inr l
      | Inl e \<Rightarrow> if domain \<noteq> [] then GetBySlugRaw env [] slug d else Inl e)"

text \<open>\<open>Resolve\<close> may return a link together with an error: the two components of the result.\<close>

definition LinkService_Resolve ::
  "link_env \<Rightarrow> string \<Rightarrow> string \<Rightarrow> link_service \<Rightarrow> link_service \<times> link option \<times> link_error option" where
  "LinkService_Resolve env domain slug s =
     (case LinkCache_Get (le_now env) domain slug (ls_cache s) of
        (c, Some cached) \<Rightarrow>
          if IsExpired (le_now env) cached
          then (s\<lparr>ls_cache := LinkCache_Delete domain slug c\<rparr>, Some cached, Some LE_Expired)
          else (s\<lparr>ls_cache := c\<rparr>, Some cached, None)
      | (c, None) \<Rightarrow>
          (case lookup_link env domain slug (ls_db s) of
             Inl e \<Rightarrow> (s\<lparr>ls_cache := c\<rparr>, None, Some e)
           | Inr l \<Rightarrow>
               if IsExpired (le_now env) l then (s\<lparr>ls_cache := c\<rparr>, Some l, Some LE_Expired)
               else (s\<lparr>ls_cache := LinkCache_Set (le_now env) (l_Domain l) (l_Slug l) (Some l) c\<rparr>,
                     Some l, None)))"

section \<open>Counting a click\<close>

fun bump_variant :: "string \<Rightarrow> ab_variant list \<Rightarrow> ab_variant list" where
  "bump_variant n [] = []"
| "bump_variant n (v # vs) =
     (if av_Name v = n then v\<lparr>av_ClickCount := av_ClickCount v + 1\<rparr> # vs else v # bump_variant n vs)"

definition count_click :: "int \<Rightarrow> link \<Rightarrow> link" where
  "count_click t l = l\<lparr>l_ClickCount := l_ClickCount l + 1, l_LastClickedAt := Some t\<rparr>"

definition RecordClick ::
  "link_cfg \<Rightarrow> link_env \<Rightarrow> string \<Rightarrow> string \<Rightarrow> string \<Rightarrow> string \<Rightarrow> link_service \<Rightarrow> link_service \<times> event list" where
  "RecordClick cfg env linkID domain slug variantName s =
     (let d = ls_db s;
          d1 = (if le_fault env Q_click then d
                else d\<lparr>db_links := update_rows (\<lambda>l. l_ID l = linkID) (count_click (unix (le_now env))) (db_links d)\<rparr>)
      in case GetByID env linkID d1 of
        Inl _ \<Rightarrow> (s\<lparr>ls_db := d1\<rparr>, [])
      | Inr l \<Rightarrow>
          let hit = (variantName \<noteq> [] \<and> l_ABVariants l \<noteq> []);
              updated = (if hit then l\<lparr>l_ABVariants := bump_variant variantName (l_ABVariants l)\<rparr> else l);
              d2 = (if \<not> hit \<or> le_fault env Q_variants then d1
                    else d1\<lparr>db_links := update_rows (\<lambda>l. l_ID l = linkID)
                              (\<lambda>r. r\<lparr>l_ABVariants := l_ABVariants updated\<rparr>) (db_links d1)\<rparr>)
          in if IsExpired (le_now env) updated
             then (s\<lparr>ls_db := d2, ls_cache := LinkCache_Delete domain slug (ls_cache s)\<rparr>,
                   dispatch cfg ''link.self_destructed'' updated)
             else (s\<lparr>ls_db := d2,
                     ls_cache := LinkCache_Set (le_now env) domain slug (Some updated) (ls_cache s)\<rparr>, []))"

section \<open>Editing a link\<close>

text \<open>The sections of \<open>Update\<close>, each one the fields a request may carry.\<close>

type_synonym edit = "link \<Rightarrow> link_error + link"

fun run_edits :: "edit list \<Rightarrow> edit" where
  "run_edits [] l = Inr l"
| "run_edits (f # fs) l = (case f l of Inl e \<Rightarrow> Inl e | Inr l' \<Rightarrow> run_edits fs l')"

definition edit_target :: "link_cfg \<Rightarrow> link_env \<Rightarrow> db \<Rightarrow> update_link_request \<Rightarrow> edit" where
  "edit_target cfg env d req l =
     (case ur_TargetURL req of
        None \<Rightarrow> Inr l
      | Some u \<Rightarrow>
          (case CleanURL (ls_allowPrivate cfg) (ls_ownHost cfg) u of
             Inl e \<Rightarrow> Inl (LE_Clean e)
           | Inr (cleanTarget, _) \<Rightarrow>
               (case checkDomainBlocked env cleanTarget d of
                  Some e \<Rightarrow> Inl e
                | None \<Rightarrow> Inr (l\<lparr>l_TargetURL := cleanTarget\<rparr>))))"

definition edit_title :: "update_link_request \<Rightarrow> edit" where
  "edit_title req l = Inr (case ur_Title req of None \<Rightarrow> l | Some t \<Rightarrow> l\<lparr>l_Title := trim_space t\<rparr>)"

definition folder_owner :: "link_env \<Rightarrow> string \<Rightarrow> db \<Rightarrow> sql_error + string" where
  "folder_owner env i d =
     query_row (le_fault env Q_folder) (map_option f_CreatedBy (find (\<lambda>f. f_ID f = i) (db_folders d)))"

definition edit_folder :: "link_env \<Rightarrow> db \<Rightarrow> update_link_request \<Rightarrow> string \<Rightarrow> bool \<Rightarrow> edit" where
  "edit_folder env d req username isAdmin l =
     (case ur_FolderID req of
        None \<Rightarrow> Inr l
      | Some raw \<Rightarrow>
          let i = trim_space raw in
          if i = [] then Inr (l\<lparr>l_FolderID := None\<rparr>)
          else (case folder_owner env i d of
                  Inl _ \<Rightarrow> Inl LE_FolderNotFound
                | Inr owner \<Rightarrow>
                    if \<not> isAdmin \<and> owner \<noteq> username then Inl LE_FolderNotFound
                    else Inr (l\<lparr>l_FolderID := Some i\<rparr>)))"

definition edit_tags :: "update_link_request \<Rightarrow> edit" where
  "edit_tags req l = Inr (case ur_Tags req of None \<Rightarrow> l | Some ts \<Rightarrow> l\<lparr>l_Tags := ts\<rparr>)"

definition edit_pin :: "link_env \<Rightarrow> update_link_request \<Rightarrow> edit" where
  "edit_pin env req l =
     (case ur_PIN req of
        None \<Rightarrow> Inr l
      | Some p \<Rightarrow>
          if p = [] then Inr (l\<lparr>l_PinHash := [], l_HasPIN := False\<rparr>)
          else (case HashPIN (le_hash env) p of
                  Inl e \<Rightarrow> Inl (LE_Pin e)
                | Inr h \<Rightarrow> Inr (l\<lparr>l_PinHash := h, l_HasPIN := True\<rparr>)))"

definition edit_expiry :: "time \<Rightarrow> update_link_request \<Rightarrow> edit" where
  "edit_expiry now req l =
     Inr (case ur_ExpiresInHours req of
        Some h \<Rightarrow> l\<lparr>l_ExpiresAt := (if h > 0 then Some (in_hours now h) else None)\<rparr>
      | None \<Rightarrow>
          (case ur_ExpiresAt req of
             Some t \<Rightarrow> l\<lparr>l_ExpiresAt := (if t > 0 then Some t else None)\<rparr>
           | None \<Rightarrow> l))"

definition edit_budget :: "update_link_request \<Rightarrow> edit" where
  "edit_budget req l =
     Inr (case ur_MaxClicks req of
        None \<Rightarrow> l
      | Some m \<Rightarrow> l\<lparr>l_MaxClicks := (if m > 0 then Some m else None)\<rparr>)"

definition edit_redirect :: "update_link_request \<Rightarrow> edit" where
  "edit_redirect req l =
     (case ur_RedirectType req of
        None \<Rightarrow> Inr l
      | Some t \<Rightarrow> if t \<noteq> 301 \<and> t \<noteq> 302 then Inl LE_RedirectType else Inr (l\<lparr>l_RedirectType := t\<rparr>))"

definition edit_active :: "update_link_request \<Rightarrow> edit" where
  "edit_active req l = Inr (case ur_IsActive req of None \<Rightarrow> l | Some b \<Rightarrow> l\<lparr>l_IsActive := b\<rparr>)"

definition device_target :: "link_cfg \<Rightarrow> (clean_error \<Rightarrow> link_error) \<Rightarrow> string \<Rightarrow> link_error + string" where
  "device_target cfg err raw =
     (let u = trim_space raw in
      if u = [] then Inr []
      else case CleanURL (ls_allowPrivate cfg) (ls_ownHost cfg) u of
        Inl e \<Rightarrow> Inl (err e)
      | Inr (c, _) \<Rightarrow> Inr c)"

definition edit_ios :: "link_cfg \<Rightarrow> update_link_request \<Rightarrow> edit" where
  "edit_ios cfg req l =
     (case ur_IOSURL req of
        None \<Rightarrow> Inr l
      | Some raw \<Rightarrow>
          (case device_target cfg LE_IOS raw of Inl e \<Rightarrow> Inl e | Inr u \<Rightarrow> Inr (l\<lparr>l_IOSURL := u\<rparr>)))"

definition edit_android :: "link_cfg \<Rightarrow> update_link_request \<Rightarrow> edit" where
  "edit_android cfg req l =
     (case ur_AndroidURL req of
        None \<Rightarrow> Inr l
      | Some raw \<Rightarrow>
          (case device_target cfg LE_Android raw of Inl e \<Rightarrow> Inl e | Inr u \<Rightarrow> Inr (l\<lparr>l_AndroidURL := u\<rparr>)))"

definition edit_routing :: "update_link_request \<Rightarrow> edit" where
  "edit_routing req l =
     (let l = (case ur_LocaleRouting req of None \<Rightarrow> l | Some m \<Rightarrow> l\<lparr>l_LocaleRouting := m\<rparr>)
      in Inr (case ur_ABVariants req of None \<Rightarrow> l | Some vs \<Rightarrow> l\<lparr>l_ABVariants := vs\<rparr>))"

definition edits ::
  "link_cfg \<Rightarrow> link_env \<Rightarrow> db \<Rightarrow> update_link_request \<Rightarrow> string \<Rightarrow> bool \<Rightarrow> edit list" where
  "edits cfg env d req username isAdmin =
     [edit_target cfg env d req, edit_title req, edit_folder env d req username isAdmin, edit_tags req,
      edit_pin env req, edit_expiry (le_now env) req, edit_budget req, edit_redirect req, edit_active req,
      edit_ios cfg req, edit_android cfg req, edit_routing req]"

text \<open>The columns the \<open>UPDATE\<close> statement writes.\<close>

definition write_columns :: "link \<Rightarrow> link \<Rightarrow> link" where
  "write_columns l r = r\<lparr>l_TargetURL := l_TargetURL l, l_Title := l_Title l, l_FolderID := l_FolderID l,
     l_Tags := l_Tags l, l_PinHash := l_PinHash l, l_ExpiresAt := l_ExpiresAt l, l_MaxClicks := l_MaxClicks l,
     l_IsActive := l_IsActive l, l_IOSURL := l_IOSURL l, l_AndroidURL := l_AndroidURL l,
     l_LocaleRouting := l_LocaleRouting l, l_ABVariants := l_ABVariants l, l_RedirectType := l_RedirectType l,
     l_UpdatedAt := l_UpdatedAt l\<rparr>"

definition LinkService_Update ::
  "link_cfg \<Rightarrow> link_env \<Rightarrow> string \<Rightarrow> update_link_request \<Rightarrow> string \<Rightarrow> bool \<Rightarrow> link_service \<Rightarrow>
   link_service \<times> (link_error + link)" where
  "LinkService_Update cfg env i req username isAdmin s =
     (case GetByID env i (ls_db s) of
        Inl e \<Rightarrow> (s, Inl e)
      | Inr l0 \<Rightarrow>
          if \<not> isAdmin \<and> l_CreatedBy l0 \<noteq> username then (s, Inl LE_Unauthorized)
          else (case run_edits (edits cfg env (ls_db s) req username isAdmin) l0 of
             Inl e \<Rightarrow> (s, Inl e)
           | Inr l1 \<Rightarrow>
               let l = l1\<lparr>l_UpdatedAt := unix (le_now env)\<rparr> in
               if le_fault env Q_update then (s, Inl LE_UpdateFailed)
               else (s\<lparr>ls_db := (ls_db s)\<lparr>db_links :=
                          update_rows (\<lambda>r. l_ID r = l_ID l) (write_columns l) (db_links (ls_db s))\<rparr>,
                       ls_cache := LinkCache_Set (le_now env) (l_Domain l) (l_Slug l) (Some l) (ls_cache s)\<rparr>,
                     Inr l)))"

definition LinkService_Delete ::
  "link_cfg \<Rightarrow> link_env \<Rightarrow> string \<Rightarrow> string \<Rightarrow> bool \<Rightarrow> link_service \<Rightarrow>
   link_service \<times> link_error option \<times> event list" where
  "LinkService_Delete cfg env i username isAdmin s =
     (case GetByID env i (ls_db s) of
        Inl e \<Rightarrow> (s, Some e, [])
      | Inr l \<Rightarrow>
          if \<not> isAdmin \<and> l_CreatedBy l \<noteq> username then (s, Some LE_Unauthorized, [])
          else if le_fault env Q_delete then (s, Some LE_DeleteFailed, [])
          else (s\<lparr>ls_db := (ls_db s)\<lparr>db_links := delete_rows (\<lambda>r. l_ID r = i) (db_links (ls_db s))\<rparr>,
                  ls_cache := LinkCache_Delete (l_Domain l) (l_Slug l) (ls_cache s)\<rparr>,
                None, dispatch cfg ''link.deleted'' l))"

section \<open>Facts about slugs\<close>

lemma charset_length [simp]: "length charset = 55"
  by (simp add: charset_def)

lemma charset_ok: "c \<in> set charset \<Longrightarrow> slug_char c \<and> lower_char c \<noteq> CHR ''i'' \<and> lower_char c \<noteq> CHR ''o''"
proof -
  have "list_all (\<lambda>c. slug_char c \<and> lower_char c \<noteq> CHR ''i'' \<and> lower_char c \<noteq> CHR ''o'') charset"
    by code_simp
  then show "c \<in> set charset \<Longrightarrow> ?thesis" by (simp add: list_all_iff)
qed

lemma generateRandomSlug_set: "set (generateRandomSlug rnd n) \<subseteq> set charset"
  by (auto simp: generateRandomSlug_def split: option.splits)

lemma generateRandomSlug_length [simp]: "length (generateRandomSlug rnd n) = n"
  by (simp add: generateRandomSlug_def)

lemma random_regex: "2 \<le> n \<Longrightarrow> n \<le> 64 \<Longrightarrow> slugRegex (generateRandomSlug rnd n)"
  using generateRandomSlug_set [of rnd n] charset_ok by (auto simp: slugRegex_def list_all_iff)

text \<open>No reserved word of eight letters can be drawn: \<open>settings\<close> has an \<open>i\<close>.\<close>

lemma reserved_eight: "w \<in> set reservedSlugs \<Longrightarrow> length w = 8 \<Longrightarrow> CHR ''i'' \<in> set w"
proof -
  have "list_all (\<lambda>w. length w = 8 \<longrightarrow> list_ex (\<lambda>c. c = CHR ''i'') w) reservedSlugs" by code_simp
  then show "w \<in> set reservedSlugs \<Longrightarrow> length w = 8 \<Longrightarrow> ?thesis" by (auto simp: list_all_iff list_ex_iff)
qed

lemma random_eight_free: "to_lower (generateRandomSlug rnd 8) \<notin> set reservedSlugs"
proof
  assume "to_lower (generateRandomSlug rnd 8) \<in> set reservedSlugs"
  then have "CHR ''i'' \<in> set (to_lower (generateRandomSlug rnd 8))" by (rule reserved_eight) simp
  then obtain c where "c \<in> set (generateRandomSlug rnd 8)" "lower_char c = CHR ''i''"
    by (auto simp: to_lower_def)
  then show False using generateRandomSlug_set [of rnd 8] charset_ok by blast
qed

lemma ValidateCustomSlug_None:
  "ValidateCustomSlug s = None \<longleftrightarrow> slugRegex s \<and> to_lower s \<notin> set reservedSlugs"
  by (auto simp: ValidateCustomSlug_def slugRegex_def)

lemma ValidateCustomSlug_chars:
  "ValidateCustomSlug s = None \<Longrightarrow> 2 \<le> length s \<and> length s \<le> 64 \<and> (\<forall>c\<in>set s. slug_char c)"
  by (auto simp: ValidateCustomSlug_None slugRegex_def list_all_iff)

lemma unique_slug_valid: "ValidateCustomSlug (unique_slug_from env domain d attempt left) = None"
  by (induction left arbitrary: attempt)
    (auto simp: ValidateCustomSlug_None random_regex random_eight_free Let_def split: sum.splits)

lemma choose_slug_valid: "choose_slug env domain custom d = Inr s \<Longrightarrow> ValidateCustomSlug s = None"
  by (auto simp: choose_slug_def Let_def generateUniqueSlug_def unique_slug_valid
      split: if_splits option.splits sum.splits)

section \<open>Facts about the queries\<close>

lemma scan_row_Inr [scan_simps]:
  "scan_row fault r = Inr l \<longleftrightarrow> \<not> fault \<and> (\<exists>x. r = Some x \<and> l = scan_link x)"
  by (auto simp: scan_row_def query_row_def split: option.splits)

lemma first_row_find: "first_row (filter p rs) = find p rs"
  by (induction rs) (auto simp: first_row_def)

lemma GetByID_Inr: "links_ok (db_links d) \<Longrightarrow>
  GetByID env i d = Inr l \<longleftrightarrow> \<not> le_fault env Q_by_id \<and> (\<exists>x\<in>set (db_links d). l_ID x = i \<and> l = scan_link x)"
  by (auto simp: GetByID_def scan_row_Inr by_id_iff)

text \<open>The reference for the slug query: the domain's own row, else the root's.\<close>

definition best_match :: "string \<Rightarrow> string \<Rightarrow> link list \<Rightarrow> link option" where
  "best_match domain slug rs =
     (case by_key domain slug rs of Some l \<Rightarrow> Some l | None \<Rightarrow> by_key [] slug rs)"

lemma best_match_in: "links_ok rs \<Longrightarrow> best_match domain slug rs = Some l \<Longrightarrow>
  l \<in> set rs \<and> l_Slug l = slug \<and> (l_Domain l = domain \<or> l_Domain l = [])"
  by (auto simp: best_match_def by_key_iff split: option.splits)

lemma best_match_root [simp]: "best_match [] slug rs = by_key [] slug rs"
  by (simp add: best_match_def split: option.splits)

lemma raw_query_best_match:
  assumes ok: "links_ok rs" and dom: "domain \<noteq> []"
  shows "first_row (order_desc l_Domain
      (filter (\<lambda>l. l_Slug l = slug \<and> (l_Domain l = domain \<or> l_Domain l = [])) rs)) = best_match domain slug rs"
    (is "first_row (order_desc _ ?rows) = _")
proof (cases "first_row (order_desc l_Domain ?rows)")
  case None
  then have "?rows = []" by (simp only: first_row_desc_None)
  then have "\<forall>l\<in>set rs. \<not> (l_Slug l = slug \<and> (l_Domain l = domain \<or> l_Domain l = []))"
    by (simp add: filter_empty_conv)
  then have "by_key domain slug rs = None" "by_key [] slug rs = None" by (auto simp: by_key_None)
  with None show ?thesis by (simp add: best_match_def)
next
  case (Some r)
  have r: "r \<in> set rs" "l_Slug r = slug" "l_Domain r = domain \<or> l_Domain r = []"
    using first_row_in [OF Some] by auto
  show ?thesis
  proof (cases "by_key domain slug rs")
    case None
    then have "l_Domain r = []" using r by (auto simp: by_key_None)
    then have "by_key [] slug rs = Some r" using r ok by (simp add: by_key_iff)
    with None Some show ?thesis by (simp add: best_match_def)
  next
    case d: (Some l)
    then have l: "l \<in> set rs" "l_Slug l = slug" "l_Domain l = domain" using ok by (simp_all add: by_key_iff)
    then have "l_Domain l \<le> l_Domain r" by (intro first_row_desc [OF Some]) simp
    then have "l_Domain r = domain" using r(3) dom l(3) by auto
    then have "by_key domain slug rs = Some r" using r ok by (simp add: by_key_iff)
    with d Some show ?thesis by (simp add: best_match_def)
  qed
qed

lemma GetBySlugRaw_eq:
  "links_ok (db_links d) \<Longrightarrow>
   GetBySlugRaw env domain slug d = scan_row (le_fault env (Q_raw domain slug)) (best_match domain slug (db_links d))"
  by (simp add: GetBySlugRaw_def raw_query_best_match first_row_find by_key_def best_match_def
      split: option.splits)

lemma GetBySlugExact_eq:
  "GetBySlugExact env domain slug d = scan_row (le_fault env (Q_exact domain slug)) (by_key domain slug (db_links d))"
  by (simp add: GetBySlugExact_def first_row_find by_key_def)

lemma GetBySlugRaw_in:
  assumes "links_ok (db_links d)" and "GetBySlugRaw env domain slug d = Inr l"
  shows "\<exists>x\<in>set (db_links d). l = scan_link x \<and> l_Slug x = slug \<and> (l_Domain x = domain \<or> l_Domain x = [])"
  using assms best_match_in [OF assms(1)] by (auto simp: GetBySlugRaw_eq scan_row_Inr)

lemma lookup_link_in:
  assumes "links_ok (db_links d)" and "lookup_link env domain slug d = Inr l"
  shows "\<exists>x\<in>set (db_links d). l = scan_link x \<and> l_Slug x = slug \<and> (l_Domain x = domain \<or> l_Domain x = [])"
  using assms GetBySlugRaw_in [of d env domain slug l] GetBySlugRaw_in [of d env "[]" slug l]
  by (auto simp: lookup_link_def split: sum.splits if_splits)

text \<open>Without faults, the lookup of \<open>Resolve\<close> is the reference.\<close>

lemma lookup_link_eq:
  assumes "links_ok (db_links d)" and "\<not> le_fault env (Q_raw domain slug)" and "\<not> le_fault env (Q_raw [] slug)"
  shows "lookup_link env domain slug d = (case best_match domain slug (db_links d) of
      None \<Rightarrow> Inl LE_NotFound | Some l \<Rightarrow> Inr (scan_link l))"
proof -
  have "by_key [] slug (db_links d) = None" if "best_match domain slug (db_links d) = None"
    using that by (simp add: best_match_def split: option.splits)
  then show ?thesis using assms
    by (auto simp: lookup_link_def GetBySlugRaw_eq scan_row_def query_row_def split: option.splits)
qed

section \<open>Create\<close>

lemma prepare_linkD:
  assumes "prepare_link cfg env req who d = Inr (l, stripped)"
  obtains slug target pin where "CleanURL (ls_allowPrivate cfg) (ls_ownHost cfg) (cr_URL req) = Inr (target, stripped)"
    "checkDomainBlocked env target d = None"
    "choose_slug env (to_lower (trim_space (cr_Domain req))) (cr_CustomSlug req) d = Inr slug"
    "choose_pin env (cr_PIN req) = Inr pin" "l = new_link cfg env req who target slug pin"
  using assms unfolding prepare_link_def by (auto split: sum.splits option.splits)

lemma new_link_simps [simp]:
  "l_ID (new_link cfg env req who target slug pin) = le_uuid env"
  "l_Slug (new_link cfg env req who target slug pin) = slug"
  "l_Domain (new_link cfg env req who target slug pin) = to_lower (trim_space (cr_Domain req))"
  "l_TargetURL (new_link cfg env req who target slug pin) = target"
  "l_CreatedBy (new_link cfg env req who target slug pin) = who"
  "l_ClickCount (new_link cfg env req who target slug pin) = 0"
  "l_IsActive (new_link cfg env req who target slug pin) = True"
  "l_PinHash (new_link cfg env req who target slug pin) = fst pin"
  "l_HasPIN (new_link cfg env req who target slug pin) = snd pin"
  "l_RedirectType (new_link cfg env req who target slug pin) = (if cr_RedirectType req = 301 then 301 else 302)"
  by (simp_all add: new_link_def Let_def)

lemma CreateD:
  assumes "LinkService_Create cfg env req who s = (s', Inr (l, stripped), evs)"
  shows "prepare_link cfg env req who (ls_db s) = Inr (l, stripped) \<and>
    links_ok (db_links (ls_db s) @ [l]) \<and> evs = dispatch cfg ''link.created'' l \<and>
    s' = s\<lparr>ls_db := (ls_db s)\<lparr>db_links := db_links (ls_db s) @ [l]\<rparr>,
           ls_cache := LinkCache_Set (le_now env) (l_Domain l) (l_Slug l) (Some l) (ls_cache s)\<rparr>"
  using assms unfolding LinkService_Create_def
  by (auto simp: insert_row_Some split: sum.splits option.splits if_splits)

lemma links_ok_snocD:
  "links_ok (rs @ [l]) \<Longrightarrow> by_id (l_ID l) rs = None \<and> by_key (l_Domain l) (l_Slug l) rs = None"
  by (auto simp: links_ok_def by_id_None by_key_None link_key_def image_iff)

text \<open>
  Claim C8. Creating a link: when \<open>Create\<close> returns a link, exactly that link was appended to the
  table, its slug is valid and was free in its domain, its id was unused, its target is the
  cleaned URL, whose host is not quarantined unless the quarantine query itself failed, it
  belongs to the caller, is active with no clicks, and the cache answers with it.
\<close>

theorem Create_stores_link:
  assumes "LinkService_Create cfg env req who s = (s', Inr (l, stripped), evs)" and "lc_inv (ls_cache s)"
  shows "db_links (ls_db s') = db_links (ls_db s) @ [l] \<and>
    by_id (l_ID l) (db_links (ls_db s)) = None \<and> by_key (l_Domain l) (l_Slug l) (db_links (ls_db s)) = None \<and>
    ValidateCustomSlug (l_Slug l) = None \<and>
    CleanURL (ls_allowPrivate cfg) (ls_ownHost cfg) (cr_URL req) = Inr (l_TargetURL l, stripped) \<and>
    checkDomainBlocked env (l_TargetURL l) (ls_db s) = None \<and>
    l_CreatedBy l = who \<and> l_IsActive l \<and> l_ClickCount l = 0 \<and> l_RedirectType l \<in> {301, 302} \<and>
    snd (LinkCache_Get (le_now env) (l_Domain l) (l_Slug l) (ls_cache s')) = Some l"
proof -
  note c = CreateD [OF assms(1)]
  have "prepare_link cfg env req who (ls_db s) = Inr (l, stripped)" using c by simp
  then obtain slug target pin where p:
    "CleanURL (ls_allowPrivate cfg) (ls_ownHost cfg) (cr_URL req) = Inr (target, stripped)"
    "checkDomainBlocked env target (ls_db s) = None"
    "choose_slug env (to_lower (trim_space (cr_Domain req))) (cr_CustomSlug req) (ls_db s) = Inr slug"
    "l = new_link cfg env req who target slug pin" by (rule prepare_linkD)
  have "snd (LinkCache_Get (le_now env) (l_Domain l) (l_Slug l) (ls_cache s')) = Some l"
    using lc.get_after_put [OF assms(2)] c by simp
  with c p choose_slug_valid [OF p(3)] links_ok_snocD [of "db_links (ls_db s)" l] show ?thesis
    by simp
qed

text \<open>
  A refused creation leaves no trace: neither the database nor the cache changes and
  no webhook is notified.
\<close>

theorem Create_failure_no_effect:
  "fst (snd (LinkService_Create cfg env req who s)) = Inl e \<longrightarrow>
   LinkService_Create cfg env req who s = (s, Inl e, [])"
  unfolding LinkService_Create_def by (auto split: sum.splits option.splits)

text \<open>
  A link created with a PIN is protected by it: the stored hash is not empty, and the
  PIN as the visitor will type it, with or without white space around it, verifies.
\<close>

theorem Create_pin_unlocks:
  assumes "LinkService_Create cfg env req who s = (s', Inr (l, stripped), evs)"
    and "bcrypt_ok (le_hash env) cmp" and "trim_space (cr_PIN req) \<noteq> []"
  shows "l_HasPIN l \<and> l_PinHash l \<noteq> [] \<and> VerifyPIN cmp (trim_space (cr_PIN req)) (l_PinHash l)"
proof -
  have "prepare_link cfg env req who (ls_db s) = Inr (l, stripped)" using CreateD [OF assms(1)] by simp
  then obtain slug target pin where "choose_pin env (cr_PIN req) = Inr pin"
    "l = new_link cfg env req who target slug pin" by (rule prepare_linkD)
  with assms(3) VerifyPIN_HashPIN [OF assms(2), of "trim_space (cr_PIN req)"] show ?thesis
    by (auto simp: choose_pin_def split: sum.splits)
qed

section \<open>Update\<close>

definition same_identity :: "link \<Rightarrow> link \<Rightarrow> bool" where
  "same_identity l l' \<longleftrightarrow> l_ID l' = l_ID l \<and> link_key l' = link_key l \<and> l_CreatedBy l' = l_CreatedBy l \<and>
     l_ClickCount l' = l_ClickCount l \<and> l_OriginalURL l' = l_OriginalURL l \<and> l_CreatedAt l' = l_CreatedAt l \<and>
     l_LastClickedAt l' = l_LastClickedAt l"

definition pin_flag :: "link \<Rightarrow> bool" where
  "pin_flag l \<longleftrightarrow> l_HasPIN l = (l_PinHash l \<noteq> [])"

lemma run_edits_rel:
  assumes "run_edits fs l = Inr l'" and "\<And>x. R x x" and "\<And>x y z. R x y \<Longrightarrow> R y z \<Longrightarrow> R x z"
    and "\<And>f x y. f \<in> set fs \<Longrightarrow> f x = Inr y \<Longrightarrow> R x y"
  shows "R l l'"
  using assms(1,4)
proof (induction fs arbitrary: l)
  case (Cons f fs)
  then obtain y where y: "f l = Inr y" "run_edits fs y = Inr l'" by (auto split: sum.splits)
  have "R y l'" by (rule Cons.IH [OF y(2)]) (use Cons.prems(2) in auto)
  moreover have "R l y" by (rule Cons.prems(2) [where f = f]) (simp_all add: y)
  ultimately show ?case using assms(3) by blast
qed (simp add: assms(2))

lemmas edit_defs = edit_target_def edit_title_def edit_folder_def edit_tags_def edit_expiry_def
  edit_budget_def edit_redirect_def edit_active_def edit_ios_def edit_android_def edit_routing_def Let_def

lemma edits_identity:
  assumes "f \<in> set (edits cfg env d req who adm)" and "f x = Inr y"
  shows "same_identity x y"
  using assms unfolding edits_def
  by (auto simp: edit_defs edit_pin_def same_identity_def link_key_def split: option.splits if_splits sum.splits)

lemma run_edits_identity:
  "run_edits (edits cfg env d req who adm) l = Inr l' \<Longrightarrow> same_identity l l'"
  by (erule run_edits_rel) (simp_all add: same_identity_def edits_identity [unfolded same_identity_def])

lemma edits_pin_flag:
  assumes "f \<in> set (edits cfg env d req who adm)" and "f x = Inr y"
    and "\<forall>p h. le_hash env p = Some h \<longrightarrow> h \<noteq> []" and "pin_flag x"
  shows "pin_flag y"
  using assms unfolding edits_def
  by (auto simp: edit_defs edit_pin_def pin_flag_def HashPIN_Inr split: option.splits if_splits sum.splits)

lemma run_edits_pin_flag:
  assumes "run_edits (edits cfg env d req who adm) l = Inr l'"
    and "\<forall>p h. le_hash env p = Some h \<longrightarrow> h \<noteq> []" and "pin_flag l"
  shows "pin_flag l'"
  using run_edits_rel [OF assms(1), of "\<lambda>x y. pin_flag x \<longrightarrow> pin_flag y"] edits_pin_flag assms(2,3) by blast

lemma scan_write_columns:
  "same_identity (scan_link x) l \<Longrightarrow> pin_flag l \<Longrightarrow> scan_link (write_columns l x) = l"
  by (cases l; cases x) (auto simp: scan_link_def write_columns_def same_identity_def link_key_def pin_flag_def)

lemma write_columns_identity [simp]: "l_ID (write_columns l r) = l_ID r" "link_key (write_columns l r) = link_key r"
  "l_CreatedBy (write_columns l r) = l_CreatedBy r"
  by (simp_all add: write_columns_def link_key_def)

lemma UpdateD:
  assumes ok: "links_ok (db_links (ls_db s))" and u: "LinkService_Update cfg env i req who adm s = (s', Inr l)"
  shows "\<exists>x\<in>set (db_links (ls_db s)). l_ID x = i \<and> (adm \<or> l_CreatedBy x = who) \<and>
    same_identity (scan_link x) l \<and> ((\<forall>p h. le_hash env p = Some h \<longrightarrow> h \<noteq> []) \<longrightarrow> pin_flag l) \<and>
    s' = s\<lparr>ls_db := (ls_db s)\<lparr>db_links := update_rows (\<lambda>r. l_ID r = i) (write_columns l) (db_links (ls_db s))\<rparr>,
           ls_cache := LinkCache_Set (le_now env) (l_Domain l) (l_Slug l) (Some l) (ls_cache s)\<rparr>"
proof -
  obtain l0 where l0: "GetByID env i (ls_db s) = Inr l0"
    using u by (auto simp: LinkService_Update_def split: sum.splits)
  then obtain x where x: "x \<in> set (db_links (ls_db s))" "l_ID x = i" "l0 = scan_link x"
    using ok by (auto simp: GetByID_Inr)
  obtain l1 where l1: "run_edits (edits cfg env (ls_db s) req who adm) l0 = Inr l1"
    "adm \<or> l_CreatedBy l0 = who" "l = l1\<lparr>l_UpdatedAt := unix (le_now env)\<rparr>"
    and s': "s' = s\<lparr>ls_db := (ls_db s)\<lparr>db_links := update_rows (\<lambda>r. l_ID r = l_ID l) (write_columns l) (db_links (ls_db s))\<rparr>,
           ls_cache := LinkCache_Set (le_now env) (l_Domain l) (l_Slug l) (Some l) (ls_cache s)\<rparr>"
    using u l0 by (auto simp: LinkService_Update_def Let_def split: sum.splits if_splits)
  have i: "same_identity l0 l"
    using run_edits_identity [OF l1(1)] by (simp add: l1(3) same_identity_def link_key_def)
  have p: "pin_flag l" if "\<forall>p h. le_hash env p = Some h \<longrightarrow> h \<noteq> []"
    using run_edits_pin_flag [OF l1(1) that] by (simp add: l1(3) x(3) pin_flag_def)
  have "l_ID l = i" using i x by (simp add: same_identity_def)
  then show ?thesis using x l1(2) i p s' by (intro bexI [of _ x]) auto
qed

lemma Update_error: "snd (LinkService_Update cfg env i req who adm s) = Inl e \<Longrightarrow>
  fst (LinkService_Update cfg env i req who adm s) = s"
  unfolding LinkService_Update_def by (auto simp: Let_def split: sum.splits if_splits)

lemma by_id_update_rows:
  assumes ok: "links_ok rs" and f: "\<And>r. l_ID (f r) = l_ID r \<and> link_key (f r) = link_key r"
  shows "by_id j (update_rows (\<lambda>r. l_ID r = i) f rs) =
    (if j = i then map_option f (by_id i rs) else by_id j rs)"
proof (cases "by_id j rs")
  case None
  then have "by_id j (update_rows (\<lambda>r. l_ID r = i) f rs) = None"
    using f by (auto simp: by_id_None set_update_rows)
  with None show ?thesis by auto
next
  case (Some x)
  then have x: "x \<in> set rs" "l_ID x = j" using ok by (simp_all add: by_id_iff)
  have ok': "links_ok (update_rows (\<lambda>r. l_ID r = i) f rs)" using ok f by (rule links_ok_update)
  have "by_id j (update_rows (\<lambda>r. l_ID r = i) f rs) = Some (if j = i then f x else x)"
    using x f by (auto simp: by_id_iff [OF ok'] set_update_rows)
  with Some show ?thesis by auto
qed

text \<open>
  Claim C9. Editing a link: an update that succeeds was made by the link's owner or an
  administrator, changes that row only, keeps its id, slug, domain, owner, creation time and
  click count, and what a later read of the row returns is the link \<open>Update\<close> returned; an
  update that fails changes neither the database nor the cache.
\<close>

theorem Update_owner_only:
  assumes "links_ok (db_links (ls_db s))" and "LinkService_Update cfg env i req who adm s = (s', res)"
    and "\<forall>p h. le_hash env p = Some h \<longrightarrow> h \<noteq> []"
  shows "(case res of
      Inl e \<Rightarrow> s' = s
    | Inr l \<Rightarrow> (\<exists>x. by_id i (db_links (ls_db s)) = Some x \<and> (adm \<or> l_CreatedBy x = who) \<and> same_identity x l \<and>
        (\<forall>j. map_option scan_link (by_id j (db_links (ls_db s'))) =
             (if j = i then Some l else map_option scan_link (by_id j (db_links (ls_db s)))))))"
proof (cases res)
  case (Inl e)
  then show ?thesis using Update_error [of cfg env i req who adm s e] assms(2) by simp
next
  case (Inr l)
  obtain x where x: "x \<in> set (db_links (ls_db s))" "l_ID x = i" "adm \<or> l_CreatedBy x = who"
    "same_identity (scan_link x) l" "pin_flag l"
    "db_links (ls_db s') = update_rows (\<lambda>r. l_ID r = i) (write_columns l) (db_links (ls_db s))"
    using UpdateD [OF assms(1), of cfg env i req who adm s' l] assms(2,3) Inr by auto
  moreover have "by_id i (db_links (ls_db s)) = Some x" using x assms(1) by (simp add: by_id_iff)
  moreover have "same_identity x l" using x(4) by (simp add: same_identity_def scan_link_def link_key_def)
  ultimately show ?thesis using Inr assms(1)
    by (simp add: by_id_update_rows scan_write_columns)
qed

section \<open>Delete\<close>

lemma by_id_delete_rows:
  "by_id j (delete_rows (\<lambda>r. l_ID r = i) rs) = (if j = i then None else by_id j rs)"
  by (induction rs) (auto simp: by_id_def delete_rows_def)

text \<open>
  Claim C10. Deleting a link: a deletion that succeeds was asked by the owner or an
  administrator and removes exactly that row; the very next lookup of its slug in the cache
  misses; an attempt that fails changes nothing.
\<close>

theorem Delete_owner_only:
  assumes "links_ok (db_links (ls_db s))" and "lc_inv (ls_cache s)"
    and "LinkService_Delete cfg env i who adm s = (s', err, evs)"
  shows "(case err of
      Some e \<Rightarrow> s' = s \<and> evs = []
    | None \<Rightarrow> (\<exists>x. by_id i (db_links (ls_db s)) = Some x \<and> (adm \<or> l_CreatedBy x = who) \<and>
        evs = dispatch cfg ''link.deleted'' (scan_link x) \<and>
        snd (LinkCache_Get now (l_Domain x) (l_Slug x) (ls_cache s')) = None \<and>
        (\<forall>j. by_id j (db_links (ls_db s')) = (if j = i then None else by_id j (db_links (ls_db s))))))"
proof (cases "GetByID env i (ls_db s)")
  case (Inl e)
  then show ?thesis using assms(3) by (auto simp: LinkService_Delete_def)
next
  case (Inr l)
  then obtain x where x: "x \<in> set (db_links (ls_db s))" "l_ID x = i" "l = scan_link x"
    using assms(1) by (auto simp: GetByID_Inr)
  then have "by_id i (db_links (ls_db s)) = Some x" using assms(1) by (simp add: by_id_iff)
  then show ?thesis using assms(3) Inr x(3) lc.get_after_del [OF assms(2)]
    by (auto simp: LinkService_Delete_def by_id_delete_rows split: if_splits)
qed

section \<open>A worked example\<close>

definition example_cfg :: link_cfg where
  "example_cfg = \<lparr>ls_ownHost = [], ls_allowPrivate = False, ls_webhooks = True\<rparr>"

definition example_hash :: "string \<Rightarrow> string option" where "example_hash p = Some (CHR ''h'' # p)"
definition example_cmp :: "string \<Rightarrow> string \<Rightarrow> bool" where "example_cmp h p = (h = CHR ''h'' # p)"

definition example_env :: link_env where
  "example_env = \<lparr>le_now = 1000 * second_ns, le_uuid = ''u1'', le_slugs = (\<lambda>a i. Some i),
     le_hash = example_hash, le_fault = (\<lambda>q. False)\<rparr>"

definition example_req :: create_link_request where
  "example_req = empty_create\<lparr>cr_URL := ''https://e.com/?utm_source=n&id=7'', cr_CustomSlug := ''promo'',
     cr_PIN := ''1234'', cr_MaxClicks := Some 2\<rparr>"

definition fresh_service :: link_service where
  "fresh_service = \<lparr>ls_db = empty_db, ls_cache = NewLinkCache 0 0\<rparr>"

definition example_link :: link where
  "example_link = new_link example_cfg example_env example_req ''ana'' ''https://e.com/?id=7'' ''promo'' (''h1234'', True)"

definition example_service :: link_service where
  "example_service = fresh_service\<lparr>ls_db := empty_db\<lparr>db_links := [example_link]\<rparr>,
     ls_cache := LinkCache_Set (1000 * second_ns) [] ''promo'' (Some example_link) (NewLinkCache 0 0)\<rparr>"

lemma example_trims: "trim_space ''promo'' = ''promo''" "trim_space ''1234'' = ''1234''"
  by (rule trim_visible; simp add: visible_def byte_def)+

lemma example_bcrypt: "bcrypt_ok example_hash example_cmp"
  by (simp add: bcrypt_ok_def example_hash_def example_cmp_def)

lemma example_prepare:
  "prepare_link example_cfg example_env example_req ''ana'' empty_db = Inr (example_link, [''utm_source''])"
proof -
  have "checkDomainBlocked example_env ''https://e.com/?id=7'' empty_db = None"
  proof -
    have "Url_Parse ''https://e.com/?id=7'' = Some example_url" by code_simp
    then show ?thesis by (simp add: checkDomainBlocked_def empty_db_def Let_def)
  qed
  moreover have "choose_slug example_env [] ''promo'' empty_db = Inr ''promo''"
  proof -
    have "ValidateCustomSlug ''promo'' = None" by code_simp
    then show ?thesis
      by (simp add: choose_slug_def example_trims GetBySlugExact_eq by_key_def empty_db_def scan_row_def query_row_def
          Let_def example_env_def)
  qed
  moreover have "choose_pin example_env ''1234'' = Inr (''h1234'', True)"
    by (simp add: choose_pin_def example_trims HashPIN_def example_env_def example_hash_def)
  moreover have "cr_URL example_req = ''https://e.com/?utm_source=n&id=7''" "cr_Domain example_req = []"
    "cr_CustomSlug example_req = ''promo''" "cr_PIN example_req = ''1234''"
    "ls_ownHost example_cfg = []" "ls_allowPrivate example_cfg = False"
    by (simp_all add: example_req_def empty_create_def example_cfg_def)
  ultimately show ?thesis
    by (simp add: prepare_link_def clean_example_string example_link_def to_lower_def)
qed

lemma example_link_simps [simp]:
  "l_ID example_link = ''u1''" "l_Slug example_link = ''promo''" "l_Domain example_link = []"
  "l_CreatedBy example_link = ''ana''" "l_HasPIN example_link" "l_PinHash example_link = ''h1234''"
  "l_ClickCount example_link = 0" "l_MaxClicks example_link = Some 2" "l_IsActive example_link"
  "l_ExpiresAt example_link = None" "l_ABVariants example_link = []" "l_FolderID example_link = None"
  by (simp_all add: example_link_def new_link_def Let_def example_env_def example_req_def empty_create_def
      to_lower_def choose_expiry_def List.map_filter_simps)

lemma example_create:
  "LinkService_Create example_cfg example_env example_req ''ana'' fresh_service =
   (example_service, Inr (example_link, [''utm_source'']), [(''link.created'', example_link, ''ana'')])"
proof -
  have "le_fault example_env Q_insert = False" "le_now example_env = 1000 * second_ns" "ls_webhooks example_cfg"
    by (simp_all add: example_env_def example_cfg_def)
  moreover have "insert_row example_link links_ok [] = Some [example_link]"
    by (simp add: insert_row_def links_ok_def)
  ultimately show ?thesis
    by (simp add: LinkService_Create_def fresh_service_def example_prepare example_service_def dispatch_def)
qed

lemma example_service_facts [simp]:
  "db_links (ls_db example_service) = [example_link]" "lc_inv (ls_cache example_service)"
  "lc_inv (ls_cache fresh_service)" "db_folders (ls_db example_service) = []"
  "ls_cache example_service = LinkCache_Set (1000 * second_ns) [] ''promo'' (Some example_link) (NewLinkCache 0 0)"
  using NewLinkCache_abs [of 0 0] LinkCache_Set_abs
  by (simp_all add: example_service_def fresh_service_def empty_db_def)

lemma example_get: "GetByID example_env ''u1'' (ls_db example_service) = Inr example_link"
proof -
  have "scan_link example_link = example_link"
    using example_link_simps(5,6) by (simp add: scan_link_def)
  then show ?thesis by (simp add: GetByID_def by_id_def scan_row_def query_row_def example_env_def)
qed

theorem Create_stores_link_witness:
  "snd (LinkCache_Get (1000 * second_ns) [] ''promo'' (ls_cache example_service)) = Some example_link"
  using Create_stores_link [OF example_create] by (simp add: example_env_def)

theorem Create_failure_no_effect_witness:
  "LinkService_Create example_cfg example_env empty_create ''ana'' fresh_service =
   (fresh_service, Inl (LE_Clean EmptyURL), [])"
proof -
  have "CleanURL False [] [] = Inl EmptyURL" by (simp add: CleanURL_def CleanURL_parsed_def)
  then have "fst (snd (LinkService_Create example_cfg example_env empty_create ''ana'' fresh_service)) =
      Inl (LE_Clean EmptyURL)"
    by (simp add: LinkService_Create_def prepare_link_def empty_create_def example_cfg_def)
  with Create_failure_no_effect show ?thesis by blast
qed

theorem Create_pin_unlocks_witness: "VerifyPIN example_cmp ''1234'' (l_PinHash example_link)"
  using Create_pin_unlocks [OF example_create, of example_cmp] example_bcrypt
  by (simp add: example_env_def example_req_def example_trims)

theorem Update_owner_only_witness:
  "fst (LinkService_Update example_cfg example_env ''u1'' empty_update ''eve'' False example_service) = example_service"
proof -
  have "LinkService_Update example_cfg example_env ''u1'' empty_update ''eve'' False example_service =
      (example_service, Inl LE_Unauthorized)"
    by (simp add: LinkService_Update_def example_get)
  from Update_owner_only [OF _ this] show ?thesis
    by (simp add: links_ok_def example_env_def example_hash_def LinkService_Update_def example_get [unfolded example_env_def])
qed

theorem Delete_owner_only_witness:
  "\<exists>s'. LinkService_Delete example_cfg example_env ''u1'' ''ana'' False example_service =
     (s', None, [(''link.deleted'', example_link, ''ana'')]) \<and>
   by_id ''u1'' (db_links (ls_db s')) = None \<and> snd (LinkCache_Get 0 [] ''promo'' (ls_cache s')) = None"
proof -
  obtain s' where s': "LinkService_Delete example_cfg example_env ''u1'' ''ana'' False example_service =
     (s', None, [(''link.deleted'', example_link, ''ana'')])"
    by (simp add: LinkService_Delete_def example_get) (simp add: dispatch_def example_env_def example_cfg_def)
  have "links_ok (db_links (ls_db example_service))" by (simp add: links_ok_def)
  from Delete_owner_only [OF this example_service_facts(2) s', of 0] have "by_id ''u1'' (db_links (ls_db s')) = None \<and>
      snd (LinkCache_Get 0 [] ''promo'' (ls_cache s')) = None"
    by (simp add: by_id_def)
  with s' show ?thesis by blast
qed
end
