(* ===== verification/Csv_Service.thy ===== *)
theory Csv_Service
  imports Link_Service
begin

text \<open>
  Bulk import and export, internal/services/csv_service.go. The reader and the writer of package
  \<open>encoding/csv\<close> are parameters: a table is its list of records. Up to ten goroutines create the
  links of an import; every \<open>Create\<close> holds the service's mutex, so the import is the creation of
  the links one after the other in an order that \<open>sched\<close> decides, each in its own environment.
\<close>

datatype csv_error = CE_Read | CE_TooShort | CE_NoURLColumn

record bulk_result =
  br_TotalProcessed :: nat
  br_TotalCreated :: nat
  br_TotalSkipped :: nat
  br_Errors :: "(nat \<times> link_error) list"

text \<open>The header map: the last column of a name wins.\<close>

definition column :: "string list \<Rightarrow> string \<Rightarrow> nat option" where
  "column headers name =
     map_of (rev (zip (map (\<lambda>h. to_lower (trim_space h)) headers) [0..<length headers])) name"

definition either_column :: "string list \<Rightarrow> string list \<Rightarrow> nat option" where
  "either_column headers names =
     fold (\<lambda>n found. case found of Some i \<Rightarrow> Some i | None \<Rightarrow> column headers n) names None"

text \<open>\<open>hasX && len(row) > xIdx\<close>, then the trimmed field.\<close>

definition field :: "nat option \<Rightarrow> string list \<Rightarrow> string" where
  "field idx row = (case idx of None \<Rightarrow> [] | Some i \<Rightarrow> if i < length row then trim_space (row ! i) else [])"

definition import_request :: "string list \<Rightarrow> nat \<Rightarrow> string list \<Rightarrow> create_link_request option" where
  "import_request headers urlIdx row =
     (if field (Some urlIdx) row = [] then None
      else Some (empty_create\<lparr>cr_URL := field (Some urlIdx) row,
        cr_CustomSlug := field (either_column headers [''slug'', ''custom_slug'']) row,
        cr_Title := field (column headers ''title'') row, cr_PIN := field (column headers ''pin'') row,
        cr_MaxClicks := (case Atoi (field (column headers ''max_clicks'') row) of
            Some v \<Rightarrow> if v > 0 then Some v else None | None \<Rightarrow> None),
        cr_RedirectType := 302\<rparr>))"

text \<open>The rows that are created, each with its number in the file.\<close>

definition import_jobs :: "string list \<Rightarrow> nat \<Rightarrow> string list list \<Rightarrow> (nat \<times> create_link_request) list" where
  "import_jobs headers urlIdx rows =
     List.map_filter (\<lambda>(i, row). map_option (Pair (i + 2)) (import_request headers urlIdx row))
       (zip [0..<length rows] rows)"

definition count_job :: "bulk_result \<Rightarrow> nat \<Rightarrow> link_error + 'a \<Rightarrow> bulk_result" where
  "count_job b n res =
     (case res of
        Inl e \<Rightarrow> b\<lparr>br_TotalSkipped := br_TotalSkipped b + 1, br_Errors := br_Errors b @ [(n, e)]\<rparr>
      | Inr _ \<Rightarrow> b\<lparr>br_TotalCreated := br_TotalCreated b + 1\<rparr>)"

fun run_jobs ::
  "link_cfg \<Rightarrow> (nat \<Rightarrow> link_env) \<Rightarrow> string \<Rightarrow> (nat \<times> create_link_request) list \<Rightarrow> link_service \<times> bulk_result \<Rightarrow>
   link_service \<times> bulk_result" where
  "run_jobs cfg envs username [] (s, b) = (s, b)"
| "run_jobs cfg envs username ((n, req) # jobs) (s, b) =
     (case LinkService_Create cfg (envs n) req username s of
        (s', res, evs) \<Rightarrow> run_jobs cfg envs username jobs (s', count_job b n res))"

definition ImportCSV ::
  "link_cfg \<Rightarrow> (nat \<Rightarrow> link_env) \<Rightarrow>
   ((nat \<times> create_link_request) list \<Rightarrow> (nat \<times> create_link_request) list) \<Rightarrow>
   string list list option \<Rightarrow> string \<Rightarrow> link_service \<Rightarrow> link_service \<times> (csv_error + bulk_result)" where
  "ImportCSV cfg envs sched records username s =
     (case records of
        None \<Rightarrow> (s, Inl CE_Read)
      | Some [] \<Rightarrow> (s, Inl CE_TooShort)
      | Some [_] \<Rightarrow> (s, Inl CE_TooShort)
      | Some (headers # rows) \<Rightarrow>
          (case either_column headers [''url'', ''target_url'', ''destination''] of
             None \<Rightarrow> (s, Inl CE_NoURLColumn)
           | Some urlIdx \<Rightarrow>
               (case run_jobs cfg envs username (sched (import_jobs headers urlIdx rows))
                   (s, \<lparr>br_TotalProcessed = length rows, br_TotalCreated = 0, br_TotalSkipped = 0, br_Errors = []\<rparr>) of
                  (s', b) \<Rightarrow> (s', Inr b))))"

definition export_header :: "string list" where
  "export_header = [''ID'', ''Slug'', ''Domain'', ''Target URL'', ''Original URL'', ''Title'', ''Clicks'', ''Max Clicks'',
     ''Has PIN'', ''Status'', ''Created At'']"

definition export_row :: "(int \<Rightarrow> string) \<Rightarrow> time \<Rightarrow> link \<Rightarrow> string list" where
  "export_row rfc3339 now l =
     [l_ID l, l_Slug l, l_Domain l, l_TargetURL l, l_OriginalURL l, l_Title l, Itoa (l_ClickCount l),
      (case l_MaxClicks l of None \<Rightarrow> [] | Some m \<Rightarrow> Itoa m), (if l_HasPIN l then ''true'' else ''false''),
      (if IsExpired now l then ''expired'' else ''active''), rfc3339 (l_CreatedAt l)]"

definition ExportCSV :: "(int \<Rightarrow> string) \<Rightarrow> link_env \<Rightarrow> string \<Rightarrow> bool \<Rightarrow> db \<Rightarrow> link_error + string list list" where
  "ExportCSV rfc3339 env username isAdmin d =
     (case ListByUser env username isAdmin d of
        Inl e \<Rightarrow> Inl e
      | Inr links \<Rightarrow> Inr (export_header # map (export_row rfc3339 (le_now env)) links))"

section \<open>Counting\<close>

lemma Create_refused: "LinkService_Create cfg env req who s = (s', Inl e, evs) \<Longrightarrow> s' = s \<and> evs = []"
  by (auto simp: LinkService_Create_def split: sum.splits option.splits prod.splits)

text \<open>What an import promises about one created link, in terms of the cells of its row: the number
  of the row is that of the import's own report, which counts the header as row 1.\<close>

definition row_link ::
  "link_cfg \<Rightarrow> (nat \<Rightarrow> link_env) \<Rightarrow> string list \<Rightarrow> nat \<Rightarrow> string list list \<Rightarrow> string \<Rightarrow> nat \<Rightarrow> link \<Rightarrow> bool" where
  "row_link cfg envs headers urlIdx rows who n l =
     (let row = rows ! (n - 2); url = field (Some urlIdx) row;
          slug = field (either_column headers [''slug'', ''custom_slug'']) row;
          title = field (column headers ''title'') row; pin = field (column headers ''pin'') row;
          budget = Atoi (field (column headers ''max_clicks'') row) in
      l_ID l = le_uuid (envs n) \<and> l_CreatedBy l = who \<and> l_OriginalURL l = url \<and>
      Inr (l_TargetURL l) = map_sum id fst (CleanURL (ls_allowPrivate cfg) (ls_ownHost cfg) url) \<and>
      ValidateCustomSlug (l_Slug l) = None \<and> (slug \<noteq> [] \<longrightarrow> l_Slug l = slug) \<and> l_Domain l = [] \<and>
      l_Title l = (if title = [] then l_Slug l else title) \<and>
      l_HasPIN l = (pin \<noteq> []) \<and> (pin \<noteq> [] \<longrightarrow> HashPIN (le_hash (envs n)) pin = Inr (l_PinHash l)) \<and>
      (\<forall>m. l_MaxClicks l = Some m \<longleftrightarrow> budget = Some m \<and> 0 < m) \<and>
      l_RedirectType l = 302 \<and> l_IsActive l \<and> l_ClickCount l = 0 \<and> l_ExpiresAt l = None)"

lemma choose_slug_custom: "choose_slug env domain custom d = Inr slug \<Longrightarrow> trim_space custom \<noteq> [] \<Longrightarrow> slug = trim_space custom"
  by (auto simp: choose_slug_def Let_def split: option.splits sum.splits)

lemma choose_pinD: "choose_pin env pin = Inr h \<Longrightarrow>
  snd h = (trim_space pin \<noteq> []) \<and> (trim_space pin \<noteq> [] \<longrightarrow> HashPIN (le_hash env) (trim_space pin) = Inr (fst h))"
  by (auto simp: choose_pin_def split: sum.splits if_splits)

lemma field_trimmed [simp]: "trim_space (field idx row) = field idx row"
  by (simp add: field_def split: option.splits)

lemma row_linkI:
  assumes "prepare_link cfg (envs n) req who d = Inr (l, stripped)"
    and "import_request headers urlIdx (rows ! (n - 2)) = Some req"
  shows "row_link cfg envs headers urlIdx rows who n l"
proof -
  let ?row = "rows ! (n - 2)"
  have req: "cr_URL req = field (Some urlIdx) ?row" "cr_Domain req = []"
    "cr_CustomSlug req = field (either_column headers [''slug'', ''custom_slug'']) ?row"
    "cr_Title req = field (column headers ''title'') ?row" "cr_PIN req = field (column headers ''pin'') ?row"
    "\<forall>m. cr_MaxClicks req = Some m \<longleftrightarrow> Atoi (field (column headers ''max_clicks'') ?row) = Some m \<and> 0 < m"
    "cr_RedirectType req = 302" "cr_ExpiresAt req = None" "cr_ExpiresInHours req = None"
    using assms(2) by (auto simp: import_request_def empty_create_def split: if_splits option.splits)
  obtain slug target pin where p: "CleanURL (ls_allowPrivate cfg) (ls_ownHost cfg) (cr_URL req) = Inr (target, stripped)"
    "choose_slug (envs n) (to_lower (trim_space (cr_Domain req))) (cr_CustomSlug req) d = Inr slug"
    "choose_pin (envs n) (cr_PIN req) = Inr pin" "l = new_link cfg (envs n) req who target slug pin"
    using prepare_linkD [OF assms(1)] by metis
  have l: "l_OriginalURL l = cr_URL req" "l_MaxClicks l = cr_MaxClicks req" "l_ExpiresAt l = None"
    "l_Title l = (if trim_space (cr_Title req) = [] then slug else trim_space (cr_Title req))" "l_Domain l = []"
    by (simp_all add: p(4) new_link_def Let_def choose_expiry_def req(2,8,9) to_lower_def)
  show ?thesis
    using p(1) choose_slug_valid [OF p(2)] choose_slug_custom [OF p(2)] choose_pinD [OF p(3)] l req
    by (simp add: row_link_def Let_def p(4) del: new_link_def)
qed

text \<open>A run of the jobs: the numbers of the rows that became links, in the order of the new rows of
  the table, and the errors of the others, each the answer of \<open>Create\<close> on the table of that moment.\<close>

definition refused_at ::
  "link_cfg \<Rightarrow> (nat \<Rightarrow> link_env) \<Rightarrow> string \<Rightarrow> link_service \<Rightarrow> link list \<Rightarrow> nat \<Rightarrow> create_link_request \<Rightarrow> link_error \<Rightarrow> bool" where
  "refused_at cfg envs who s new n req e =
     (\<exists>t k. ls_db t = (ls_db s)\<lparr>db_links := db_links (ls_db s) @ take k new\<rparr> \<and>
        LinkService_Create cfg (envs n) req who t = (t, Inl e, []))"

lemma refused_at_later:
  "refused_at cfg envs who s1 new n req e \<Longrightarrow> ls_db s1 = (ls_db s)\<lparr>db_links := db_links (ls_db s) @ [l]\<rparr> \<Longrightarrow>
   refused_at cfg envs who s (l # new) n req e"
  unfolding refused_at_def
proof (elim exE conjE, goal_cases)
  case (1 t k)
  then show ?case by (intro exI [of _ t] exI [of _ "Suc k"]) simp
qed

lemma run_jobs_account:
  "run_jobs cfg envs who jobs (s, b) = (s', b') \<Longrightarrow>
   \<exists>made new errs. b' = b\<lparr>br_TotalCreated := br_TotalCreated b + length made,
       br_TotalSkipped := br_TotalSkipped b + length errs, br_Errors := br_Errors b @ errs\<rparr> \<and>
     mset (made @ map fst errs) = mset (map fst jobs) \<and>
     ls_db s' = (ls_db s)\<lparr>db_links := db_links (ls_db s) @ new\<rparr> \<and>
     list_all2 (\<lambda>n l. \<exists>req d stripped. (n, req) \<in> set jobs \<and> prepare_link cfg (envs n) req who d = Inr (l, stripped)) made new \<and>
     (\<forall>(n, e)\<in>set errs. \<exists>req. (n, req) \<in> set jobs \<and> refused_at cfg envs who s new n req e)"
proof (induction jobs arbitrary: s b)
  case Nil
  then show ?case by (intro exI [of _ "[]"]) simp
next
  case (Cons j jobs)
  obtain n req where j: "j = (n, req)" by (cases j)
  obtain s1 res evs where c: "LinkService_Create cfg (envs n) req who s = (s1, res, evs)"
    by (cases "LinkService_Create cfg (envs n) req who s") auto
  have rest: "run_jobs cfg envs who jobs (s1, count_job b n res) = (s', b')" using Cons.prems j c by simp
  from Cons.IH [OF rest] obtain made new errs where IH:
    "b' = (count_job b n res)\<lparr>br_TotalCreated := br_TotalCreated (count_job b n res) + length made,
       br_TotalSkipped := br_TotalSkipped (count_job b n res) + length errs, br_Errors := br_Errors (count_job b n res) @ errs\<rparr>"
    "mset (made @ map fst errs) = mset (map fst jobs)"
    "ls_db s' = (ls_db s1)\<lparr>db_links := db_links (ls_db s1) @ new\<rparr>"
    "list_all2 (\<lambda>n l. \<exists>req d stripped. (n, req) \<in> set jobs \<and> prepare_link cfg (envs n) req who d = Inr (l, stripped)) made new"
    "\<forall>(n, e)\<in>set errs. \<exists>req. (n, req) \<in> set jobs \<and> refused_at cfg envs who s1 new n req e" by blast
  have more: "list_all2 (\<lambda>n l. \<exists>req d stripped. (n, req) \<in> set (j # jobs) \<and> prepare_link cfg (envs n) req who d = Inr (l, stripped)) made new"
    by (rule list_all2_mono [OF IH(4)]) auto
  show ?case
  proof (cases res)
    case (Inl e)
    then have s1: "s1 = s" "evs = []" using Create_refused [of cfg "envs n" req who s s1 e evs] c by simp_all
    have "refused_at cfg envs who s new n req e" unfolding refused_at_def
      by (rule exI [of _ s], rule exI [of _ 0]) (use c Inl s1 in simp)
    then show ?thesis using IH s1(1) more Inl
      by (intro exI [of _ made] exI [of _ new] exI [of _ "(n, e) # errs"]) (auto simp: count_job_def j)
  next
    case (Inr p)
    obtain l stripped where p: "p = (l, stripped)" by (cases p)
    have cr: "prepare_link cfg (envs n) req who (ls_db s) = Inr (l, stripped)"
      "ls_db s1 = (ls_db s)\<lparr>db_links := db_links (ls_db s) @ [l]\<rparr>"
      using CreateD [of cfg "envs n" req who s s1 l stripped evs] c Inr p by simp_all
    have "list_all2 (\<lambda>n l. \<exists>req d stripped. (n, req) \<in> set (j # jobs) \<and> prepare_link cfg (envs n) req who d = Inr (l, stripped)) (n # made) (l # new)"
      using more cr(1) j by auto
    moreover have "\<forall>(n, e)\<in>set errs. \<exists>req. (n, req) \<in> set (j # jobs) \<and> refused_at cfg envs who s (l # new) n req e"
      using IH(5) refused_at_later [OF _ cr(2)] by fastforce
    ultimately show ?thesis using IH(1-3) cr(2) Inr
      by (intro exI [of _ "n # made"] exI [of _ "l # new"] exI [of _ errs]) (simp add: count_job_def j)
  qed
qed

lemma import_jobs_iff:
  "(n, req) \<in> set (import_jobs headers urlIdx rows) \<longleftrightarrow>
   2 \<le> n \<and> n < length rows + 2 \<and> import_request headers urlIdx (rows ! (n - 2)) = Some req"
  by (auto simp: import_jobs_def List.map_filter_def set_zip image_iff intro!: exI [of _ "n - 2"])

lemma import_jobs_numbers:
  "distinct (map fst (import_jobs headers urlIdx rows))"
  "fst ` set (import_jobs headers urlIdx rows) = {n. 2 \<le> n \<and> n < length rows + 2 \<and> field (Some urlIdx) (rows ! (n - 2)) \<noteq> []}"
proof -
  have "distinct (map fst (List.map_filter (\<lambda>(i, row). map_option (Pair (i + 2)) (import_request headers urlIdx row)) ps))"
    if "distinct (map fst ps)" for ps :: "(nat \<times> string list) list"
    using that
  proof (induction ps)
    case (Cons p ps)
    have "fst ` set (List.map_filter (\<lambda>(i, row). map_option (Pair (i + 2)) (import_request headers urlIdx row)) ps)
        \<subseteq> (\<lambda>i. i + 2) ` fst ` set ps" by (force simp: List.map_filter_def)
    moreover have "fst p + 2 \<notin> (\<lambda>i. i + 2) ` fst ` set ps" using Cons.prems by auto
    ultimately show ?case using Cons
      by (cases p; cases "import_request headers urlIdx (snd p)") (auto simp: map_filter_simps)
  qed (simp add: map_filter_simps)
  then show "distinct (map fst (import_jobs headers urlIdx rows))" by (simp add: import_jobs_def)
  have "n \<in> fst ` set (import_jobs headers urlIdx rows) \<longleftrightarrow>
      2 \<le> n \<and> n < length rows + 2 \<and> field (Some urlIdx) (rows ! (n - 2)) \<noteq> []" for n
  proof -
    have "n \<in> fst ` set (import_jobs headers urlIdx rows) \<longleftrightarrow> (\<exists>req. (n, req) \<in> set (import_jobs headers urlIdx rows))"
      by force
    then show ?thesis by (auto simp: import_jobs_iff import_request_def)
  qed
  then show "fst ` set (import_jobs headers urlIdx rows) =
      {n. 2 \<le> n \<and> n < length rows + 2 \<and> field (Some urlIdx) (rows ! (n - 2)) \<noteq> []}" by blast
qed

text \<open>
  Claim C36. What an import did is what its file asked for and what its report says, in whatever
  order its goroutines run: every row with a URL, and no other, is either the source of exactly
  one new link or is reported once, under its number, with the error of a \<open>Create\<close> of that row
  on the table as it was at that moment; the counts are those of the two groups. Each new link
  comes from the cells of its own row (the URL as written and its cleaned form as the target, the
  slug where the row gives one and a valid generated one otherwise, the title or else the slug,
  the hash of the PIN where the row gives one and no PIN otherwise, the click budget where the
  cell is a positive number), is the caller's, active, a 302 on the root domain, without clicks
  or expiry. Nothing else in the database changed. A file without a header, rows or a URL column
  changes nothing; rows without a URL are processed but appear in neither count.
\<close>

theorem ImportCSV_accounts:
  assumes "\<forall>js. mset (sched js) = mset js" and "ImportCSV cfg envs sched records who s = (s', res)"
  shows "(case res of
      Inl e \<Rightarrow> s' = s
    | Inr b \<Rightarrow> \<exists>headers rows urlIdx made new. records = Some (headers # rows) \<and>
        either_column headers [''url'', ''target_url'', ''destination''] = Some urlIdx \<and>
        distinct (made @ map fst (br_Errors b)) \<and>
        set (made @ map fst (br_Errors b)) =
          {n. 2 \<le> n \<and> n < length rows + 2 \<and> field (Some urlIdx) (rows ! (n - 2)) \<noteq> []} \<and>
        br_TotalProcessed b = length rows \<and> br_TotalCreated b = length made \<and>
        br_TotalSkipped b = length (br_Errors b) \<and>
        list_all2 (row_link cfg envs headers urlIdx rows who) made new \<and>
        ls_db s' = (ls_db s)\<lparr>db_links := db_links (ls_db s) @ new\<rparr> \<and>
        (\<forall>(n, e)\<in>set (br_Errors b). \<exists>req. import_request headers urlIdx (rows ! (n - 2)) = Some req \<and>
           refused_at cfg envs who s new n req e))"
proof (cases res)
  case (Inl e)
  then show ?thesis using assms(2)
    by (auto simp: ImportCSV_def split: option.splits list.splits prod.splits)
next
  case (Inr b)
  then obtain headers rows urlIdx where r: "records = Some (headers # rows)"
    "either_column headers [''url'', ''target_url'', ''destination''] = Some urlIdx"
    "run_jobs cfg envs who (sched (import_jobs headers urlIdx rows))
       (s, \<lparr>br_TotalProcessed = length rows, br_TotalCreated = 0, br_TotalSkipped = 0, br_Errors = []\<rparr>) = (s', b)"
    using assms(2) by (auto simp: ImportCSV_def split: option.splits list.splits prod.splits)
  let ?jobs = "import_jobs headers urlIdx rows"
  have perm: "mset (sched ?jobs) = mset ?jobs" using assms(1) by blast
  then have st: "set (sched ?jobs) = set ?jobs" by (metis set_mset_mset)
  from run_jobs_account [OF r(3)] obtain made new errs where acc:
    "b = \<lparr>br_TotalProcessed = length rows, br_TotalCreated = length made, br_TotalSkipped = length errs, br_Errors = errs\<rparr>"
    "mset (made @ map fst errs) = mset (map fst (sched ?jobs))"
    "ls_db s' = (ls_db s)\<lparr>db_links := db_links (ls_db s) @ new\<rparr>"
    "list_all2 (\<lambda>n l. \<exists>req d stripped. (n, req) \<in> set ?jobs \<and> prepare_link cfg (envs n) req who d = Inr (l, stripped)) made new"
    "\<forall>(n, e)\<in>set errs. \<exists>req. (n, req) \<in> set ?jobs \<and> refused_at cfg envs who s new n req e"
    unfolding st by auto
  have numbers: "mset (made @ map fst errs) = mset (map fst ?jobs)" using acc(2) perm by simp
  have "distinct (made @ map fst errs)"
    using mset_eq_imp_distinct_iff [OF numbers] import_jobs_numbers(1) by blast
  moreover have "set (made @ map fst errs) =
      {n. 2 \<le> n \<and> n < length rows + 2 \<and> field (Some urlIdx) (rows ! (n - 2)) \<noteq> []}"
    using mset_eq_setD [OF numbers] import_jobs_numbers(2) [of headers urlIdx rows] by simp
  moreover have "list_all2 (row_link cfg envs headers urlIdx rows who) made new"
    by (rule list_all2_mono [OF acc(4)]) (auto simp: import_jobs_iff intro: row_linkI)
  moreover have "\<forall>(n, e)\<in>set errs. \<exists>req. import_request headers urlIdx (rows ! (n - 2)) = Some req \<and>
      refused_at cfg envs who s new n req e" using acc(5) by (auto simp: import_jobs_iff)
  ultimately show ?thesis using Inr r(1,2) acc(1,3)
    by (intro exI [of _ headers] exI [of _ rows] exI [of _ urlIdx] exI [of _ made] exI [of _ new] |
      simp only: sum.case bulk_result.simps | blast)+
qed

text \<open>
  An export shows a user the links of that user alone and each of them on one line,
  and cannot be imported again: its header has a column "Target URL" and the import looks for
  \<open>target_url\<close>, so importing the records an export wrote fails without creating anything.
\<close>

lemma export_header_no_url: "either_column export_header [''url'', ''target_url'', ''destination''] = None"
proof -
  have t: "trim_space h = h" if "h \<in> set export_header" for h
    using that by (intro trim_visible) (auto simp: export_header_def visible_def byte_def)
  have "map (\<lambda>h. to_lower (trim_space h)) export_header = map to_lower export_header" using t by simp
  moreover have "map to_lower export_header = [''id'', ''slug'', ''domain'', ''target url'', ''original url'', ''title'',
      ''clicks'', ''max clicks'', ''has pin'', ''status'', ''created at'']" by code_simp
  ultimately show ?thesis by (auto simp: either_column_def column_def map_of_eq_None_iff export_header_def)
qed

theorem export_not_importable:
  assumes "ExportCSV rfc3339 env who False d = Inr recs"
  shows "length recs = length (filter (\<lambda>l. l_CreatedBy l = who) (db_links d)) + 1 \<and>
    (\<forall>row\<in>set (tl recs). \<exists>l\<in>set (db_links d). l_CreatedBy l = who \<and> row = export_row rfc3339 (le_now env) (scan_link l)) \<and>
    (\<exists>e. ImportCSV cfg envs sched (Some recs) user s = (s, Inl e))"
proof -
  obtain ls where ls: "ListByUser env who False d = Inr ls" "recs = export_header # map (export_row rfc3339 (le_now env)) ls"
    using assms by (auto simp: ExportCSV_def split: sum.splits)
  have l: "ls = map scan_link (order_desc l_CreatedAt (filter (\<lambda>l. l_CreatedBy l = who) (db_links d)))"
    using ls(1) by (auto simp: ListByUser_def split: if_splits)
  have "length ls = length (filter (\<lambda>l. l_CreatedBy l = who) (db_links d))"
    by (simp add: l order_desc_def)
  then show ?thesis using ls(2) l export_header_no_url
    by (auto simp: ImportCSV_def split: list.splits)
qed


theorem export_not_importable_witness:
  "\<exists>e. ImportCSV example_cfg (\<lambda>n. example_env) (\<lambda>js. js) (Some [export_header]) ''ana'' fresh_service = (fresh_service, Inl e)"
proof -
  have "ExportCSV (\<lambda>t. []) example_env ''ana'' False empty_db = Inr [export_header]"
    by (simp add: ExportCSV_def ListByUser_def example_env_def order_desc_def)
  from export_not_importable [OF this] show ?thesis by blast
qed

text \<open>A file with one row, that of the worked example, and one without a URL.\<close>

definition example_records :: "string list list" where
  "example_records = [[''URL'', ''Slug'', ''pin'', ''max_clicks''],
     [''https://e.com/?utm_source=n&id=7'', ''promo'', ''1234'', ''2''], []]"

lemma example_columns:
  "either_column (hd example_records) [''url'', ''target_url'', ''destination''] = Some 0"
  "either_column (hd example_records) [''slug'', ''custom_slug''] = Some 1"
  "column (hd example_records) ''title'' = None" "column (hd example_records) ''pin'' = Some 2"
  "column (hd example_records) ''max_clicks'' = Some 3"
proof -
  have "map (\<lambda>h. to_lower (trim_space h)) (hd example_records) = map to_lower (hd example_records)"
    by (simp add: example_records_def trim_visible visible_def byte_def)
  moreover have "map to_lower (hd example_records) = [''url'', ''slug'', ''pin'', ''max_clicks'']" by code_simp
  moreover have "length (hd example_records) = 4" by (simp add: example_records_def)
  ultimately show "either_column (hd example_records) [''url'', ''target_url'', ''destination''] = Some 0"
    "either_column (hd example_records) [''slug'', ''custom_slug''] = Some 1"
    "column (hd example_records) ''title'' = None" "column (hd example_records) ''pin'' = Some 2"
    "column (hd example_records) ''max_clicks'' = Some 3"
    by (simp_all add: either_column_def column_def upt_rec)
qed

lemma example_import_request:
  "import_request (hd example_records) 0 (example_records ! 1) = Some (example_req\<lparr>cr_RedirectType := 302\<rparr>)"
  "import_request (hd example_records) 0 [] = None"
proof -
  have "Atoi ''2'' = Some 2" by code_simp
  then show "import_request (hd example_records) 0 (example_records ! 1) = Some (example_req\<lparr>cr_RedirectType := 302\<rparr>)"
    unfolding import_request_def example_columns
    by (simp add: example_records_def example_req_def empty_create_def field_def trim_visible visible_def byte_def)
qed (simp add: import_request_def field_def)

lemma example_create_302:
  "LinkService_Create example_cfg example_env (example_req\<lparr>cr_RedirectType := 302\<rparr>) ''ana'' fresh_service =
   (example_service, Inr (example_link, [''utm_source'']), [(''link.created'', example_link, ''ana'')])"
proof -
  have "new_link cfg env (example_req\<lparr>cr_RedirectType := 302\<rparr>) who target slug pin =
      new_link cfg env example_req who target slug pin" for cfg env who target slug pin
    by (simp add: new_link_def choose_expiry_def example_req_def empty_create_def)
  then have "prepare_link example_cfg example_env (example_req\<lparr>cr_RedirectType := 302\<rparr>) ''ana'' d =
      prepare_link example_cfg example_env example_req ''ana'' d" for d
    by (simp add: prepare_link_def cong del: sum.case_cong_weak option.case_cong_weak prod.case_cong_weak)
  then show ?thesis using example_create by (simp add: LinkService_Create_def)
qed

theorem ImportCSV_accounts_witness:
  "\<exists>b. ImportCSV example_cfg (\<lambda>n. example_env) (\<lambda>js. js) (Some example_records) ''ana'' fresh_service = (example_service, Inr b) \<and>
     br_TotalProcessed b = 2 \<and> br_TotalCreated b = 1 \<and> br_Errors b = [] \<and>
     (\<exists>l. db_links (ls_db example_service) = [l] \<and> l_Slug l = ''promo'' \<and> l_TargetURL l = ''https://e.com/?id=7'' \<and>
        l_HasPIN l \<and> l_MaxClicks l = Some 2 \<and> l_CreatedBy l = ''ana'')"
proof -
  have jobs: "import_jobs (hd example_records) 0 (tl example_records) = [(2, example_req\<lparr>cr_RedirectType := 302\<rparr>)]"
    using example_import_request by (simp add: import_jobs_def example_records_def map_filter_simps)
  let ?b = "\<lparr>br_TotalProcessed = 2, br_TotalCreated = 1, br_TotalSkipped = 0, br_Errors = []\<rparr>"
  have i: "ImportCSV example_cfg (\<lambda>n. example_env) (\<lambda>js. js) (Some example_records) ''ana'' fresh_service = (example_service, Inr ?b)"
    using jobs example_columns(1) example_create_302 by (simp add: ImportCSV_def example_records_def count_job_def)
  have "\<forall>js. mset ((\<lambda>js. js) js) = mset (js :: (nat \<times> create_link_request) list)" by simp
  from ImportCSV_accounts [OF this i] obtain headers rows urlIdx made new where
    f: "Some example_records = Some (headers # rows)"
    "either_column headers [''url'', ''target_url'', ''destination''] = Some urlIdx"
    "set (made @ []) = {n. 2 \<le> n \<and> n < length rows + 2 \<and> field (Some urlIdx) (rows ! (n - 2)) \<noteq> []}"
    "1 = length made" "list_all2 (row_link example_cfg (\<lambda>n. example_env) headers urlIdx rows ''ana'') made new"
    "ls_db example_service = (ls_db fresh_service)\<lparr>db_links := db_links (ls_db fresh_service) @ new\<rparr>"
    by (simp only: sum.case bulk_result.simps list.map) blast
  from f(1) have h12: "headers = hd example_records" "rows = tl example_records" by (metis list.sel(1) option.inject, metis list.sel(3) option.inject)
  moreover from f(2) have "urlIdx = 0" unfolding h12 example_columns by simp
  ultimately have h: "headers = hd example_records" "rows = tl example_records" "urlIdx = 0" by blast+
  have rows: "length rows = 2" "rows ! 1 = []" "rows ! 0 = example_records ! 1" by (simp_all add: h example_records_def)
  from f(4) obtain n where made: "made = [n]" by (cases made) auto
  then have "n \<in> {n. 2 \<le> n \<and> n < length rows + 2 \<and> field (Some urlIdx) (rows ! (n - 2)) \<noteq> []}" using f(3) by auto
  then have "n = 2 \<or> n = 3" "field (Some urlIdx) (rows ! (n - 2)) \<noteq> []" using rows(1) by auto
  then have n: "n = 2" using rows(2) by (auto simp: field_def)
  from f(5) made obtain l where l: "new = [l]" "row_link example_cfg (\<lambda>n. example_env) headers urlIdx rows ''ana'' n l"
    by (auto simp: list_all2_Cons1)
  have cells: "field (Some 0) (rows ! 0) = ''https://e.com/?utm_source=n&id=7''" "field (Some 1) (rows ! 0) = ''promo''"
    "field (Some 2) (rows ! 0) = ''1234''" "field (Some 3) (rows ! 0) = ''2''"
    by (simp_all add: rows(3) example_records_def field_def trim_visible visible_def byte_def)
  have "Atoi ''2'' = Some 2" by code_simp
  then have "l_Slug l = ''promo''" "l_TargetURL l = ''https://e.com/?id=7''" "l_HasPIN l" "l_MaxClicks l = Some 2" "l_CreatedBy l = ''ana''"
    using l(2) example_columns clean_example_string
    by (simp_all add: row_link_def Let_def h n cells [unfolded h] example_cfg_def del: One_nat_def)
  moreover have "db_links (ls_db example_service) = [l]" using f(6) l(1) by (simp add: fresh_service_def empty_db_def)
  ultimately show ?thesis using i by auto
qed

end
