(* ===== verification/Qr.thy ===== *)
theory Qr
  imports Prelude
begin

text \<open>
  The QR code as SVG or PNG, internal/services/qr.go. The library go-qrcode is a parameter:
  \<open>build\<close> gives the matrix of modules, its own border of four included, and \<open>render\<close> the PNG of
  a width. An index out of the matrix, which Go answers with a panic, is \<open>QE_Panic\<close>.
\<close>

datatype qr_error = QE_Empty | QE_Build | QE_Matrix | QE_Panic

type_synonym bitmap = "bool list list"

definition zonaDeSilencio :: nat where "zonaDeSilencio = 4"

definition decimal :: "nat \<Rightarrow> string" where "decimal n = Itoa (int n)"

definition module_segment :: "nat \<times> nat \<Rightarrow> string" where
  "module_segment c = ''M'' @ decimal (fst c) @ '' '' @ decimal (snd c) @ ''h1v1h-1z''"

text \<open>Where the loops draw a module, row by row; \<open>lado\<close> is the side without the border.\<close>

definition drawn_modules :: "bitmap \<Rightarrow> nat \<Rightarrow> (nat \<times> nat) list" where
  "drawn_modules m lado = concat (map (\<lambda>y. map (\<lambda>x. (x + zonaDeSilencio, y + zonaDeSilencio))
     (filter (\<lambda>x. m ! (y + 4) ! (x + 4)) [0..<lado])) [0..<lado])"

definition svg_path :: "bitmap \<Rightarrow> nat \<Rightarrow> string" where
  "svg_path m lado = concat (map module_segment (drawn_modules m lado))"

definition svg_before :: "nat \<Rightarrow> string" where
  \<open>svg_before side =
     ''<svg xmlns="http://www.w3.org/2000/svg" viewBox="0 0 '' @ decimal side @ '' '' @ decimal side @
     ''" shape-rendering="crispEdges" role="img" aria-label="QR code">'' @
     ''<rect width="'' @ decimal side @ ''" height="'' @ decimal side @ ''" fill="#ffffff"/>'' @
     ''<path d="''\<close>

definition svg_after :: string where
  \<open>svg_after = ''" fill="#000000"/></svg>''\<close>

definition SVGDeQR :: "(string \<Rightarrow> bitmap option) \<Rightarrow> string \<Rightarrow> qr_error + string" where
  "SVGDeQR build contenido =
     (if contenido = [] then Inl QE_Empty
      else case build contenido of
        None \<Rightarrow> Inl QE_Build
      | Some matriz \<Rightarrow>
          let lado = int (length matriz) - 2 * 4 in
          if lado < 1 then Inl QE_Matrix
          else if list_ex (\<lambda>y. length (matriz ! (y + 4)) < nat lado + 4) [0..<nat lado] then Inl QE_Panic
          else Inr (svg_before (nat lado + 2 * zonaDeSilencio) @ svg_path matriz (nat lado) @ svg_after))"

definition PNGDeQR :: "(string \<Rightarrow> int \<Rightarrow> string option) \<Rightarrow> string \<Rightarrow> int \<Rightarrow> qr_error + string" where
  "PNGDeQR render contenido px =
     (if contenido = [] then Inl QE_Empty
      else let px = (if px < 64 then 64 else px); px = (if px > 2048 then 2048 else px)
           in case render contenido px of None \<Rightarrow> Inl QE_Build | Some png \<Rightarrow> Inr png)"

section \<open>What a viewer draws\<close>

text \<open>A reader of the path data: the unit squares it fills.\<close>

definition read_segment :: "string \<Rightarrow> ((nat \<times> nat) \<times> string) option" where
  "read_segment s =
     (let a = takeWhile is_digit (drop 1 s); s1 = drop (1 + length a) s;
          b = takeWhile is_digit (drop 1 s1); s2 = drop (1 + length b) s1
      in if has_prefix s ''M'' \<and> has_prefix s1 '' '' \<and> has_prefix s2 ''h1v1h-1z''
         then Some ((dec_value a, dec_value b), drop 8 s2) else None)"

fun read_path :: "nat \<Rightarrow> string \<Rightarrow> (nat \<times> nat) list" where
  "read_path 0 s = []"
| "read_path (Suc n) s = (case read_segment s of None \<Rightarrow> [] | Some (c, r) \<Rightarrow> c # read_path n r)"

lemma decimal_digits: "list_all is_digit (decimal n) \<and> dec_value (decimal n) = n"
  using nat_digits_value [of n] by (simp add: decimal_def Itoa_def is_number_def)

lemma take_decimal: "\<not> is_digit c \<Longrightarrow> takeWhile is_digit (decimal n @ c # r) = decimal n"
  using decimal_digits [of n] by (subst takeWhile_append2) (auto simp: list_all_iff)

lemma read_segment_written: "read_segment (module_segment c @ r) = Some (c, r)"
proof -
  have nd: "\<not> is_digit CHR '' ''" "\<not> is_digit CHR ''h''" by code_simp+
  show ?thesis using take_decimal [OF nd(1), of "fst c"] take_decimal [OF nd(2), of "snd c"]
    by (simp add: read_segment_def module_segment_def Let_def decimal_digits has_prefix_def)
qed

lemma read_path_written: "length cs \<le> n \<Longrightarrow> read_path n (concat (map module_segment cs)) = cs"
proof (induction cs arbitrary: n)
  case Nil
  have "read_segment [] = None" by (simp add: read_segment_def has_prefix_def)
  then show ?case by (cases n) simp_all
next
  case (Cons c cs)
  then obtain k where "n = Suc k" "length cs \<le> k" by (cases n) auto
  with Cons.IH show ?case by (simp add: read_segment_written)
qed

lemma drawn_modules_set:
  "(x, y) \<in> set (drawn_modules m lado) \<longleftrightarrow> 4 \<le> x \<and> x < lado + 4 \<and> 4 \<le> y \<and> y < lado + 4 \<and> m ! y ! x"
proof
  assume "4 \<le> x \<and> x < lado + 4 \<and> 4 \<le> y \<and> y < lado + 4 \<and> m ! y ! x"
  then obtain i j where "x = i + 4" "y = j + 4" "i < lado" "j < lado" "m ! (j + 4) ! (i + 4)"
    by (metis add.commute le_Suc_ex nat_add_left_cancel_less)
  then show "(x, y) \<in> set (drawn_modules m lado)" by (auto simp: drawn_modules_def zonaDeSilencio_def)
qed (auto simp: drawn_modules_def zonaDeSilencio_def)

lemma drawn_modules_distinct: "distinct (drawn_modules m lado)"
proof -
  have d: "distinct (concat (map (\<lambda>y. map (\<lambda>x. (x + 4, y + (4 :: nat))) (f y)) ys))"
    if "distinct ys" "\<And>y. distinct (f y)" for f :: "nat \<Rightarrow> nat list" and ys
    using that by (induction ys) (auto simp: distinct_map inj_on_def)
  show ?thesis unfolding drawn_modules_def zonaDeSilencio_def by (rule d) simp_all
qed

lemma segment_length: "1 \<le> length (module_segment c)"
  by (simp add: module_segment_def)

lemma svg_path_long: "length (drawn_modules m lado) \<le> length (svg_path m lado)"
proof -
  have "length cs \<le> length (concat (map module_segment cs))" for cs
  proof (induction cs)
    case (Cons c cs)
    then show ?case using segment_length [of c] by simp
  qed simp
  then show ?thesis by (simp add: svg_path_def)
qed

text \<open>
  Claim C37. The drawing is the code: for a square matrix with its border, the SVG is an image of the
  side plus eight modules whose path, read back, fills exactly one unit square for each dark
  module inside the border, at the module's own place, each once, and nothing in the quiet zone
  of four modules around them; the PNG never gets a width outside 64 to 2048.
\<close>

theorem SVG_draws_the_code:
  assumes "contenido \<noteq> []" and "build contenido = Some m" and "length m = lado + 8" and "0 < lado"
    and "\<forall>row\<in>set m. length row = lado + 8"
  shows "\<exists>path. SVGDeQR build contenido = Inr (svg_before (lado + 8) @ path @ svg_after) \<and>
    distinct (read_path (length path) path) \<and>
    (\<forall>x y. (x, y) \<in> set (read_path (length path) path) \<longleftrightarrow>
      4 \<le> x \<and> x < lado + 4 \<and> 4 \<le> y \<and> y < lado + 4 \<and> m ! y ! x) \<and>
    PNGDeQR render contenido px =
      (case render contenido (max 64 (min px 2048)) of None \<Rightarrow> Inl QE_Build | Some png \<Rightarrow> Inr png)"
proof (intro exI [of _ "svg_path m lado"] conjI)
  have "\<not> list_ex (\<lambda>y. length (m ! (y + 4)) < lado + 4) [0..<lado]"
    using assms(3,5) by (auto simp: list_ex_iff)
  then show "SVGDeQR build contenido = Inr (svg_before (lado + 8) @ svg_path m lado @ svg_after)"
    using assms(1-4) by (simp add: SVGDeQR_def Let_def zonaDeSilencio_def)
  have rp: "read_path (length (svg_path m lado)) (svg_path m lado) = drawn_modules m lado"
    using read_path_written [OF svg_path_long [of m lado]] by (simp add: svg_path_def)
  show "distinct (read_path (length (svg_path m lado)) (svg_path m lado))" by (simp add: rp drawn_modules_distinct)
  show "\<forall>x y. (x, y) \<in> set (read_path (length (svg_path m lado)) (svg_path m lado)) \<longleftrightarrow>
      4 \<le> x \<and> x < lado + 4 \<and> 4 \<le> y \<and> y < lado + 4 \<and> m ! y ! x" by (simp add: rp drawn_modules_set)
  have "(if (if px < 64 then 64 else px) > 2048 then 2048 else (if px < 64 then 64 else px)) = max 64 (min px 2048)"
    by (auto simp: max_def min_def)
  then show "PNGDeQR render contenido px =
      (case render contenido (max 64 (min px 2048)) of None \<Rightarrow> Inl QE_Build | Some png \<Rightarrow> Inr png)"
    using assms(1) by (simp add: PNGDeQR_def Let_def)
qed

theorem SVG_draws_the_code_witness:
  "\<exists>path. SVGDeQR (\<lambda>c. Some (replicate 9 (replicate 9 True))) ''x'' = Inr (svg_before 9 @ path @ svg_after) \<and>
     (4, 4) \<in> set (read_path (length path) path) \<and> (3, 4) \<notin> set (read_path (length path) path)"
proof -
  have "length (replicate 9 (replicate 9 True)) = 1 + 8" "(0 :: nat) < 1"
    "\<forall>row\<in>set (replicate 9 (replicate 9 True)). length row = 1 + 8" "''x'' \<noteq> []" by simp_all
  from SVG_draws_the_code [OF this(4) refl this(1-3), of "\<lambda>c p. None" 0]
  show ?thesis by auto
qed

end
