(* ===== verification/Readiness.thy ===== *)
theory Readiness
  imports Go_Url
begin

text \<open>
  Opening the database and telling whether it still works: internal/database/db.go, schema.go and
  readiness.go. A schema is the columns of each table. The file system, the SQLite driver and the
  deadline are the fields of an environment: what each call answers when it is made.
\<close>

type_synonym schema = "(string \<times> string list) list"

section \<open>Migrations\<close>

datatype ddl = Create_table string "string list" | Create_index string "string list"

text \<open>\<open>IF NOT EXISTS\<close>: a table that exists is left as it is; an index needs its columns.\<close>

fun run_ddl :: "ddl \<Rightarrow> schema \<Rightarrow> schema option" where
  "run_ddl (Create_table t cols) sch = (case map_of sch t of None \<Rightarrow> Some (sch @ [(t, cols)]) | Some _ \<Rightarrow> Some sch)"
| "run_ddl (Create_index t cols) sch =
     (case map_of sch t of None \<Rightarrow> None | Some cs \<Rightarrow> if list_all (\<lambda>c. c \<in> set cs) cols then Some sch else None)"

definition migrations :: "ddl list" where
  "migrations =
     [Create_table ''oidc_sessions'' [''id'', ''subject'', ''sid'', ''username'', ''access_token'', ''expires_at''],
      Create_index ''oidc_sessions'' [''subject''], Create_index ''oidc_sessions'' [''username''],
      Create_index ''oidc_sessions'' [''expires_at''],
      Create_table ''oidc_logout_jtis'' [''jti'', ''expires_at''],
      Create_table ''links''
        [''id'', ''slug'', ''domain'', ''target_url'', ''original_url'', ''title'', ''folder_id'', ''tags'', ''pin_hash'',
         ''redirect_type'', ''expires_at'', ''max_clicks'', ''click_count'', ''last_clicked_at'', ''created_by'',
         ''is_active'', ''ios_url'', ''android_url'', ''locale_routing'', ''ab_variants'', ''created_at'', ''updated_at''],
      Create_index ''links'' [''domain'', ''slug''], Create_index ''links'' [''created_by''],
      Create_index ''links'' [''folder_id''], Create_index ''links'' [''expires_at''],
      Create_table ''blocked_domains'' [''id'', ''domain'', ''reason'', ''created_at''],
      Create_index ''blocked_domains'' [''domain''],
      Create_table ''custom_domains'' [''id'', ''domain'', ''created_by'', ''is_verified'', ''created_at''],
      Create_index ''custom_domains'' [''created_by''],
      Create_table ''folders'' [''id'', ''name'', ''color'', ''created_by'', ''created_at''],
      Create_index ''folders'' [''created_by''],
      Create_table ''api_keys'' [''id'', ''user_id'', ''name'', ''key_prefix'', ''key_hash'', ''last_used_at'', ''created_at''],
      Create_index ''api_keys'' [''key_hash''], Create_index ''api_keys'' [''user_id''],
      Create_table ''webhooks'' [''id'', ''user_id'', ''url'', ''secret'', ''events'', ''is_active'', ''created_at''],
      Create_index ''webhooks'' [''user_id'']]"

text \<open>The statements one after the other; the first that fails ends the migration.\<close>

fun migrate_from :: "(nat \<Rightarrow> bool) \<Rightarrow> nat \<Rightarrow> ddl list \<Rightarrow> schema \<Rightarrow> schema \<times> bool" where
  "migrate_from flt n [] sch = (sch, True)"
| "migrate_from flt n (q # qs) sch =
     (if flt n then (sch, False)
      else case run_ddl q sch of None \<Rightarrow> (sch, False) | Some sch' \<Rightarrow> migrate_from flt (n + 1) qs sch')"

definition Migrate :: "(nat \<Rightarrow> bool) \<Rightarrow> schema \<Rightarrow> schema \<times> bool" where
  "Migrate flt sch = migrate_from flt 0 migrations sch"

section \<open>Opening and closing\<close>

text \<open>The open database: its pool and the slot of the probe (\<open>dh_opened\<close>), its path, the identity
  of the file it opened, and whether it was closed.\<close>

record db_handle =
  dh_opened :: bool
  dh_path :: string
  dh_identity :: "nat option"
  dh_closed :: bool

definition file_uri :: "string \<Rightarrow> Values \<Rightarrow> string" where
  "file_uri path query = URL_String (empty_url\<lparr>u_Scheme := ''file'', u_Path := path, u_RawQuery := Values_Encode query\<rparr>)"

record open_env =
  op_Abs :: "string \<Rightarrow> string option"
  op_MkdirAll :: "string \<Rightarrow> bool"
  op_Open :: "string \<Rightarrow> bool"
  op_Ping :: "string \<Rightarrow> bool"
  op_fault :: "nat \<Rightarrow> bool"
  op_Lstat :: "string \<Rightarrow> nat option"

definition pool_uri :: "string \<Rightarrow> string" where
  "pool_uri path = file_uri path
     [(''_pragma'', [''journal_mode(WAL)'', ''synchronous(NORMAL)'', ''busy_timeout(5000)'', ''foreign_keys(ON)''])]"

definition Open :: "open_env \<Rightarrow> string \<Rightarrow> schema \<Rightarrow> schema \<times> db_handle option" where
  "Open env dbPath sch =
     (case op_Abs env dbPath of
        None \<Rightarrow> (sch, None)
      | Some path \<Rightarrow>
          if \<not> op_MkdirAll env path then (sch, None)
          else if \<not> op_Open env (pool_uri path) then (sch, None)
          else if \<not> op_Ping env (pool_uri path) then (sch, None)
          else (case Migrate (op_fault env) sch of
             (sch', False) \<Rightarrow> (sch', None)
           | (sch', True) \<Rightarrow>
               (case op_Lstat env path of
                  None \<Rightarrow> (sch', None)
                | Some i \<Rightarrow> (sch', Some \<lparr>dh_opened = True, dh_path = path, dh_identity = Some i, dh_closed = False\<rparr>))))"

definition Close :: "db_handle \<Rightarrow> db_handle" where "Close h = h\<lparr>dh_closed := True\<rparr>"

section \<open>Readiness\<close>

definition readinessColumns :: "string list" where
  "readinessColumns =
     [''SELECT id,subject,sid,username,access_token,expires_at FROM oidc_sessions WHERE 0'',
      ''SELECT jti,expires_at FROM oidc_logout_jtis WHERE 0'',
      ''SELECT id,slug,domain,target_url,original_url,title,folder_id,tags,pin_hash,redirect_type,expires_at,max_clicks,click_count,last_clicked_at,created_by,is_active,ios_url,android_url,locale_routing,ab_variants,created_at,updated_at FROM links WHERE 0'',
      ''SELECT id,domain,reason,created_at FROM blocked_domains WHERE 0'',
      ''SELECT id,domain,created_by,is_verified,created_at FROM custom_domains WHERE 0'',
      ''SELECT id,name,color,created_by,created_at FROM folders WHERE 0'',
      ''SELECT id,user_id,name,key_prefix,key_hash,last_used_at,created_at FROM api_keys WHERE 0'',
      ''SELECT id,user_id,url,secret,events,is_active,created_at FROM webhooks WHERE 0'']"

text \<open>SQLite prepares such a query exactly when the table has the columns.\<close>

definition select_of :: "string \<Rightarrow> (string \<times> string list) option" where
  "select_of stmt =
     (case split_on CHR '' '' stmt of
        [_, cols, _, t, _, _] \<Rightarrow> Some (t, split_on CHR '','' cols)
      | _ \<Rightarrow> None)"

definition has_columns :: "schema \<Rightarrow> string \<times> string list \<Rightarrow> bool" where
  "has_columns sch q =
     (case map_of sch (fst q) of None \<Rightarrow> False | Some cs \<Rightarrow> list_all (\<lambda>c. c \<in> set cs) (snd q))"

definition prepares :: "schema \<Rightarrow> string \<Rightarrow> bool" where
  "prepares sch stmt = (case select_of stmt of None \<Rightarrow> False | Some q \<Rightarrow> has_columns sch q)"

text \<open>What the calls of one probe answer: \<open>pr_late k\<close> and \<open>pr_closed k\<close> are the deadline and a
  close by another goroutine at the \<open>k\<close>-th look, \<open>pr_Lstat\<close> the two looks at the file (is it a
  regular file, and its identity), \<open>pr_connect\<close> a fresh connection and the schema it reads.\<close>

record probe_env =
  pr_slot :: bool
  pr_late :: "nat \<Rightarrow> bool"
  pr_closed :: "nat \<Rightarrow> bool"
  pr_Lstat :: "nat \<Rightarrow> string \<Rightarrow> (bool \<times> nat) option"
  pr_Abs :: "string \<Rightarrow> string option"
  pr_connect :: "string \<Rightarrow> schema option"
  pr_fault :: "string \<Rightarrow> bool"

definition reader_uri :: "string \<Rightarrow> string" where
  "reader_uri path = file_uri path [(''mode'', [''ro'']), (''_pragma'', [''busy_timeout(100)'', ''query_only(1)''])]"

text \<open>The loop over the statements: the deadline is looked at before and after each of them.\<close>

fun prepare_all :: "probe_env \<Rightarrow> schema \<Rightarrow> nat \<Rightarrow> string list \<Rightarrow> bool" where
  "prepare_all env sch k [] = True"
| "prepare_all env sch k (q # qs) =
     (\<not> pr_late env k \<and> \<not> pr_fault env q \<and> prepares sch q \<and> \<not> pr_late env (k + 1) \<and> prepare_all env sch (k + 2) qs)"

definition Ready :: "probe_env \<Rightarrow> db_handle option \<Rightarrow> bool" where
  "Ready env db =
     (case db of
        None \<Rightarrow> False
      | Some h \<Rightarrow>
          if \<not> dh_opened h \<or> dh_closed h then False
          else if \<not> pr_slot env then False
          else if pr_late env 0 \<or> pr_closed env 0 then False
          else (case pr_Lstat env 0 (dh_path h) of
             None \<Rightarrow> False
           | Some (regular, i) \<Rightarrow>
               if \<not> regular \<or> dh_identity h \<noteq> Some i then False
               else (case pr_Abs env (dh_path h) of
                  None \<Rightarrow> False
                | Some path \<Rightarrow>
                    (case pr_connect env (reader_uri path) of
                       None \<Rightarrow> False
                     | Some sch \<Rightarrow>
                         if \<not> prepare_all env sch 1 readinessColumns then False
                         else (case pr_Lstat env 1 (dh_path h) of
                            None \<Rightarrow> False
                          | Some (_, j) \<Rightarrow> dh_identity h = Some j \<and> \<not> pr_closed env 1 \<and> \<not> pr_late env 17)))))"

section \<open>What readiness means\<close>

definition tables :: "ddl list \<Rightarrow> schema" where
  "tables qs = List.map_filter (\<lambda>q. case q of Create_table t cols \<Rightarrow> Some (t, cols) | Create_index t cols \<Rightarrow> None) qs"

text \<open>The schema has every column of every table the migrations create.\<close>

definition migrated :: "schema \<Rightarrow> bool" where
  "migrated sch \<longleftrightarrow> list_all (has_columns sch) (tables migrations)"

lemma statements_are_tables: "map select_of readinessColumns = map Some (tables migrations)"
  by code_simp

lemma prepares_migrated: "list_all (prepares sch) readinessColumns \<longleftrightarrow> migrated sch"
proof -
  have "list_all (prepares sch) readinessColumns =
      list_all (\<lambda>p. case p of None \<Rightarrow> False | Some q \<Rightarrow> has_columns sch q) (map select_of readinessColumns)"
    by (simp add: prepares_def list_all_iff)
  also have "\<dots> = migrated sch" by (simp only: statements_are_tables migrated_def) (simp add: list_all_iff)
  finally show ?thesis .
qed

lemma ends_and_middle: "(\<forall>k<Suc (Suc n). P k) \<longleftrightarrow> P 0 \<and> (\<forall>j<n. P (1 + j)) \<and> P (Suc n)"
  by (subst All_less_Suc2) (auto simp: All_less_Suc)

lemma prepare_all_iff: "prepare_all env sch k qs \<longleftrightarrow>
  (\<forall>j<2 * length qs. \<not> pr_late env (k + j)) \<and> list_all (\<lambda>q. \<not> pr_fault env q) qs \<and> list_all (prepares sch) qs"
proof (induction qs arbitrary: k)
  case (Cons q qs)
  have "(\<forall>j<2 * length (q # qs). \<not> pr_late env (k + j)) \<longleftrightarrow>
      \<not> pr_late env k \<and> \<not> pr_late env (k + 1) \<and> (\<forall>j<2 * length qs. \<not> pr_late env (k + 2 + j))"
    by (simp add: All_less_Suc2)
  with Cons.IH [of "k + 2"] show ?case by auto
qed simp

text \<open>A migration that runs to its end on an empty file makes the schema, and nothing else.\<close>

lemma Migrate_fresh: "Migrate flt [] = (sch, True) \<Longrightarrow> sch = tables migrations"
  by (simp add: Migrate_def migrations_def tables_def List.map_filter_simps split: if_splits)

lemma tables_migrated: "migrated (tables migrations)"
  by code_simp

lemma Open_fresh: "Open env dbPath [] = (sch, Some h) \<Longrightarrow> migrated sch \<and> dh_opened h \<and> \<not> dh_closed h"
  by (auto simp: Open_def tables_migrated dest!: Migrate_fresh split: option.splits if_splits prod.splits bool.splits)

lemma Ready_iff:
  "Ready env (Some h) \<longleftrightarrow>
     dh_opened h \<and> \<not> dh_closed h \<and> pr_slot env \<and> (\<forall>k<18. \<not> pr_late env k) \<and> \<not> pr_closed env 0 \<and> \<not> pr_closed env 1 \<and>
     (\<exists>i b path sch. dh_identity h = Some i \<and> pr_Lstat env 0 (dh_path h) = Some (True, i) \<and>
        pr_Lstat env 1 (dh_path h) = Some (b, i) \<and> pr_Abs env (dh_path h) = Some path \<and>
        pr_connect env (reader_uri path) = Some sch \<and> (\<forall>q\<in>set readinessColumns. \<not> pr_fault env q) \<and> migrated sch)"
proof -
  have len: "length readinessColumns = 8" by (simp add: readinessColumns_def)
  have looks: "(\<forall>k<18. \<not> pr_late env k) \<longleftrightarrow>
      \<not> pr_late env 0 \<and> (\<forall>j<16. \<not> pr_late env (1 + j)) \<and> \<not> pr_late env 17"
    using ends_and_middle [of 16 "\<lambda>k. \<not> pr_late env k"] by simp
  have all: "prepare_all env sch 1 readinessColumns \<longleftrightarrow>
      (\<forall>j<16. \<not> pr_late env (1 + j)) \<and> (\<forall>q\<in>set readinessColumns. \<not> pr_fault env q) \<and> migrated sch" for sch
    unfolding prepare_all_iff prepares_migrated by (simp add: len list_all_iff)
  show ?thesis
  proof (cases "pr_Lstat env 0 (dh_path h)")
    case None
    then show ?thesis by (simp add: Ready_def)
  next
    case (Some a)
    obtain regular i where a: "a = (regular, i)" by (cases a)
    show ?thesis
      by (cases "pr_Lstat env 1 (dh_path h)"; cases "pr_Abs env (dh_path h)"; cases "pr_connect env (reader_uri (the (pr_Abs env (dh_path h))))")
        (auto simp: Ready_def Some a looks all [unfolded One_nat_def])
  qed
qed

text \<open>
  Claim C32. The health check tells the truth: it is green exactly when the database is open, the
  probe got its turn, the deadline had not passed at any of the eighteen looks and nobody closed
  the database meanwhile, the path names, before and after, the very file that was opened (a
  regular one), a fresh read-only connection reads its schema, no statement hits a fault, and
  that schema has every column of every table the migrations declare: the eight queries of
  the probe are the schema, no table and no column forgotten.
\<close>

theorem readiness_exact:
  "Ready env (Some h) \<longleftrightarrow>
     dh_opened h \<and> \<not> dh_closed h \<and> pr_slot env \<and> (\<forall>k<18. \<not> pr_late env k) \<and> \<not> pr_closed env 0 \<and> \<not> pr_closed env 1 \<and>
     (\<exists>i b path sch. dh_identity h = Some i \<and> pr_Lstat env 0 (dh_path h) = Some (True, i) \<and>
        pr_Lstat env 1 (dh_path h) = Some (b, i) \<and> pr_Abs env (dh_path h) = Some path \<and>
        pr_connect env (reader_uri path) = Some sch \<and> (\<forall>q\<in>set readinessColumns. \<not> pr_fault env q) \<and> migrated sch)"
  by (rule Ready_iff)

definition example_open :: open_env where
  "example_open = \<lparr>op_Abs = (\<lambda>p. Some (''/data/'' @ p)), op_MkdirAll = (\<lambda>p. True), op_Open = (\<lambda>u. True),
     op_Ping = (\<lambda>u. True), op_fault = (\<lambda>n. False), op_Lstat = (\<lambda>p. Some 7)\<rparr>"

definition example_probe :: probe_env where
  "example_probe = \<lparr>pr_slot = True, pr_late = (\<lambda>k. False), pr_closed = (\<lambda>k. False),
     pr_Lstat = (\<lambda>k p. Some (True, 7)), pr_Abs = Some, pr_connect = (\<lambda>u. Some (tables migrations)), pr_fault = (\<lambda>q. False)\<rparr>"

definition example_handle :: db_handle where
  "example_handle = \<lparr>dh_opened = True, dh_path = ''/data/linkup.db'', dh_identity = Some 7, dh_closed = False\<rparr>"

theorem readiness_exact_witness:
  "snd (Open example_open ''linkup.db'' []) = Some example_handle \<and> Ready example_probe (Some example_handle) \<and>
   \<not> Ready example_probe (Some (Close example_handle)) \<and>
   \<not> Ready (example_probe\<lparr>pr_connect := \<lambda>u. Some [(''links'', [''id''])]\<rparr>) (Some example_handle)"
proof (intro conjI)
  have "Migrate (\<lambda>n. False) [] = (tables migrations, True)" by code_simp
  then show "snd (Open example_open ''linkup.db'' []) = Some example_handle"
    by (simp add: Open_def example_open_def example_handle_def)
  show "Ready example_probe (Some example_handle)"
    by (auto simp: readiness_exact example_probe_def example_handle_def tables_migrated)
  show "\<not> Ready example_probe (Some (Close example_handle))"
    by (simp add: readiness_exact Close_def)
  have "\<not> migrated [(''links'', [''id''])]" by code_simp
  then show "\<not> Ready (example_probe\<lparr>pr_connect := \<lambda>u. Some [(''links'', [''id''])]\<rparr>) (Some example_handle)"
    by (simp add: readiness_exact)
qed

end
