(* ===== verification/Api_Handlers.thy ===== *)
theory Api_Handlers
  imports Auth Domain_Service Folder_Service Webhook_Service Csv_Service Qr Rate_Limits Readiness
begin

text \<open>
  The REST API, internal/handlers: api.go, api_keys.go, domains.go, folders.go, webhooks.go, bulk.go
  and limites.go. The state of the application is the link service (database and cache), the
  sign-in service, the two limiters, the clicks whose goroutines have not run yet and the events
  handed to the webhook dispatcher. A handler maps a request and a state to the next state and a
  response; the decoders of request bodies are parameters (\<open>None\<close> for a body that is not JSON), and so are
  the quoting of \<open>%q\<close>, date formats and the text of an error (\<open>en_text\<close>).
  A response carries the value that is encoded, with the fields JSON leaves out blanked.
\<close>

record app =
  ap_svc :: link_service
  ap_auth :: auth_service
  ap_guard :: pin_guard
  ap_bucket :: token_bucket
  ap_clicks :: "(string \<times> string \<times> string \<times> string) list"
  ap_events :: "event list"

datatype failure = Fail_link link_error | Fail_clean clean_error | Fail_key key_error | Fail_domain domain_error
  | Fail_folder folder_error | Fail_webhook webhook_error | Fail_csv csv_error | Fail_auth auth_error

record dashboard_data =
  dd_User :: user_session
  dd_Links :: "link list"
  dd_Folders :: "folder list"
  dd_CustomDomains :: "custom_domain list"
  dd_CurrentFolder :: string
  dd_CurrentTag :: string
  dd_TotalLinks :: nat
  dd_TotalClicks :: int
  dd_ActiveLinks :: nat
  dd_ProtectedLinks :: nat
  dd_TotalStripped :: nat
  dd_LastClickAt :: int
  dd_FolderCounts :: "(string \<times> nat) list"
  dd_PublicHost :: string
  dd_DefaultDomain :: string
  dd_QRForgeURL :: string
  dd_AccountURL :: string
  dd_EnrollURL :: string
  dd_IsAdmin :: bool
  dd_FlashSuccess :: string
  dd_FlashError :: string

record settings_data =
  sd_User :: user_session
  sd_APIKeys :: "api_key list"
  sd_CustomDomains :: "custom_domain list"
  sd_Webhooks :: "webhook list"
  sd_PublicHost :: string
  sd_DefaultDomain :: string
  sd_QRForgeURL :: string
  sd_AccountURL :: string
  sd_EnrollURL :: string
  sd_IsAdmin :: bool
  sd_FlashSuccess :: string
  sd_FlashError :: string
  sd_NewAPIKey :: string

record public_preview_data =
  pp_Slug :: string
  pp_CleanURL :: string
  pp_OriginalURL :: string
  pp_StrippedParams :: "string list"
  pp_Title :: string
  pp_HasPIN :: bool
  pp_IsExpired :: bool
  pp_ExpiryReason :: string
  pp_QRForgeLink :: string
  pp_BaseDomain :: string
  pp_CreatedAgo :: string

text \<open>The data of the small pages; the preview adds a title and three addresses to its own data.\<close>

record error_page =
  ep_Title :: string
  ep_Heading :: string
  ep_Message :: string
  ep_StatusCode :: int
  ep_QRForgeURL :: string

record pin_page =
  pn_Title :: string
  pn_Slug :: string
  pn_Error :: "string option"
  pn_QRForgeURL :: string

record preview_page =
  pv_Title :: string
  pv_Data :: public_preview_data
  pv_QRForgeURL :: string
  pv_AccountURL :: string
  pv_EnrollURL :: string

text \<open>
  What a response carries: a JSON value, a file, or a page with the data its template gets; the title
  and the navigation of the dashboard and of the settings are constants. \<open>R_denied\<close> is an error after a text.
\<close>

datatype reply = R_empty | R_text string | R_error string | R_fail failure | R_denied string failure | R_success
  | R_link link | R_created link string "string list" | R_links "link list"
  | R_clean string string "string list" | R_session user_session
  | R_keys "api_key list" | R_key api_key string
  | R_domains "custom_domain list" | R_domain custom_domain
  | R_folders "folder list" | R_folder folder
  | R_webhooks "webhook list" | R_webhook webhook
  | R_bulk bulk_result | R_table "string list list" | R_file string
  | P_landing user_session string string | P_error user_session error_page | P_pin user_session pin_page
  | P_preview user_session preview_page
  | P_dashboard dashboard_data | P_settings settings_data

text \<open>The surroundings of a request; \<open>en_static\<close> is the file server over the embedded assets.\<close>

record app_env =
  en_now :: time
  en_link :: link_env
  en_auth :: auth_env
  en_key :: "key_stmt \<Rightarrow> bool"
  en_folder :: "folder_stmt \<Rightarrow> bool"
  en_domain :: "domain_stmt \<Rightarrow> bool"
  en_webhook :: "webhook_stmt \<Rightarrow> bool"
  en_uuid :: string
  en_key_bytes :: "string option"
  en_secret :: string
  en_resolve :: "string \<Rightarrow> ip list option"
  en_round :: "rat \<Rightarrow> rat"
  en_draw :: "nat option"
  en_compare :: "string \<Rightarrow> string \<Rightarrow> bool"
  en_ready :: "probe_env \<times> db_handle option"
  en_imports :: "nat \<Rightarrow> link_env"
  en_sched :: "(nat \<times> create_link_request) list \<Rightarrow> (nat \<times> create_link_request) list"
  en_upload :: "string list list option option"
  en_rfc3339 :: "int \<Rightarrow> string"
  en_static :: "request \<Rightarrow> reply response"
  en_stamp :: string
  en_quote :: "string \<Rightarrow> string"
  en_text :: "failure \<Rightarrow> string"
  en_qr :: "string \<Rightarrow> bitmap option"
  en_png :: "string \<Rightarrow> int \<Rightarrow> string option"
  en_link_json :: "string \<Rightarrow> create_link_request option"
  en_update_json :: "string \<Rightarrow> update_link_request option"
  en_url_json :: "string \<Rightarrow> string option"
  en_key_json :: "string \<Rightarrow> string option"
  en_domain_json :: "string \<Rightarrow> string option"
  en_folder_json :: "string \<Rightarrow> (string \<times> string) option"
  en_recolour_json :: "string \<Rightarrow> update_folder_request option"
  en_webhook_json :: "string \<Rightarrow> create_webhook_request option"

type_synonym handler = "app_env \<Rightarrow> request \<Rightarrow> app \<Rightarrow> app \<times> reply response"

definition app_cfg :: "app \<Rightarrow> config" where "app_cfg ap = au_cfg (ap_auth ap)"
definition app_db :: "app \<Rightarrow> db" where "app_db ap = ls_db (ap_svc ap)"

definition set_app_db :: "db \<Rightarrow> app \<Rightarrow> app" where
  "set_app_db d ap = ap\<lparr>ap_svc := (ap_svc ap)\<lparr>ls_db := d\<rparr>\<rparr>"

lemma app_simps [simp]:
  "app_db (set_app_db d ap) = d" "ap_auth (set_app_db d ap) = ap_auth ap" "app_cfg (set_app_db d ap) = app_cfg ap"
  "ap_clicks (set_app_db d ap) = ap_clicks ap" "ap_guard (set_app_db d ap) = ap_guard ap"
  "app_db (ap\<lparr>ap_auth := a\<rparr>) = app_db ap" "app_db (ap\<lparr>ap_bucket := b\<rparr>) = app_db ap"
  "app_cfg (ap\<lparr>ap_bucket := b\<rparr>) = app_cfg ap" "app_cfg (ap\<lparr>ap_svc := v\<rparr>) = app_cfg ap"
  "app_db (ap\<lparr>ap_events := es\<rparr>) = app_db ap" "app_db (ap\<lparr>ap_svc := v\<rparr>) = ls_db v"
  by (simp_all add: app_db_def set_app_db_def app_cfg_def)

text \<open>How main.go wires the link service: the instance's own host and the target policy.\<close>

definition link_cfg_of :: "config \<Rightarrow> link_cfg" where
  "link_cfg_of cfg = \<lparr>ls_ownHost = cfg_PublicHost cfg, ls_allowPrivate = cfg_AllowPrivateTargets cfg, ls_webhooks = True\<rparr>"

definition status_only :: "int \<Rightarrow> reply \<Rightarrow> reply response" where
  "status_only code body = \<lparr>rs_Status = code, rs_Headers = [], rs_Cookies = [], rs_Redirect = None, rs_Body = body\<rparr>"

definition sendJSON :: "int \<Rightarrow> reply \<Rightarrow> reply response" where
  "sendJSON code payload = set_header ''Content-Type'' ''application/json'' (status_only code payload)"

text \<open>\<open>http.Error\<close>: plain text, which the browser must not take for anything else.\<close>

definition http_error :: "int \<Rightarrow> reply \<Rightarrow> reply response" where
  "http_error code body = set_header ''X-Content-Type-Options'' ''nosniff''
     (set_header ''Content-Type'' ''text/plain; charset=utf-8'' (status_only code body))"

definition redirect_to :: "string \<Rightarrow> int \<Rightarrow> reply response" where
  "redirect_to url code = (status_only code R_empty)\<lparr>rs_Redirect := Some url\<rparr>"

text \<open>The fields tagged \<open>json:"-"\<close> never reach a response.\<close>

definition json_link :: "link \<Rightarrow> link" where "json_link l = l\<lparr>l_PinHash := []\<rparr>"
definition json_key :: "api_key \<Rightarrow> api_key" where "json_key k = k\<lparr>ak_KeyHash := []\<rparr>"
definition json_webhook :: "webhook \<Rightarrow> webhook" where "json_webhook w = w\<lparr>wh_Secret := []\<rparr>"
definition json_session :: "user_session \<Rightarrow> user_session" where
  "json_session s = s\<lparr>us_APIKeyID := [], us_APIKeyHash := []\<rparr>"

section \<open>Who is calling\<close>

definition bearer_session :: "app_env \<Rightarrow> request \<Rightarrow> app \<Rightarrow> (db \<times> user_session) option" where
  "bearer_session env r ap =
     (if has_prefix (rq_Authorization r) ''Bearer '' then
        (case ValidateKey (en_key env) (ae_sha (en_auth env)) (\<lambda>u. IsAdmin (app_cfg ap) u []) (en_now env)
            (trim_prefix (rq_Authorization r) ''Bearer '') (app_db ap) of
           (d, Inr s) \<Rightarrow> Some (d, s)
         | (d, Inl _) \<Rightarrow> None)
      else None)"

definition getAuthSession :: "app_env \<Rightarrow> request \<Rightarrow> app \<Rightarrow> app \<times> user_session option" where
  "getAuthSession env r ap =
     (case bearer_session env r ap of
        Some (d, s) \<Rightarrow>
          (case AuthorizeAPIKey (en_auth env) (ap_auth ap) s d of
             (a, d1, Inl _) \<Rightarrow> (set_app_db d1 (ap\<lparr>ap_auth := a\<rparr>), None)
           | (a, d1, Inr s1) \<Rightarrow> (set_app_db d1 (ap\<lparr>ap_auth := a\<rparr>), Some s1))
      | None \<Rightarrow>
          (case GetSession (en_auth env) (ap_auth ap) r (app_db ap) of
             (a, d1, Inl _) \<Rightarrow> (set_app_db d1 (ap\<lparr>ap_auth := a\<rparr>), None)
           | (a, d1, Inr s1) \<Rightarrow> (set_app_db d1 (ap\<lparr>ap_auth := a\<rparr>), Some s1)))"

definition unauthorized :: "reply response" where
  "unauthorized = sendJSON 401 (R_error ''Unauthorized'')"

text \<open>The first lines of every handler that needs a caller.\<close>

definition with_session :: "(user_session \<Rightarrow> handler) \<Rightarrow> handler" where
  "with_session k env r ap =
     (case getAuthSession env r ap of
        (ap1, None) \<Rightarrow> (ap1, unauthorized)
      | (ap1, Some s) \<Rightarrow> k s env r ap1)"

section \<open>Links\<close>

definition short_url :: "config \<Rightarrow> link \<Rightarrow> string" where
  "short_url cfg l = ''https://'' @ (if l_Domain l \<noteq> [] then l_Domain l else cfg_DefaultDomain cfg) @ ''/'' @ l_Slug l"

definition CreateLink :: handler where
  "CreateLink = with_session (\<lambda>session env r ap.
     case en_link_json env (rq_Body r) of
       None \<Rightarrow> (ap, sendJSON 400 (R_error ''Invalid request body''))
     | Some req \<Rightarrow>
         (case LinkService_Create (link_cfg_of (app_cfg ap)) (en_link env) req (us_UserID session) (ap_svc ap) of
            (svc, Inl e, evs) \<Rightarrow> (ap\<lparr>ap_svc := svc\<rparr>, sendJSON 400 (R_fail (Fail_link e)))
          | (svc, Inr (l, stripped), evs) \<Rightarrow>
              (ap\<lparr>ap_svc := svc, ap_events := ap_events ap @ evs\<rparr>,
               sendJSON 201 (R_created (json_link l) (short_url (app_cfg ap) l) stripped))))"

definition ListLinks :: handler where
  "ListLinks = with_session (\<lambda>session env r ap.
     case ListByUser (en_link env) (us_UserID session) (us_IsAdmin session) (app_db ap) of
       Inl e \<Rightarrow> (ap, sendJSON 500 (R_error ''Failed to fetch links''))
     | Inr links \<Rightarrow> (ap, sendJSON 200 (R_links (map json_link links))))"

text \<open>The lookup by id and the ownership test that \<open>GetLink\<close> and \<open>LinkQR\<close> share.\<close>

definition own_link :: "string \<Rightarrow> user_session \<Rightarrow> app_env \<Rightarrow> app \<Rightarrow> reply response + link" where
  "own_link i session env ap =
     (case GetByID (en_link env) i (app_db ap) of
        Inl e \<Rightarrow> Inl (sendJSON 404 (R_error ''Link not found''))
      | Inr l \<Rightarrow>
          if \<not> us_IsAdmin session \<and> l_CreatedBy l \<noteq> us_UserID session
          then Inl (sendJSON 403 (R_error ''Forbidden'')) else Inr l)"

definition GetLink :: "string \<Rightarrow> handler" where
  "GetLink i = with_session (\<lambda>session env r ap.
     case own_link i session env ap of
       Inl response \<Rightarrow> (ap, response)
     | Inr l \<Rightarrow> (ap, sendJSON 200 (R_link (json_link l))))"

definition LinkQR :: "string \<Rightarrow> handler" where
  "LinkQR i = with_session (\<lambda>session env r ap.
     case own_link i session env ap of
       Inl response \<Rightarrow> (ap, response)
     | Inr l \<Rightarrow>
         let contenido = short_url (app_cfg ap) l; private = set_header ''Cache-Control'' ''private, max-age=3600'' in
         if has_suffix (rq_Path r) ''.png'' then
           (case PNGDeQR (en_png env) contenido 512 of
              Inl e \<Rightarrow> (ap, private (sendJSON 500 (R_error ''Could not render the QR'')))
            | Inr png \<Rightarrow> (ap, private (set_header ''Content-Type'' ''image/png'' (set_header ''Content-Disposition''
                (''attachment; filename='' @ en_quote env (l_Slug l @ ''.png'')) (status_only 200 (R_file png))))))
         else
           (case SVGDeQR (en_qr env) contenido of
              Inl e \<Rightarrow> (ap, private (sendJSON 500 (R_error ''Could not render the QR'')))
            | Inr svg \<Rightarrow> (ap, private (set_header ''Content-Type'' ''image/svg+xml'' (status_only 200 (R_file svg))))))"

definition UpdateLink :: "string \<Rightarrow> handler" where
  "UpdateLink i = with_session (\<lambda>session env r ap.
     case en_update_json env (rq_Body r) of
       None \<Rightarrow> (ap, sendJSON 400 (R_error ''Invalid JSON body''))
     | Some req \<Rightarrow>
         (case LinkService_Update (link_cfg_of (app_cfg ap)) (en_link env) i req (us_UserID session)
             (us_IsAdmin session) (ap_svc ap) of
            (svc, Inl e) \<Rightarrow> (ap\<lparr>ap_svc := svc\<rparr>, sendJSON 400 (R_fail (Fail_link e)))
          | (svc, Inr l) \<Rightarrow> (ap\<lparr>ap_svc := svc\<rparr>, sendJSON 200 (R_link (json_link l)))))"

definition DeleteLink :: "string \<Rightarrow> handler" where
  "DeleteLink i = with_session (\<lambda>session env r ap.
     case LinkService_Delete (link_cfg_of (app_cfg ap)) (en_link env) i (us_UserID session)
         (us_IsAdmin session) (ap_svc ap) of
       (svc, Some e, evs) \<Rightarrow> (ap\<lparr>ap_svc := svc\<rparr>, sendJSON 400 (R_fail (Fail_link e)))
     | (svc, None, evs) \<Rightarrow> (ap\<lparr>ap_svc := svc, ap_events := ap_events ap @ evs\<rparr>, sendJSON 200 R_success))"

definition CleanPreview :: handler where
  "CleanPreview env r ap =
     (case en_url_json env (rq_Body r) of
        None \<Rightarrow> (ap, sendJSON 400 (R_error ''Invalid request body''))
      | Some url \<Rightarrow>
          (case CleanURL (cfg_AllowPrivateTargets (app_cfg ap)) (cfg_PublicHost (app_cfg ap)) (trim_space url) of
             Inl e \<Rightarrow> (ap, sendJSON 400 (R_fail (Fail_clean e)))
           | Inr (cleanURL, stripped) \<Rightarrow> (ap, sendJSON 200 (R_clean url cleanURL stripped))))"

section \<open>Keys, domains, folders, webhooks\<close>

definition create_key ::
  "app_env \<Rightarrow> config \<Rightarrow> string \<Rightarrow> string \<Rightarrow> db \<Rightarrow> db \<times> (key_error + (api_key \<times> string))" where
  "create_key env cfg name username d =
     (if IsOIDCConfigured cfg
      then APIKeyService_CreateOIDC (en_key env) (ae_sha (en_auth env)) (en_now env) (en_uuid env) (en_key_bytes env) name username d
      else APIKeyService_Create (en_key env) (ae_sha (en_auth env)) (en_now env) (en_uuid env) (en_key_bytes env) name username d)"

definition ListKeys :: handler where
  "ListKeys = with_session (\<lambda>session env r ap.
     case APIKeyService_List (en_key env) (us_UserID session) (us_IsAdmin session) (app_db ap) of
       Inl e \<Rightarrow> (ap, sendJSON 500 (R_fail (Fail_key e)))
     | Inr keys \<Rightarrow> (ap, sendJSON 200 (R_keys (map json_key keys))))"

definition CreateKey :: handler where
  "CreateKey = with_session (\<lambda>session env r ap.
     case en_key_json env (rq_Body r) of
       None \<Rightarrow> (ap, sendJSON 400 (R_error ''Invalid request body''))
     | Some name \<Rightarrow>
         (case create_key env (app_cfg ap) name (us_UserID session) (app_db ap) of
            (d, Inl e) \<Rightarrow> (set_app_db d ap, sendJSON 400 (R_fail (Fail_key e)))
          | (d, Inr (k, secret)) \<Rightarrow> (set_app_db d ap, sendJSON 201 (R_key (json_key k) secret))))"

definition DeleteKey :: "string \<Rightarrow> handler" where
  "DeleteKey i = with_session (\<lambda>session env r ap.
     case APIKeyService_Delete (en_key env) i (us_UserID session) (us_IsAdmin session) (app_db ap) of
       (d, Some e) \<Rightarrow> (set_app_db d ap, sendJSON 400 (R_fail (Fail_key e)))
     | (d, None) \<Rightarrow> (set_app_db d ap, sendJSON 200 R_success))"

definition ListDomains :: handler where
  "ListDomains = with_session (\<lambda>session env r ap.
     case DomainService_List (en_domain env) (us_UserID session) (us_IsAdmin session) (app_db ap) of
       Inl e \<Rightarrow> (ap, sendJSON 500 (R_fail (Fail_domain e)))
     | Inr ds \<Rightarrow> (ap, sendJSON 200 (R_domains ds)))"

definition CreateDomain :: handler where
  "CreateDomain = with_session (\<lambda>session env r ap.
     case en_domain_json env (rq_Body r) of
       None \<Rightarrow> (ap, sendJSON 400 (R_error ''Invalid request body''))
     | Some domain \<Rightarrow>
         (case DomainService_Create (en_domain env) (en_now env) (en_uuid env) domain (us_UserID session) (app_db ap) of
            (d, Inl e) \<Rightarrow> (set_app_db d ap, sendJSON 400 (R_fail (Fail_domain e)))
          | (d, Inr cd) \<Rightarrow> (set_app_db d ap, sendJSON 201 (R_domain cd))))"

definition DeleteDomain :: "string \<Rightarrow> handler" where
  "DeleteDomain i = with_session (\<lambda>session env r ap.
     case DomainService_Delete (en_domain env) i (us_UserID session) (us_IsAdmin session) (app_db ap) of
       (d, Some e) \<Rightarrow> (set_app_db d ap, sendJSON 400 (R_fail (Fail_domain e)))
     | (d, None) \<Rightarrow> (set_app_db d ap, sendJSON 200 R_success))"

definition ListFolders :: handler where
  "ListFolders = with_session (\<lambda>session env r ap.
     case FolderService_List (en_folder env) (us_UserID session) (us_IsAdmin session) (app_db ap) of
       Inl e \<Rightarrow> (ap, sendJSON 500 (R_fail (Fail_folder e)))
     | Inr fs \<Rightarrow> (ap, sendJSON 200 (R_folders fs)))"

definition CreateFolder :: handler where
  "CreateFolder = with_session (\<lambda>session env r ap.
     case en_folder_json env (rq_Body r) of
       None \<Rightarrow> (ap, sendJSON 400 (R_error ''Invalid request body''))
     | Some (name, color) \<Rightarrow>
         (case FolderService_Create (en_folder env) (en_now env) (en_uuid env) name color (us_UserID session) (app_db ap) of
            (d, Inl e) \<Rightarrow> (set_app_db d ap, sendJSON 400 (R_fail (Fail_folder e)))
          | (d, Inr f) \<Rightarrow> (set_app_db d ap, sendJSON 201 (R_folder f))))"

definition UpdateFolder :: "string \<Rightarrow> handler" where
  "UpdateFolder i = with_session (\<lambda>session env r ap.
     case en_recolour_json env (rq_Body r) of
       None \<Rightarrow> (ap, sendJSON 400 (R_error ''Invalid request body''))
     | Some req \<Rightarrow>
         (case FolderService_Update (en_folder env) i req (us_UserID session) (us_IsAdmin session) (app_db ap) of
            (d, Inl e) \<Rightarrow> (set_app_db d ap, sendJSON 400 (R_fail (Fail_folder e)))
          | (d, Inr f) \<Rightarrow> (set_app_db d ap, sendJSON 200 (R_folder f))))"

definition DeleteFolder :: "string \<Rightarrow> handler" where
  "DeleteFolder i = with_session (\<lambda>session env r ap.
     case FolderService_Delete (en_folder env) i (us_UserID session) (us_IsAdmin session) (app_db ap) of
       (d, Some e) \<Rightarrow> (set_app_db d ap, sendJSON 400 (R_fail (Fail_folder e)))
     | (d, None) \<Rightarrow> (set_app_db d ap, sendJSON 200 R_success))"

definition ListWebhooks :: handler where
  "ListWebhooks = with_session (\<lambda>session env r ap.
     case WebhookService_List (en_webhook env) (us_UserID session) (us_IsAdmin session) (app_db ap) of
       Inl e \<Rightarrow> (ap, sendJSON 500 (R_fail (Fail_webhook e)))
     | Inr ws \<Rightarrow> (ap, sendJSON 200 (R_webhooks (map json_webhook ws))))"

definition CreateWebhook :: handler where
  "CreateWebhook = with_session (\<lambda>session env r ap.
     case en_webhook_json env (rq_Body r) of
       None \<Rightarrow> (ap, sendJSON 400 (R_error ''Invalid request body''))
     | Some req \<Rightarrow>
         (case WebhookService_Create (en_webhook env) (NewWebhookService (en_resolve env)) (en_now env) (en_uuid env) (en_secret env) req
             (us_UserID session) (app_db ap) of
            (d, Inl e) \<Rightarrow> (set_app_db d ap, sendJSON 400 (R_fail (Fail_webhook e)))
          | (d, Inr w) \<Rightarrow> (set_app_db d ap, sendJSON 201 (R_webhook (json_webhook w)))))"

definition DeleteWebhook :: "string \<Rightarrow> handler" where
  "DeleteWebhook i = with_session (\<lambda>session env r ap.
     case WebhookService_Delete (en_webhook env) i (us_UserID session) (us_IsAdmin session) (app_db ap) of
       (d, Some e) \<Rightarrow> (set_app_db d ap, sendJSON 400 (R_fail (Fail_webhook e)))
     | (d, None) \<Rightarrow> (set_app_db d ap, sendJSON 200 R_success))"

section \<open>Bulk import and export\<close>

text \<open>\<open>en_upload\<close>: \<open>None\<close> when there is no file field, else what the CSV reader makes of the file.\<close>

definition BulkImport :: handler where
  "BulkImport = with_session (\<lambda>session env r ap.
     case en_upload env of
       None \<Rightarrow> (ap, sendJSON 400 (R_error ''Failed to read uploaded 'file' form field''))
     | Some records \<Rightarrow>
         (case ImportCSV (link_cfg_of (app_cfg ap)) (en_imports env) (en_sched env) records (us_UserID session) (ap_svc ap) of
            (svc, Inl e) \<Rightarrow> (ap\<lparr>ap_svc := svc\<rparr>, sendJSON 400 (R_fail (Fail_csv e)))
          | (svc, Inr b) \<Rightarrow> (ap\<lparr>ap_svc := svc\<rparr>, sendJSON 200 (R_bulk b))))"

definition ExportLinks :: handler where
  "ExportLinks env r ap =
     (case getAuthSession env r ap of
        (ap, None) \<Rightarrow> (ap, http_error 401 (R_text ''Unauthorized''))
      | (ap, Some session) \<Rightarrow>
          (ap, set_header ''Content-Disposition'' (''attachment; filename='' @ en_quote env
              (''linkup_export_'' @ us_Username session @ ''_'' @ en_stamp env @ ''.csv''))
            (case ExportCSV (en_rfc3339 env) (en_link env) (us_UserID session) (us_IsAdmin session) (app_db ap) of
               Inl e \<Rightarrow> http_error 500 (R_denied ''Export failed: '' (Fail_link e))
             | Inr table \<Rightarrow> set_header ''Content-Type'' ''text/csv'' (status_only 200 (R_table table)))))"

section \<open>The write limit\<close>

definition WriteRateLimit :: "handler \<Rightarrow> handler" where
  "WriteRateLimit nxt env r ap =
     (if rq_Method r \<in> {''GET'', ''HEAD'', ''OPTIONS''} then nxt env r ap
      else case getAuthSession env r ap of
        (ap1, None) \<Rightarrow> nxt env r ap1
      | (ap1, Some session) \<Rightarrow>
          (case TokenBucket_Allow (en_round env) (en_now env) (us_UserID session) (ap_bucket ap1) of
             (b, True) \<Rightarrow> nxt env r (ap1\<lparr>ap_bucket := b\<rparr>)
           | (b, False) \<Rightarrow> (ap1\<lparr>ap_bucket := b\<rparr>, set_header ''Retry-After'' ''60''
               (sendJSON 429 (R_error ''Too many writes. Slow down and try again shortly.'')))))"

end
