(* ===== verification/Page_Handlers.thy ===== *)
theory Page_Handlers
  imports Api_Handlers Router_Engine
begin

text \<open>
  The pages, internal/handlers: redirect.go, pin.go, auth.go, settings.go and dashboard.go. A page is
  its data and the session painted in its header. The click of a served link is put in
  \<open>ap_clicks\<close>: it is counted later, by a goroutine (\<open>RecordClick\<close>).
\<close>

definition extractDomain :: "string \<Rightarrow> string \<Rightarrow> string \<Rightarrow> string" where
  "extractDomain hostHeader publicHost defaultDomain =
     (let host = before_char CHR '':'' (to_lower hostHeader) in
      if host \<noteq> ''localhost'' \<and> host \<noteq> ''127.0.0.1'' \<and> host \<noteq> publicHost \<and> host \<noteq> defaultDomain
      then host else [])"

definition request_domain :: "request \<Rightarrow> config \<Rightarrow> string" where
  "request_domain r cfg = extractDomain (rq_Host r) (cfg_PublicHost cfg) (cfg_DefaultDomain cfg)"

text \<open>Hours, minutes and seconds of a positive duration are its quotients.\<close>

definition humanWait :: "int \<Rightarrow> string" where
  "humanWait d =
     (if d < minute_ns then Itoa (d div second_ns + 1) @ '' seconds''
      else Itoa (d div minute_ns + 1) @ '' minutes'')"

definition cabecera :: "app_env \<Rightarrow> request \<Rightarrow> app \<Rightarrow> app \<times> user_session" where
  "cabecera env r ap =
     (case getAuthSession env r ap of (ap1, Some s) \<Rightarrow> (ap1, s) | (ap1, None) \<Rightarrow> (ap1, empty_session))"

definition page :: "int \<Rightarrow> (user_session \<Rightarrow> reply) \<Rightarrow> handler" where
  "page code body env r ap = (case cabecera env r ap of (ap1, user) \<Rightarrow> (ap1, status_only code (body user)))"

definition not_found :: "app \<Rightarrow> app \<times> reply response" where
  "not_found ap = (ap, http_error 404 (R_text ''404 page not found''))"

definition error_of :: "config \<Rightarrow> string \<Rightarrow> string \<Rightarrow> string \<Rightarrow> int \<Rightarrow> user_session \<Rightarrow> reply" where
  "error_of cfg title heading message code u = P_error u \<lparr>ep_Title = title, ep_Heading = heading,
     ep_Message = message, ep_StatusCode = code, ep_QRForgeURL = cfg_QRForgeURL cfg\<rparr>"

definition expired_page :: "link \<Rightarrow> handler" where
  "expired_page l env r ap = page 410 (error_of (app_cfg ap) ''Link Expired'' ''410 - Link Expired''
     (ExpiryReason (le_now (en_link env)) l) 410) env r ap"

definition missing_page :: "string \<Rightarrow> handler" where
  "missing_page message env r ap =
     page 404 (error_of (app_cfg ap) ''Link Not Found'' ''404 - Link Not Found'' message 404) env r ap"

definition redirect_code :: "link \<Rightarrow> int" where
  "redirect_code l = (if l_RedirectType l \<noteq> 301 \<and> l_RedirectType l \<noteq> 302 then 302 else l_RedirectType l)"

section \<open>Following a link\<close>

definition Redirect :: "string \<Rightarrow> handler" where
  "Redirect slug env r ap =
     (if slug = [] then not_found ap
      else case LinkService_Resolve (en_link env) (request_domain r (app_cfg ap)) slug (ap_svc ap) of
        (svc, found, err) \<Rightarrow>
          let ap1 = ap\<lparr>ap_svc := svc\<rparr>;
              missing = missing_page ''The shortened link you requested does not exist or has been removed.'' env r ap1
          in (case found of
                None \<Rightarrow> missing
              | Some l \<Rightarrow>
                  if IsExpired (le_now (en_link env)) l then expired_page l env r ap1
                  else if err \<noteq> None then missing
                  else if l_HasPIN l then (ap1, redirect_to (''/pin/'' @ slug) 303)
                  else (case ResolveDestination (en_draw env)
                          \<lparr>vh_UserAgent = rq_UserAgent r, vh_AcceptLanguage = rq_AcceptLanguage r\<rparr> l of
                     None \<Rightarrow> (ap1, status_only 500 R_empty)
                   | Some (url, variant) \<Rightarrow>
                       (ap1\<lparr>ap_clicks := ap_clicks ap1 @ [(l_ID l, l_Domain l, slug, variant)]\<rparr>,
                        set_header ''Referrer-Policy'' ''no-referrer''
                          (set_header ''Cache-Control'' ''private, no-cache, no-store, must-revalidate''
                            (redirect_to url (redirect_code l)))))))"

definition preview_data :: "config \<Rightarrow> time \<Rightarrow> link \<Rightarrow> public_preview_data" where
  "preview_data cfg now l =
     (let (cleanURL, stripped) = (case CleanURL (cfg_AllowPrivateTargets cfg) (cfg_PublicHost cfg) (l_OriginalURL l) of
            Inl e \<Rightarrow> ([], []) | Inr p \<Rightarrow> p);
          title = (if l_Title l = [] then l_Slug l else l_Title l)
      in \<lparr>pp_Slug = l_Slug l, pp_CleanURL = cleanURL, pp_OriginalURL = l_OriginalURL l, pp_StrippedParams = stripped,
          pp_Title = l_Title l, pp_HasPIN = l_HasPIN l, pp_IsExpired = IsExpired now l, pp_ExpiryReason = ExpiryReason now l,
          pp_QRForgeLink = cfg_QRForgeURL cfg @ ''/new?url='' @ QueryEscape (short_url cfg l) @ ''&title='' @
            QueryEscape title @ ''&from=linkup'', pp_BaseDomain = cfg_DefaultDomain cfg, pp_CreatedAgo = []\<rparr>)"

definition preview_of :: "config \<Rightarrow> time \<Rightarrow> link \<Rightarrow> user_session \<Rightarrow> reply" where
  "preview_of cfg now l u = P_preview u \<lparr>pv_Title = ''Safe Preview - '' @ l_Slug l, pv_Data = preview_data cfg now l,
     pv_QRForgeURL = cfg_QRForgeURL cfg, pv_AccountURL = cfg_AccountURL cfg, pv_EnrollURL = cfg_EnrollURL cfg\<rparr>"

definition Preview :: "string \<Rightarrow> handler" where
  "Preview slug env r ap =
     (if slug = [] then not_found ap
      else case GetBySlugRaw (en_link env) (request_domain r (app_cfg ap)) slug (app_db ap) of
        Inl e \<Rightarrow> missing_page ''The preview link you requested does not exist.'' env r ap
      | Inr l \<Rightarrow>
          if l_HasPIN l then (ap, set_header ''Cache-Control'' ''no-store'' (redirect_to (''/pin/'' @ slug) 303))
          else page 200 (preview_of (app_cfg ap) (le_now (en_link env)) l) env r ap)"

section \<open>The PIN form\<close>

definition pin_of :: "config \<Rightarrow> string \<Rightarrow> string option \<Rightarrow> user_session \<Rightarrow> reply" where
  "pin_of cfg slug err u = P_pin u \<lparr>pn_Title = ''Enter PIN - '' @ slug, pn_Slug = slug, pn_Error = err,
     pn_QRForgeURL = cfg_QRForgeURL cfg\<rparr>"

definition ShowForm :: "string \<Rightarrow> handler" where
  "ShowForm slug env r ap =
     (if slug = [] then not_found ap
      else case GetBySlugRaw (en_link env) (request_domain r (app_cfg ap)) slug (app_db ap) of
        Inl e \<Rightarrow> not_found ap
      | Inr l \<Rightarrow>
          if IsExpired (le_now (en_link env)) l then expired_page l env r ap
          else page 200 (pin_of (app_cfg ap) slug None) env r ap)"

definition Verify :: "string \<Rightarrow> handler" where
  "Verify slug env r ap =
     (if slug = [] then not_found ap
      else case GetBySlugRaw (en_link env) (request_domain r (app_cfg ap)) slug (app_db ap) of
        Inl e \<Rightarrow> not_found ap
      | Inr l \<Rightarrow>
          if IsExpired (le_now (en_link env)) l then expired_page l env r ap
          else (case PINGuard_Locked (en_now env) (l_ID l) (ap_guard ap) of
            (True, wait) \<Rightarrow>
              page 429 (pin_of (app_cfg ap) slug
                (Some (''Too many attempts on this link. Try again in '' @ humanWait wait @ ''.''))) env r ap
          | (False, _) \<Rightarrow>
              if \<not> VerifyPIN (en_compare env) (trim_space (FormValue r ''pin'')) (l_PinHash l)
              then page 401 (pin_of (app_cfg ap) slug (Some ''Incorrect PIN code. Please try again.'')) env r
                     (ap\<lparr>ap_guard := PINGuard_Failed (en_now env) (l_ID l) (ap_guard ap)\<rparr>)
              else (ap\<lparr>ap_guard := PINGuard_Succeeded (l_ID l) (ap_guard ap),
                       ap_clicks := ap_clicks ap @ [(l_ID l, l_Domain l, slug, [])]\<rparr>,
                    set_header ''Referrer-Policy'' ''no-referrer'' (redirect_to (l_TargetURL l) (redirect_code l)))))"

section \<open>Signing in and out\<close>

definition Login :: handler where
  "Login env r ap =
     (let cfg = app_cfg ap in
      if \<not> IsOIDCConfigured cfg then
        (if cfg_DevMode cfg then
           (ap, (redirect_to ''/'' 303)\<lparr>rs_Cookies :=
              (case SetSessionCookie (en_auth env) cfg (dev_session 0) of None \<Rightarrow> [] | Some ck \<Rightarrow> [ck])\<rparr>)
         else (ap, http_error 503 (R_text ''OIDC authentication is not configured on this server.'')))
      else case GetAuthURL (en_auth env) (ap_auth ap) of
        (a, Inl e) \<Rightarrow> (ap\<lparr>ap_auth := a\<rparr>, http_error 500 (R_text ''Authentication provider error''))
      | (a, Inr (url, ck)) \<Rightarrow> (ap\<lparr>ap_auth := a\<rparr>, (redirect_to url 303)\<lparr>rs_Cookies := [ck]\<rparr>))"

definition Callback :: handler where
  "Callback env r ap =
     (case HandleCallback (en_auth env) (ap_auth ap) r (app_db ap) of
        (d, Inl e) \<Rightarrow> (set_app_db d ap, http_error 400 (R_denied ''Authentication failed: '' (Fail_auth e)))
      | (d, Inr session) \<Rightarrow>
          (case SetSessionCookie (en_auth env) (app_cfg ap) session of
             None \<Rightarrow> (set_app_db d ap, http_error 500 (R_text ''Failed to establish session''))
           | Some ck \<Rightarrow> (set_app_db d ap, (redirect_to ''/'' 303)\<lparr>rs_Cookies := [ck]\<rparr>)))"

definition Logout :: handler where
  "Logout env r ap =
     (case RevokeSession (en_auth env) (ap_auth ap) r (app_db ap) of
        (d, Some e) \<Rightarrow> (set_app_db d ap, http_error 503 (R_text ''Failed to revoke session''))
      | (d, None) \<Rightarrow> (set_app_db d ap, (redirect_to ''/'' 303)\<lparr>rs_Cookies := ClearSessionCookie (app_cfg ap)\<rparr>))"

definition BackchannelLogoutHandler :: handler where
  "BackchannelLogoutHandler env r ap =
     (let nostore = set_header ''Cache-Control'' ''no-store'' in
      case (case rq_PostForm r of None \<Rightarrow> None | Some form \<Rightarrow> map_of form ''logout_token'') of
        Some [token] \<Rightarrow>
          (case BackchannelLogout (en_auth env) (ap_auth ap) token (app_db ap) of
             (a, d, Some e) \<Rightarrow> (set_app_db d (ap\<lparr>ap_auth := a\<rparr>), nostore (http_error 400 (R_text ''Logout rejected'')))
           | (a, d, None) \<Rightarrow> (set_app_db d (ap\<lparr>ap_auth := a\<rparr>), nostore (status_only 200 R_empty)))
      | _ \<Rightarrow> (ap, nostore (http_error 400 (R_text ''Invalid logout request''))))"

definition cookie_caller :: "app_env \<Rightarrow> request \<Rightarrow> app \<Rightarrow> app \<times> user_session option" where
  "cookie_caller env r ap =
     (case GetSession (en_auth env) (ap_auth ap) r (app_db ap) of
        (a, d, Inl e) \<Rightarrow> (set_app_db d (ap\<lparr>ap_auth := a\<rparr>), None)
      | (a, d, Inr s) \<Rightarrow> (set_app_db d (ap\<lparr>ap_auth := a\<rparr>), Some s))"

definition Me :: handler where
  "Me env r ap =
     (case cookie_caller env r ap of
        (ap1, None) \<Rightarrow> (ap1, sendJSON 401 (R_error ''Not authenticated''))
      | (ap1, Some s) \<Rightarrow> (ap1, sendJSON 200 (R_session (json_session s))))"

section \<open>Settings\<close>

definition with_cookie :: "(user_session \<Rightarrow> handler) \<Rightarrow> handler" where
  "with_cookie k env r ap =
     (case cookie_caller env r ap of
        (ap1, None) \<Rightarrow> (ap1, redirect_to ''/auth/login'' 303)
      | (ap1, Some s) \<Rightarrow> k s env r ap1)"

definition rows_or_none :: "'e + 'r list \<Rightarrow> 'r list" where
  "rows_or_none res = (case res of Inl e \<Rightarrow> [] | Inr rs \<Rightarrow> rs)"

definition ShowSettings :: handler where
  "ShowSettings = with_cookie (\<lambda>s env r ap.
     (ap, status_only 200 (P_settings \<lparr>sd_User = s,
        sd_APIKeys = rows_or_none (APIKeyService_List (en_key env) (us_UserID s) (us_IsAdmin s) (app_db ap)),
        sd_CustomDomains = rows_or_none (DomainService_List (en_domain env) (us_UserID s) (us_IsAdmin s) (app_db ap)),
        sd_Webhooks = rows_or_none (WebhookService_List (en_webhook env) (us_UserID s) (us_IsAdmin s) (app_db ap)),
        sd_PublicHost = cfg_PublicHost (app_cfg ap), sd_DefaultDomain = cfg_DefaultDomain (app_cfg ap),
        sd_QRForgeURL = cfg_QRForgeURL (app_cfg ap), sd_AccountURL = cfg_AccountURL (app_cfg ap),
        sd_EnrollURL = cfg_EnrollURL (app_cfg ap), sd_IsAdmin = us_IsAdmin s,
        sd_FlashSuccess = query_get r ''success'', sd_FlashError = query_get r ''error'',
        sd_NewAPIKey = query_get r ''new_key''\<rparr>)))"

definition settings_error :: "app_env \<Rightarrow> failure \<Rightarrow> reply response" where
  "settings_error env e = redirect_to (''/settings?error='' @ en_text env e) 303"

definition CreateAPIKeyForm :: handler where
  "CreateAPIKeyForm = with_cookie (\<lambda>s env r ap.
     case create_key env (app_cfg ap) (trim_space (FormValue r ''name'')) (us_UserID s) (app_db ap) of
       (d, Inl e) \<Rightarrow> (set_app_db d ap, settings_error env (Fail_key e))
     | (d, Inr (k, secret)) \<Rightarrow>
         (set_app_db d ap, redirect_to (''/settings?success=API+key+created+successfully&new_key='' @ secret) 303))"

definition CreateDomainForm :: handler where
  "CreateDomainForm = with_cookie (\<lambda>s env r ap.
     case DomainService_Create (en_domain env) (en_now env) (en_uuid env) (trim_space (FormValue r ''domain''))
         (us_UserID s) (app_db ap) of
       (d, Inl e) \<Rightarrow> (set_app_db d ap, settings_error env (Fail_domain e))
     | (d, Inr cd) \<Rightarrow> (set_app_db d ap, redirect_to ''/settings?success=Custom+domain+added+successfully'' 303))"

definition CreateWebhookForm :: handler where
  "CreateWebhookForm = with_cookie (\<lambda>s env r ap.
     let req = \<lparr>cw_URL = trim_space (FormValue r ''url''), cw_Secret = trim_space (FormValue r ''secret''),
                cw_Events = (case map_of (rq_Form r) ''events'' of None \<Rightarrow> [] | Some es \<Rightarrow> es)\<rparr> in
     case WebhookService_Create (en_webhook env) (NewWebhookService (en_resolve env)) (en_now env) (en_uuid env) (en_secret env) req
         (us_UserID s) (app_db ap) of
       (d, Inl e) \<Rightarrow> (set_app_db d ap, settings_error env (Fail_webhook e))
     | (d, Inr w) \<Rightarrow> (set_app_db d ap, redirect_to ''/settings?success=Webhook+endpoint+registered+successfully'' 303))"

section \<open>The dashboard\<close>

text \<open>The filter of the list, and the numbers of the tiles, which read the whole collection.\<close>

definition shown_link :: "string \<Rightarrow> string \<Rightarrow> link \<Rightarrow> bool" where
  "shown_link folderFilter tagFilter l =
     (\<not> (folderFilter \<noteq> [] \<and> l_FolderID l \<noteq> Some folderFilter) \<and>
      (tagFilter = [] \<or> list_ex (\<lambda>t. equal_fold t tagFilter) (l_Tags l)))"

definition protected_link :: "link \<Rightarrow> bool" where
  "protected_link l = (l_HasPIN l \<or> pos_ptr (l_ExpiresAt l) \<or> pos_ptr (l_MaxClicks l))"

definition stripped_count :: "config \<Rightarrow> link \<Rightarrow> nat" where
  "stripped_count cfg l =
     (case CleanURL (cfg_AllowPrivateTargets cfg) (cfg_PublicHost cfg) (l_OriginalURL l) of
        Inl e \<Rightarrow> 0 | Inr (c, stripped) \<Rightarrow> length stripped)"

definition last_click :: "link list \<Rightarrow> int" where
  "last_click ls = foldl (\<lambda>m l. case l_LastClickedAt l of None \<Rightarrow> m | Some t \<Rightarrow> if t > m then t else m) 0 ls"

definition folder_counts :: "link list \<Rightarrow> (string \<times> nat) list" where
  "folder_counts ls = map (\<lambda>i. (i, length (filter (\<lambda>l. l_FolderID l = Some i) ls))) (remdups (List.map_filter l_FolderID ls))"

definition dashboard_of ::
  "config \<Rightarrow> time \<Rightarrow> user_session \<Rightarrow> request \<Rightarrow> link list \<Rightarrow> folder list \<Rightarrow> custom_domain list \<Rightarrow> dashboard_data" where
  "dashboard_of cfg now s r userLinks folders domains =
     (let folderFilter = query_get r ''folder''; tagFilter = query_get r ''tag'' in
     \<lparr>dd_User = s, dd_Links = filter (shown_link folderFilter tagFilter) userLinks, dd_Folders = folders,
      dd_CustomDomains = domains, dd_CurrentFolder = folderFilter, dd_CurrentTag = tagFilter,
      dd_TotalLinks = length userLinks, dd_TotalClicks = wrap64 (\<Sum>l\<leftarrow>userLinks. l_ClickCount l),
      dd_ActiveLinks = length (filter (\<lambda>l. \<not> IsExpired now l) userLinks),
      dd_ProtectedLinks = length (filter protected_link userLinks),
      dd_TotalStripped = (\<Sum>l\<leftarrow>userLinks. stripped_count cfg l), dd_LastClickAt = last_click userLinks,
      dd_FolderCounts = folder_counts userLinks, dd_PublicHost = cfg_PublicHost cfg,
      dd_DefaultDomain = cfg_DefaultDomain cfg, dd_QRForgeURL = cfg_QRForgeURL cfg,
      dd_AccountURL = cfg_AccountURL cfg, dd_EnrollURL = cfg_EnrollURL cfg, dd_IsAdmin = us_IsAdmin s,
      dd_FlashSuccess = query_get r ''success'', dd_FlashError = query_get r ''error''\<rparr>)"

definition Dashboard :: handler where
  "Dashboard env r ap =
     (case cookie_caller env r ap of
        (ap1, None) \<Rightarrow> (ap1, status_only 200 (P_landing empty_session
          ''Short links that do not watch who clicks'' (cfg_EnrollURL (app_cfg ap1))))
      | (ap1, Some s) \<Rightarrow>
          let show = dashboard_of (app_cfg ap1) (le_now (en_link env)) s r in
          (ap1, status_only 200 (P_dashboard
            (case ListByUser (en_link env) (us_UserID s) (us_IsAdmin s) (app_db ap1) of
               Inl e \<Rightarrow> show [] [] []
             | Inr links \<Rightarrow> show links
                 (rows_or_none (FolderService_List (en_folder env) (us_UserID s) (us_IsAdmin s) (app_db ap1)))
                 (rows_or_none (DomainService_List (en_domain env) (us_UserID s) (us_IsAdmin s) (app_db ap1)))))))"

definition pos_number :: "string \<Rightarrow> int option" where
  "pos_number t = (case Atoi t of Some v \<Rightarrow> if v > 0 then Some v else None | None \<Rightarrow> None)"

text \<open>The value \<open>strconv.Atoi\<close> returns beside its error: the nearest bound when the number does not
  fit, else zero.\<close>

definition Atoi_value :: "string \<Rightarrow> int" where
  "Atoi_value t =
     (case Atoi t of
        Some v \<Rightarrow> v
      | None \<Rightarrow>
          if is_number t \<or> (has_prefix t ''+'' \<and> is_number (drop 1 t)) then 2 ^ 63 - 1
          else if has_prefix t ''-'' \<and> is_number (drop 1 t) then - (2 ^ 63) else 0)"

definition form_variants :: "request \<Rightarrow> ab_variant list" where
  "form_variants r =
     (let a = trim_space (FormValue r ''ab_url_a''); b = trim_space (FormValue r ''ab_url_b'') in
      if a \<noteq> [] \<and> b \<noteq> [] then
        (let w = Atoi_value (FormValue r ''ab_weight_a'');
             weightA = (if w \<le> 0 then 50 else w);
             weightB = (if 100 - weightA \<le> 0 then 50 else 100 - weightA)
         in [\<lparr>av_Name = ''Variant A'', av_TargetURL = a, av_Weight = weightA, av_ClickCount = 0\<rparr>,
             \<lparr>av_Name = ''Variant B'', av_TargetURL = b, av_Weight = weightB, av_ClickCount = 0\<rparr>])
      else [])"

definition form_request :: "request \<Rightarrow> create_link_request" where
  "form_request r =
     (let txt = (\<lambda>k. trim_space (FormValue r k)) in
      empty_create\<lparr>cr_URL := txt ''url'', cr_CustomSlug := txt ''custom_slug'', cr_Domain := txt ''domain'',
        cr_Title := txt ''title'', cr_FolderID := (if txt ''folder_id'' \<noteq> [] then Some (txt ''folder_id'') else None),
        cr_Tags := (if txt ''tags'' = [] then []
                    else filter (\<lambda>t. t \<noteq> []) (map trim_space (split_on CHR '','' (txt ''tags'')))),
        cr_PIN := txt ''pin'', cr_RedirectType := (if FormValue r ''redirect_type'' = ''301'' then 301 else 302),
        cr_MaxClicks := pos_number (FormValue r ''max_clicks''),
        cr_ExpiresInHours := pos_number (FormValue r ''expires_in_hours''),
        cr_IOSURL := txt ''ios_url'', cr_AndroidURL := txt ''android_url'', cr_ABVariants := form_variants r\<rparr>)"

definition HandleCreateForm :: handler where
  "HandleCreateForm = with_cookie (\<lambda>s env r ap.
     case LinkService_Create (link_cfg_of (app_cfg ap)) (en_link env) (form_request r) (us_UserID s) (ap_svc ap) of
       (svc, Inl e, evs) \<Rightarrow> (ap\<lparr>ap_svc := svc\<rparr>, redirect_to (''/?error='' @ en_text env (Fail_link e)) 303)
     | (svc, Inr (l, stripped), evs) \<Rightarrow>
         (ap\<lparr>ap_svc := svc, ap_events := ap_events ap @ evs\<rparr>,
          redirect_to (''/?success='' @ ''Clean short link created: /'' @ l_Slug l @
            (if stripped \<noteq> [] then '' (stripped '' @ Itoa (int (length stripped)) @ '' surveillance parameters)'' else [])) 303))"

end
