(* ===== verification/Utf8.thy ===== *)
theory Utf8
  imports Prelude
begin

text \<open>
  The first rune of a Go string, as \<open>range\<close> and package unicode/utf8 read it, and the encoding of a
  rune, \<open>string(r)\<close>. A byte that starts no well-formed sequence is read as U+FFFD.
\<close>

definition RuneError :: nat where "RuneError = 65533"

definition between :: "nat \<Rightarrow> nat \<Rightarrow> char \<Rightarrow> bool" where
  "between lo hi c \<longleftrightarrow> lo \<le> byte c \<and> byte c \<le> hi"

text \<open>The range of the second byte after a first byte of three or four.\<close>

definition second_ok :: "nat \<Rightarrow> char \<Rightarrow> bool" where
  "second_ok b = between (if b = 224 then 160 else if b = 240 then 144 else 128)
     (if b = 237 then 159 else if b = 244 then 143 else 191)"

definition tail6 :: "char \<Rightarrow> nat" where "tail6 c = byte c mod 64"

definition decode_rune :: "string \<Rightarrow> nat option" where
  "decode_rune s =
     (case s of
        [] \<Rightarrow> None
      | c # rest \<Rightarrow>
          let b = byte c in
          Some (if b < 128 then b
            else if 194 \<le> b \<and> b \<le> 223 then
              (case rest of c1 # _ \<Rightarrow> if between 128 191 c1 then b mod 32 * 64 + tail6 c1 else RuneError | _ \<Rightarrow> RuneError)
            else if 224 \<le> b \<and> b \<le> 239 then
              (case rest of c1 # c2 # _ \<Rightarrow>
                 if second_ok b c1 \<and> between 128 191 c2 then b mod 16 * 4096 + tail6 c1 * 64 + tail6 c2 else RuneError
               | _ \<Rightarrow> RuneError)
            else if 240 \<le> b \<and> b \<le> 244 then
              (case rest of c1 # c2 # c3 # _ \<Rightarrow>
                 if second_ok b c1 \<and> between 128 191 c2 \<and> between 128 191 c3
                 then b mod 8 * 262144 + tail6 c1 * 4096 + tail6 c2 * 64 + tail6 c3 else RuneError
               | _ \<Rightarrow> RuneError)
            else RuneError))"

definition valid_rune :: "nat \<Rightarrow> bool" where
  "valid_rune r \<longleftrightarrow> r < 55296 \<or> (57343 < r \<and> r < 1114112)"

definition encode_rune :: "nat \<Rightarrow> string" where
  "encode_rune n =
     (let r = (if valid_rune n then n else RuneError) in
      map char_of
        (if r < 128 then [r]
         else if r < 2048 then [192 + r div 64, 128 + r mod 64]
         else if r < 65536 then [224 + r div 4096, 128 + r div 64 mod 64, 128 + r mod 64]
         else [240 + r div 262144, 128 + r div 4096 mod 64, 128 + r div 64 mod 64, 128 + r mod 64]))"

lemma byte_char_of [simp]: "n < 256 \<Longrightarrow> byte (char_of n) = n"
  by (simp add: byte_def)

lemma add_mod_multiple: "k < m \<Longrightarrow> (c * m + k) mod m = (k :: nat)"
  by simp

lemma tail_byte:
  assumes "k < (64 :: nat)"
  shows "tail6 (char_of (128 + k)) = k" "between 128 191 (char_of (128 + k))"
proof -
  have b: "byte (char_of (128 + k)) = 128 + k" using assms by simp
  show "tail6 (char_of (128 + k)) = k" using add_mod_multiple [OF assms, of 2] by (simp add: tail6_def b)
  show "between 128 191 (char_of (128 + k))" using assms by (simp add: between_def b)
qed

lemma split_low: "(r :: nat) = r div 64 * 64 + r mod 64"
  by (rule div_mult_mod_eq [symmetric])

lemma split_mid: "(r :: nat) = r div 4096 * 4096 + r div 64 mod 64 * 64 + r mod 64"
proof -
  have "r div 64 = r div 4096 * 64 + r div 64 mod 64"
    using div_mult_mod_eq [of "r div 64" 64] div_mult2_eq [of r 64 64] by simp
  then show ?thesis using split_low [of r] by linarith
qed

lemma split_high: "(r :: nat) = r div 262144 * 262144 + r div 4096 mod 64 * 4096 + r div 64 mod 64 * 64 + r mod 64"
proof -
  have "r div 4096 = r div 262144 * 64 + r div 4096 mod 64"
    using div_mult_mod_eq [of "r div 4096" 64] div_mult2_eq [of r 4096 64] by simp
  then show ?thesis using split_mid [of r] by linarith
qed

text \<open>The three longer forms, from their digits.\<close>

lemma decode_two:
  assumes "2 \<le> q" "q < 32" "z < (64 :: nat)"
  shows "decode_rune (char_of (192 + q) # char_of (128 + z) # s) = Some (q * 64 + z)"
proof -
  have "byte (char_of (192 + q)) = 192 + q" using assms by simp
  moreover have "(192 + q) mod 32 = q" using add_mod_multiple [OF assms(2), of 6] by simp
  ultimately show ?thesis using assms tail_byte [OF assms(3)] by (simp add: decode_rune_def Let_def)
qed

lemma decode_three:
  assumes "q < 16" "a < (64 :: nat)" "z < (64 :: nat)" "q = 0 \<longrightarrow> 32 \<le> a" "q = 13 \<longrightarrow> a < 32"
  shows "decode_rune (char_of (224 + q) # char_of (128 + a) # char_of (128 + z) # s) = Some (q * 4096 + a * 64 + z)"
proof -
  have b: "byte (char_of (224 + q)) = 224 + q" "byte (char_of (128 + a)) = 128 + a" using assms by simp_all
  moreover have "(224 + q) mod 16 = q" using add_mod_multiple [OF assms(1), of 14] by simp
  moreover have "second_ok (224 + q) (char_of (128 + a))" using assms b by (auto simp: second_ok_def between_def)
  ultimately show ?thesis using assms tail_byte [OF assms(2)] tail_byte [OF assms(3)]
    by (simp add: decode_rune_def Let_def)
qed

lemma decode_four:
  assumes "q \<le> 4" "y < (64 :: nat)" "a < (64 :: nat)" "z < (64 :: nat)" "q = 0 \<longrightarrow> 16 \<le> y" "q = 4 \<longrightarrow> y < 16"
  shows "decode_rune (char_of (240 + q) # char_of (128 + y) # char_of (128 + a) # char_of (128 + z) # s) =
    Some (q * 262144 + y * 4096 + a * 64 + z)"
proof -
  have b: "byte (char_of (240 + q)) = 240 + q" "byte (char_of (128 + y)) = 128 + y" using assms by simp_all
  moreover have "(240 + q) mod 8 = q" using add_mod_multiple [of q 8 30] assms(1) by simp
  moreover have "second_ok (240 + q) (char_of (128 + y))" using assms b by (auto simp: second_ok_def between_def)
  ultimately show ?thesis using assms tail_byte [OF assms(2)] tail_byte [OF assms(3)] tail_byte [OF assms(4)]
    by (simp add: decode_rune_def Let_def)
qed

text \<open>What is encoded is read back.\<close>

lemma decode_encode:
  assumes v: "valid_rune r"
  shows "decode_rune (encode_rune r @ s) = Some r"
proof -
  define z a y where "z = r mod 64" and "a = r div 64 mod 64" and "y = r div 4096 mod 64"
  have lt: "z < 64" "a < 64" "y < 64" by (simp_all add: z_def a_def y_def)
  note d = z_def [symmetric] a_def [symmetric] y_def [symmetric]
  consider "r < 128" | "128 \<le> r" "r < 2048" | "2048 \<le> r" "r < 65536" | "65536 \<le> r" by linarith
  then show ?thesis
  proof cases
    case 1
    then show ?thesis using v by (simp add: encode_rune_def decode_rune_def)
  next
    case 2
    have r: "r = r div 64 * 64 + z" using split_low [of r] by (simp only: d)
    have "decode_rune (char_of (192 + r div 64) # char_of (128 + z) # s) = Some (r div 64 * 64 + z)"
      by (rule decode_two) (use 2 r lt in linarith)+
    with r 2 v show ?thesis by (simp add: encode_rune_def Let_def d)
  next
    case 3
    have r: "r = r div 4096 * 4096 + a * 64 + z" using split_mid [of r] by (simp only: d)
    have "decode_rune (char_of (224 + r div 4096) # char_of (128 + a) # char_of (128 + z) # s) =
        Some (r div 4096 * 4096 + a * 64 + z)"
      using v unfolding valid_rune_def by (intro decode_three) (use 3 r lt in linarith)+
    with r 3 v show ?thesis by (simp add: encode_rune_def Let_def d)
  next
    case 4
    have r: "r = r div 262144 * 262144 + y * 4096 + a * 64 + z" using split_high [of r] by (simp only: d)
    have "r < 1114112" using v 4 by (auto simp: valid_rune_def)
    then have "decode_rune (char_of (240 + r div 262144) # char_of (128 + y) # char_of (128 + a) # char_of (128 + z) # s) =
        Some (r div 262144 * 262144 + y * 4096 + a * 64 + z)"
      by (intro decode_four) (use 4 r lt in linarith)+
    with r 4 v show ?thesis by (simp add: encode_rune_def Let_def d)
  qed
qed

end
