(* ===== verification/Web_Format.thy ===== *)
theory Web_Format
  imports Models Http Utf8 Complex_Main
begin

text \<open>
  What the templates can call and how a page is rendered, internal/web/embed.go. Optional
  numbers are 64-bit integers; \<open>int(x * 100 / y)\<close> wraps and truncates as Go does, and the one
  computation in floating point rounds with \<open>rnd\<close>, an argument. Formatting of dates, template
  execution and the file server are the library's.
\<close>

text \<open>\<open>asInt64\<close> of a number or of a pointer to one.\<close>

definition asInt64 :: "int option \<Rightarrow> int" where
  "asInt64 v = (case v of None \<Rightarrow> 0 | Some n \<Rightarrow> n)"

definition percent :: "int \<Rightarrow> int \<Rightarrow> int" where
  "percent x y =
     (if y \<le> 0 then 0
      else let p = go_quot (wrap64 (x * 100)) y in if p < 0 then 0 else if p > 100 then 100 else p)"

definition budgetLeft :: "link \<Rightarrow> int" where
  "budgetLeft l =
     (if \<not> pos_ptr (l_MaxClicks l) then 0
      else let left = 100 - percent (l_ClickCount l) (asInt64 (l_MaxClicks l)) in if left < 0 then 0 else left)"

definition lifeLeft :: "(rat \<Rightarrow> rat) \<Rightarrow> time \<Rightarrow> link \<Rightarrow> int" where
  "lifeLeft rnd now l =
     (case l_ExpiresAt l of
        None \<Rightarrow> 0
      | Some e \<Rightarrow>
          if e \<le> 0 \<or> e \<le> l_CreatedAt l then 0
          else if unix now \<ge> e then 0
          else let left = floor (rnd (rnd (rnd (of_int (e - unix now)) / rnd (of_int (e - l_CreatedAt l))) * 100))
               in if left > 100 then 100 else if left < 0 then 0 else left)"

text \<open>\<open>remaining\<close>; the whole hours and minutes of a duration.\<close>

definition remaining :: "time \<Rightarrow> int option \<Rightarrow> string" where
  "remaining now v =
     (let n = asInt64 v; d = time_sub (n * second_ns) now in
      if n \<le> 0 \<or> d \<le> 0 then ''0m''
      else if d \<ge> 48 * hour_ns then Itoa (d div (24 * hour_ns)) @ ''d''
      else if d \<ge> hour_ns then Itoa (d div hour_ns) @ ''h''
      else Itoa (d div minute_ns + 1) @ ''m'')"

definition fmtDate :: "(int \<Rightarrow> string) \<Rightarrow> int option \<Rightarrow> string" where
  "fmtDate layout v = (if asInt64 v \<le> 0 then [] else layout (asInt64 v))"

text \<open>The other two differ in the layout only.\<close>

definition fmtDateTime :: "(int \<Rightarrow> string) \<Rightarrow> int option \<Rightarrow> string" where
  "fmtDateTime layout v = (if asInt64 v \<le> 0 then [] else layout (asInt64 v))"

definition fmtISO :: "(int \<Rightarrow> string) \<Rightarrow> int option \<Rightarrow> string" where
  "fmtISO rfc3339 v = (if asInt64 v \<le> 0 then [] else rfc3339 (asInt64 v))"

text \<open>The loop of \<open>fmtNum\<close>: a comma before a digit when a multiple of three digits is left.\<close>

fun group_digits :: "bool \<Rightarrow> string \<Rightarrow> string" where
  "group_digits first [] = []"
| "group_digits first (c # s) =
     (if \<not> first \<and> length (c # s) mod 3 = 0 then [CHR '','', c] else [c]) @ group_digits False s"

definition fmtNum :: "int option \<Rightarrow> string" where
  "fmtNum v =
     (let s = Itoa (asInt64 v); neg = has_prefix s ''-''; ds = (if neg then drop 1 s else s);
          b = group_digits True ds
      in if neg then ''-'' @ b else b)"

definition hostOf :: "string \<Rightarrow> string" where
  "hostOf raw = (case Url_Parse raw of None \<Rightarrow> raw | Some u \<Rightarrow> if u_Host u = [] then raw else u_Host u)"

definition RequestURI :: "URL \<Rightarrow> string" where
  "RequestURI u =
     (let r = u_Opaque u;
          r = (if r = [] then (if EscapedPath u = [] then ''/'' else EscapedPath u)
               else if has_prefix r ''//'' then u_Scheme u @ '':'' @ r else r)
      in if u_ForceQuery u \<or> u_RawQuery u \<noteq> [] then r @ ''?'' @ u_RawQuery u else r)"

definition restOf :: "string \<Rightarrow> string" where
  "restOf raw =
     (case Url_Parse raw of
        None \<Rightarrow> []
      | Some u \<Rightarrow>
          if u_Host u = [] then []
          else let rest = RequestURI u;
                   rest = (if u_Fragment u \<noteq> [] then rest @ ''#'' @ u_Fragment u else rest)
               in if rest = ''/'' then [] else rest)"

definition linkState :: "time \<Rightarrow> link \<Rightarrow> string" where
  "linkState now l =
     (if \<not> l_IsActive l then ''paused''
      else if time_over now l then ''expired''
      else if budget_spent l then ''spent''
      else ''active'')"

text \<open>
  \<open>initial\<close>, the letter of the avatar. \<open>unicode.ToUpper\<close> on the ASCII letters is written out; what it
  does to the other runes, \<open>upper\<close>, is an argument.
\<close>

definition unicode_ToUpper :: "(nat \<Rightarrow> nat) \<Rightarrow> nat \<Rightarrow> nat" where
  "unicode_ToUpper upper r = (if r < 128 then (if 97 \<le> r \<and> r \<le> 122 then r - 32 else r) else upper r)"

definition initial :: "(nat \<Rightarrow> nat) \<Rightarrow> string \<Rightarrow> string" where
  "initial upper s =
     (case decode_rune (trim_space s) of None \<Rightarrow> ''?'' | Some r \<Rightarrow> encode_rune (unicode_ToUpper upper r))"

text \<open>\<open>Render\<close>: the page's own values win over the common ones. \<open>exec\<close> is template execution.\<close>

definition template_pages :: "string list" where
  "template_pages = [''landing.html'', ''dashboard.html'', ''preview.html'', ''pin.html'', ''error.html'', ''settings.html'']"

text \<open>\<open>NewRenderer\<close>: every page is parsed with the layout; one that cannot be parsed ends the program.\<close>

fun parse_pages :: "(string \<Rightarrow> string \<Rightarrow> 'o option) \<Rightarrow> string list \<Rightarrow> (string \<times> 'o) list option" where
  "parse_pages parse [] = Some []"
| "parse_pages parse (p # ps) =
     (case parse ''templates/layout.html'' (''templates/'' @ p) of
        None \<Rightarrow> None
      | Some t \<Rightarrow> (case parse_pages parse ps of None \<Rightarrow> None | Some ts \<Rightarrow> Some ((p, t) # ts)))"

definition NewRenderer :: "(string \<Rightarrow> string \<Rightarrow> 'o option) \<Rightarrow> (string \<times> 'o) list option" where
  "NewRenderer parse = parse_pages parse template_pages"

definition Render ::
  "string set \<Rightarrow> (string \<Rightarrow> ('k \<rightharpoonup> 'v) \<Rightarrow> 'o) \<Rightarrow> ('k \<rightharpoonup> 'v) \<Rightarrow> string \<Rightarrow> ('k \<rightharpoonup> 'v) \<Rightarrow> 'o option" where
  "Render templates exec comunes name mapa =
     (if name \<notin> templates then None else Some (exec name (comunes ++ mapa)))"

text \<open>The version of the static files: a digest of all of them, in the order of their paths.\<close>

definition AssetVersion :: "(string \<Rightarrow> string) \<Rightarrow> (string \<times> string) list \<Rightarrow> string" where
  "AssetVersion digest files = take 12 (digest (concat (map (\<lambda>(p, b). p @ b) (sort_key fst files))))"

definition static_cache_control :: "string \<Rightarrow> request \<Rightarrow> string" where
  "static_cache_control version r =
     (if query_get r ''v'' = version then ''public, max-age=31536000, immutable'' else ''public, max-age=86400'')"

section \<open>Properties\<close>

text \<open>The avatar shows one rune, the first of the name, and one that is already a capital as it stands.\<close>

lemma initial_first_rune:
  assumes "trim_space s = encode_rune r @ rest" and "valid_rune r" and "valid_rune (unicode_ToUpper upper r)"
  shows "decode_rune (initial upper s) = Some (unicode_ToUpper upper r)"
    and "unicode_ToUpper upper r = r \<Longrightarrow> initial upper s = encode_rune r"
proof -
  have "decode_rune (trim_space s) = Some r" using assms(1,2) by (simp add: decode_encode)
  then have i: "initial upper s = encode_rune (unicode_ToUpper upper r)" by (simp add: initial_def)
  show "decode_rune (initial upper s) = Some (unicode_ToUpper upper r)"
    using decode_encode [OF assms(3), of "[]"] by (simp add: i)
  show "unicode_ToUpper upper r = r \<Longrightarrow> initial upper s = encode_rune r" by (simp add: i)
qed

lemma le_quotient_iff: "0 < m \<Longrightarrow> k \<le> n div m \<longleftrightarrow> k * m \<le> (n :: int)"
proof
  assume m: "0 < m" and "k \<le> n div m"
  then have "k * m \<le> n div m * m" by (simp add: mult_right_mono)
  also have "\<dots> \<le> n" using m pos_mod_sign [OF m, of n] div_mult_mod_eq [of n m] by linarith
  finally show "k * m \<le> n" .
next
  assume m: "0 < m" and "k * m \<le> n"
  from zdiv_mono1 [OF this(2) m] m show "k \<le> n div m" by simp
qed

text \<open>
  A percentage is always between 0 and 100, overflow of the product included, and without
  overflow it is the exact quotient, cut at 100; what is left of a click budget is its
  complement and is zero exactly when the budget is spent, unless the count is negative.
\<close>

theorem percent_bounds:
  "0 \<le> percent x y \<and> percent x y \<le> 100 \<and>
   (0 \<le> x \<and> x < 2 ^ 56 \<and> 0 < y \<longrightarrow> percent x y = min 100 (100 * x div y)) \<and>
   (0 \<le> l_ClickCount l \<and> l_ClickCount l < 2 ^ 56 \<and> pos_ptr (l_MaxClicks l) \<longrightarrow>
      (budgetLeft l = 0 \<longleftrightarrow> budget_spent l)) \<and>
   0 \<le> budgetLeft l \<and> budgetLeft l \<le> 100"
proof -
  have b: "0 \<le> percent x y \<and> percent x y \<le> 100" for x y by (simp add: percent_def Let_def)
  have e: "percent x y = min 100 (100 * x div y)" if "0 \<le> x" "x < 2 ^ 56" "0 < y" for x y
  proof -
    have "wrap64 (x * 100) = x * 100" using that by (intro wrap64_id) auto
    moreover have "0 \<le> x * 100 div y" using that by (simp add: pos_imp_zdiv_nonneg_iff)
    ultimately show ?thesis using that by (simp add: percent_def Let_def go_quot_nonneg mult.commute min_def)
  qed
  have s: "budgetLeft l = 0 \<longleftrightarrow> budget_spent l"
    if a: "0 \<le> l_ClickCount l" "l_ClickCount l < 2 ^ 56" "pos_ptr (l_MaxClicks l)"
  proof -
    obtain m where m: "l_MaxClicks l = Some m" "0 < m" using a(3) by (cases "l_MaxClicks l") auto
    have "100 \<le> 100 * l_ClickCount l div m \<longleftrightarrow> m \<le> l_ClickCount l"
      using le_quotient_iff [OF m(2), of 100 "100 * l_ClickCount l"] by simp
    then show ?thesis using e [OF a(1,2) m(2)] m b [of "l_ClickCount l" m]
      by (auto simp: budgetLeft_def budget_spent_def asInt64_def Let_def)
  qed
  have bl: "0 \<le> budgetLeft l \<and> budgetLeft l \<le> 100"
    using b [of "l_ClickCount l" "asInt64 (l_MaxClicks l)"] by (simp add: budgetLeft_def Let_def)
  show ?thesis using b [of x y] e [of x y] s bl by blast
qed

theorem percent_bounds_witness: "percent 1 3 = 33 \<and> budgetLeft (zero_link\<lparr>l_MaxClicks := Some 3, l_ClickCount := 3\<rparr>) = 0"
  using percent_bounds [of 1 3 "zero_link\<lparr>l_MaxClicks := Some 3, l_ClickCount := 3\<rparr>"]
  by (simp add: budget_spent_def zero_link_def)

lemma group_digits_flat: "CHR '','' \<notin> set s \<Longrightarrow> filter (\<lambda>c. c \<noteq> CHR '','') (group_digits first s) = s"
  by (induction first s rule: group_digits.induct) auto

lemma group_digits_parts:
  "CHR '','' \<notin> set s \<Longrightarrow> split_on CHR '','' (group_digits False s) = p # ps \<Longrightarrow>
   length p = length s mod 3 \<and> (\<forall>q\<in>set ps. length q = 3)"
proof (induction s arbitrary: p ps)
  case (Cons c s)
  obtain q qs where q: "split_on CHR '','' (group_digits False s) = q # qs"
    by (cases "split_on CHR '','' (group_digits False s)") auto
  then have IH: "length q = length s mod 3" "\<forall>x\<in>set qs. length x = 3" using Cons by auto
  have c: "c \<noteq> CHR '',''" using Cons.prems(1) by auto
  show ?case
  proof (cases "length (c # s) mod 3 = 0")
    case True
    then have "p = []" "ps = (c # q) # qs" using Cons.prems(2) q c by auto
    moreover have "Suc (length s mod 3) = 3" using True by simp presburger
    ultimately show ?thesis using IH True by simp
  next
    case False
    then have "p = c # q" "ps = qs" using Cons.prems(2) q c by auto
    moreover have "Suc (length s mod 3) = length (c # s) mod 3" using False by simp presburger
    ultimately show ?thesis using IH by simp
  qed
qed auto

lemma nat_digits_plain: "CHR '','' \<notin> set (nat_digits n) \<and> nat_digits n \<noteq> []"
  using nat_digits_value [of n] by (auto simp: is_number_def list_all_iff is_digit_def byte_def)

text \<open>
  Numbers are shown with their thousands apart and nothing lost: without the commas the
  text is the number's decimal text, which reads back as the same 64-bit number, and after
  the sign the commas leave groups of three digits behind a first one of one to three.
\<close>

theorem fmtNum_roundtrip:
  "filter (\<lambda>c. c \<noteq> CHR '','') (fmtNum v) = Itoa (asInt64 v) \<and>
   (- (2 ^ 63) \<le> asInt64 v \<and> asInt64 v < 2 ^ 63 \<longrightarrow>
      Atoi (filter (\<lambda>c. c \<noteq> CHR '','') (fmtNum v)) = Some (asInt64 v)) \<and>
   (\<exists>p ps. split_on CHR '','' (trim_prefix (fmtNum v) ''-'') = p # ps \<and>
      length p \<in> {1, 2, 3} \<and> (\<forall>q\<in>set ps. length q = 3))"
proof -
  let ?n = "asInt64 v"
  define ds where "ds = nat_digits (nat \<bar>?n\<bar>)"
  have ds: "CHR '','' \<notin> set ds" "ds \<noteq> []" "\<not> has_prefix ds ''-''"
    using nat_digits_plain nat_digits_sign by (simp_all add: ds_def)
  have it: "Itoa ?n = (if ?n < 0 then ''-'' @ ds else ds)" by (auto simp: Itoa_def ds_def abs_if)
  then have f: "fmtNum v = (if ?n < 0 then ''-'' @ group_digits True ds else group_digits True ds)"
    using ds(3) by (auto simp: fmtNum_def Let_def has_prefix_def)
  have flat: "filter (\<lambda>c. c \<noteq> CHR '','') (fmtNum v) = Itoa ?n"
    using group_digits_flat [OF ds(1)] by (simp add: f it)
  obtain c s where cs: "ds = c # s" using ds(2) by (cases ds) auto
  then have c: "c \<noteq> CHR '',''" "CHR '','' \<notin> set s" "c \<noteq> CHR ''-''" using ds(1,3) by (auto simp: has_prefix_def)
  obtain q qs where q: "split_on CHR '','' (group_digits False s) = q # qs"
    by (cases "split_on CHR '','' (group_digits False s)") auto
  have g: "group_digits True ds = c # group_digits False s" by (simp add: cs)
  have tp: "trim_prefix (fmtNum v) ''-'' = group_digits True ds"
    using c(3) by (auto simp: f trim_prefix_def has_prefix_def g)
  have "split_on CHR '','' (trim_prefix (fmtNum v) ''-'') = (c # q) # qs" using c q by (simp add: tp g)
  moreover have "length (c # q) \<in> {1, 2, 3}" "\<forall>x\<in>set qs. length x = 3"
    using group_digits_parts [OF c(2) q] by auto
  ultimately show ?thesis using flat Atoi_Itoa [of ?n] by auto
qed

theorem fmtNum_roundtrip_witness: "filter (\<lambda>c. c \<noteq> CHR '','') (fmtNum (Some (-12480))) = Itoa (-12480)"
  using fmtNum_roundtrip [of "Some (-12480)"] by (simp add: asInt64_def)

text \<open>
  The pill and the redirect agree: a link is shown as active exactly when it is not
  expired for a visitor, and each other state comes with the reason a visitor is given.
\<close>

theorem linkState_agrees:
  "(linkState now l = ''active'' \<longleftrightarrow> \<not> IsExpired now l) \<and>
   ExpiryReason now l =
     (if linkState now l = ''paused'' then ''This link has been deactivated by its owner.''
      else if linkState now l = ''expired'' then ''This link has expired based on its scheduled time limit.''
      else if linkState now l = ''spent'' then ''This link has self-destructed after reaching its maximum click budget.''
      else [])"
  by (auto simp: linkState_def IsExpired_def ExpiryReason_def)

end
