(* ===== verification/Sessions.thy ===== *)
theory Sessions
  imports Auth
begin

text \<open>
  What sign-in promises: a session is as good as the provider's current word and the row in the
  database, revocation reaches copies of a cookie, a logout token works once, an API key works
  only beside a live login of its owner.
\<close>

section \<open>What a success implies\<close>

lemma authorizeWithProvider_Inr:
  assumes "authorizeWithProvider env cfg token session = Inr s"
  shows "ae_Valid env (ae_now env) token \<and> us_UserID session \<noteq> [] \<and>
    (\<exists>info gs. ae_UserInfo env (ot_AccessToken token) = Some info \<and> ui_Subject info = us_UserID session \<and>
      ui_Groups info = Some gs \<and>
      us_Groups s = (if gs = [] then groupsFromAccessToken env (ot_AccessToken token) else gs)) \<and>
    s = session\<lparr>us_Groups := us_Groups s\<rparr> \<and>
    (cfg_RequiredGroup cfg \<noteq> [] \<longrightarrow> cfg_RequiredGroup cfg \<in> set (us_Groups s))"
proof -
  obtain info gs where i: "ae_UserInfo env (ot_AccessToken token) = Some info" "ui_Groups info = Some gs"
    "ui_Subject info = us_UserID session" "us_UserID session \<noteq> []" "ae_Valid env (ae_now env) token"
    using assms by (auto simp: authorizeWithProvider_def split: if_splits option.splits)
  let ?g = "if gs = [] then groupsFromAccessToken env (ot_AccessToken token) else gs"
  have "s = session\<lparr>us_Groups := ?g\<rparr>" "cfg_RequiredGroup cfg \<noteq> [] \<longrightarrow> cfg_RequiredGroup cfg \<in> set ?g"
    using assms i by (auto simp: authorizeWithProvider_def Let_def split: if_splits)
  with i show ?thesis by simp
qed

lemma us_SessionID_groups: "us_SessionID (s\<lparr>us_Groups := gs\<rparr>) = us_SessionID s"
  by simp

lemma authorizeSession_Inr:
  assumes "authorizeSession env a session d = (a', d', Inr s)"
  shows "au_hasDB a \<and> d' = ae_Meanwhile env d \<and>
    (\<exists>row raw. session_row (us_SessionID session) d = Some row \<and> os_subject row = us_UserID session \<and>
      os_username row = us_Username session \<and> unix (ae_now env) < os_expires_at row \<and>
      decryptAESGCM env (os_access_token row) (cfg_SessionSecret (au_cfg a)) = Some raw \<and>
      authorizeWithProvider env (au_cfg a) \<lparr>ot_AccessToken = raw,
        ot_Expiry = Some (os_expires_at row * second_ns), ot_IDToken = None\<rparr> session = Inr s) \<and>
    (\<exists>r\<in>set (db_oidc_sessions d'). os_id r = us_SessionID session \<and> unix (ae_later env) < os_expires_at r)"
  using assms
  by (auto simp: authorizeSession_def Let_def query_row_def
      split: if_splits option.splits sum.splits prod.splits dest!: find_Some_in)

lemma authorizeSession_no_row:
  "session_row (us_SessionID session) d = None \<Longrightarrow> \<exists>e. authorizeSession env a session d = (a, d, Inl e)"
  by (auto simp: authorizeSession_def query_row_def split: if_splits)

lemma GetSession_cookie:
  assumes "IsOIDCConfigured (au_cfg a)" and "GetSession env a r d = (a', d', Inr s)"
  shows "\<exists>c s0. cookie_session env (au_cfg a) r = Some c \<and> 0 < us_CreatedAt c \<and> us_CreatedAt c \<le> unix (ae_now env) \<and>
    unix (ae_now env) - us_CreatedAt c < ttl_seconds \<and> authorizeSession env a c d = (a', d', Inr s0) \<and>
    s = s0\<lparr>us_IsAdmin := IsAdmin (au_cfg a) (us_Username s0) (us_Groups s0)\<rparr>"
  using assms
  by (auto simp: GetSession_def cookie_session_def Let_def
      split: option.splits list.splits if_splits prod.splits sum.splits)

text \<open>
  Claim C5. A session is never taken on the cookie's word: with OIDC configured, \<open>GetSession\<close> returns
  one only for a cookie this server sealed less than twelve hours ago, when the database holds
  an unexpired row of that session for that subject and name, UserInfo, asked with the token of
  that row, answers now for the same subject, and the row is still there afterwards, whatever other
  requests did to the database in the meantime. The groups of the session are those of that answer
  (those of the row's token when the answer lists none), never the cookie's; the required group is
  among them, and administrator rights come from them.
\<close>

theorem GetSession_live:
  assumes "IsOIDCConfigured (au_cfg a)" and "GetSession env a r d = (a', d', Inr s)"
  shows "\<exists>c. cookie_session env (au_cfg a) r = Some c \<and> us_SessionID s = us_SessionID c \<and> us_UserID s = us_UserID c \<and>
    0 \<le> unix (ae_now env) - us_CreatedAt c \<and> unix (ae_now env) - us_CreatedAt c < 43200 \<and>
    (\<exists>row raw info. session_row (us_SessionID s) d = Some row \<and> os_subject row = us_UserID s \<and>
      os_username row = us_Username s \<and> unix (ae_now env) < os_expires_at row \<and>
      decryptAESGCM env (os_access_token row) (cfg_SessionSecret (au_cfg a)) = Some raw \<and>
      ae_UserInfo env raw = Some info \<and> ui_Subject info = us_UserID s \<and>
      (\<exists>gs. ui_Groups info = Some gs \<and> us_Groups s = (if gs = [] then groupsFromAccessToken env raw else gs))) \<and>
    (cfg_RequiredGroup (au_cfg a) \<noteq> [] \<longrightarrow> cfg_RequiredGroup (au_cfg a) \<in> set (us_Groups s)) \<and>
    (\<exists>row\<in>set (db_oidc_sessions d'). os_id row = us_SessionID s \<and> unix (ae_later env) < os_expires_at row) \<and>
    us_IsAdmin s = IsAdmin (au_cfg a) (us_Username s) (us_Groups s)"
proof -
  obtain c s0 where c: "cookie_session env (au_cfg a) r = Some c" "us_CreatedAt c \<le> unix (ae_now env)"
    "unix (ae_now env) - us_CreatedAt c < ttl_seconds" "authorizeSession env a c d = (a', d', Inr s0)"
    "s = s0\<lparr>us_IsAdmin := IsAdmin (au_cfg a) (us_Username s0) (us_Groups s0)\<rparr>"
    using GetSession_cookie [OF assms] by blast
  note as = authorizeSession_Inr [OF c(4)]
  then obtain row raw where row: "session_row (us_SessionID c) d = Some row" "os_subject row = us_UserID c"
    "os_username row = us_Username c" "unix (ae_now env) < os_expires_at row"
    "decryptAESGCM env (os_access_token row) (cfg_SessionSecret (au_cfg a)) = Some raw"
    "authorizeWithProvider env (au_cfg a) \<lparr>ot_AccessToken = raw,
        ot_Expiry = Some (os_expires_at row * second_ns), ot_IDToken = None\<rparr> c = Inr s0" by blast
  note ap = authorizeWithProvider_Inr [OF row(6), unfolded oauth_token.select_convs]
  then have s0: "s0 = c\<lparr>us_Groups := us_Groups s0\<rparr>" by blast
  have same: "us_SessionID s = us_SessionID c" "us_UserID s = us_UserID c" "us_Username s = us_Username c"
    "us_Groups s = us_Groups s0" "us_IsAdmin s = IsAdmin (au_cfg a) (us_Username s) (us_Groups s)"
    by (simp add: c(5), subst s0, simp)+ (simp_all add: c(5))
  have t: "ttl_seconds = 43200" by (simp add: ttl_seconds_def SessionTTL_def duration_defs)
  show ?thesis
    using c(1,2,3) row(1-5) as ap same unfolding t
    by (intro exI [of _ c]) (auto split del: if_split)
qed

section \<open>Revocation\<close>

text \<open>
  Claim C18. Signing out reaches every copy: when \<open>RevokeSession\<close> succeeds on a cookie with a
  session id, no cookie with that id opens a session any more, whatever the provider says and
  whatever the copy's age, as long as no later sign-in draws the same random id.
\<close>

theorem revoked_session_dead:
  assumes "IsOIDCConfigured (au_cfg a)" and "RevokeSession env a r d = (d', None)"
    and "cookie_session env (au_cfg a) r = Some c" and "us_SessionID c \<noteq> []"
    and "\<forall>row\<in>set (db_oidc_sessions d2). os_id row = us_SessionID c \<longrightarrow> row \<in> set (db_oidc_sessions d')"
    and "au_cfg a2 = au_cfg a" and "cookie_session env2 (au_cfg a) r2 = Some c2" and "us_SessionID c2 = us_SessionID c"
  shows "\<exists>e. snd (snd (GetSession env2 a2 r2 d2)) = Inl e"
proof (rule ccontr)
  assume "\<not> ?thesis"
  then obtain a3 d3 s where "GetSession env2 a2 r2 d2 = (a3, d3, Inr s)"
    by (cases "GetSession env2 a2 r2 d2") (metis snd_conv sum.exhaust)
  then obtain s0 where "authorizeSession env2 a2 c2 d2 = (a3, d3, Inr s0)"
    using GetSession_cookie [of a2 env2 r2 d2 a3 d3 s] assms(1,6,7) by auto
  moreover have "db_oidc_sessions d' = delete_rows (\<lambda>r. os_id r = us_SessionID c) (db_oidc_sessions d)"
    using assms(1-4) by (auto simp: RevokeSession_def drop_session_def split: if_splits)
  then have "session_row (us_SessionID c2) d2 = None"
    using assms(5,8) by (auto simp: session_row_def find_None_iff set_delete_rows)
  ultimately show False using authorizeSession_no_row by (metis Inl_Inr_False prod.inject)
qed

text \<open>The logouts of a run of logout tokens.\<close>

definition logout_run :: "(auth_env \<times> string) list \<Rightarrow> auth_service \<times> db \<Rightarrow> auth_service \<times> db" where
  "logout_run reqs st = fold (\<lambda>(env, raw) (a, d). case BackchannelLogout env a raw d of (a', d', e) \<Rightarrow> (a', d')) reqs st"

definition jti_noted :: "string \<Rightarrow> int \<Rightarrow> db \<Rightarrow> bool" where
  "jti_noted j e d \<longleftrightarrow> (\<exists>row\<in>set (db_oidc_logout_jtis d). lj_jti row = j \<and> e \<le> lj_expires_at row)"

lemma reinit_cfg: "reinitProvider env a = (a', b) \<Longrightarrow> au_cfg a' = au_cfg a \<and> au_hasDB a' = au_hasDB a"
  by (auto simp: reinitProvider_def Let_def split: option.splits prod.splits if_splits)

lemma provider_cfg: "currentProvider env a = (a', b) \<Longrightarrow> au_cfg a' = au_cfg a \<and> au_hasDB a' = au_hasDB a"
  by (auto simp: currentProvider_def dest: reinit_cfg split: if_splits)

lemma Backchannel_cases:
  assumes "BackchannelLogout env a raw d = (a', d', e)"
  shows "au_cfg a' = au_cfg a \<and> (case e of
      Some x \<Rightarrow> d' = d
    | None \<Rightarrow> \<exists>token c. ae_VerifyLogout env (cfg_OIDCInternalBase (au_cfg a) \<noteq> []) raw = Some token \<and>
        emisorValido (lt_Issuer token) (cfg_OIDCIssuerURL (au_cfg a)) (cfg_OIDCInternalBase (au_cfg a)) \<and>
        lt_Claims token = Some c \<and> logout_acceptable (unix (ae_now env)) (lt_Subject token) c \<and>
        db_oidc_logout_jtis d' = delete_rows (\<lambda>j. lj_expires_at j \<le> unix (ae_now env)) (db_oidc_logout_jtis d) @
          [\<lparr>lj_jti = lo_JTI c, lj_expires_at = unix (ae_now env) + 600\<rparr>] \<and>
        distinct (map lj_jti (db_oidc_logout_jtis d')) \<and>
        db_oidc_sessions d' = delete_rows (logged_out (lt_Subject token) (lo_SID c)) (db_oidc_sessions d))"
  using assms
  by (auto simp: BackchannelLogout_def Let_def insert_row_Some dest!: provider_cfg
      split: if_splits option.splits prod.splits)

lemma jti_noted_step:
  assumes "BackchannelLogout env a raw d = (a', d', e)" and "jti_noted j t d" and "unix (ae_now env) < t"
  shows "jti_noted j t d'"
proof (cases e)
  case (Some x)
  then show ?thesis using Backchannel_cases [OF assms(1)] assms(2) by simp
next
  case None
  then obtain row where "db_oidc_logout_jtis d' = delete_rows (\<lambda>j. lj_expires_at j \<le> unix (ae_now env)) (db_oidc_logout_jtis d) @ [row]"
    using Backchannel_cases [OF assms(1)] by auto
  then show ?thesis using assms(2,3) unfolding jti_noted_def by (auto simp: set_delete_rows)
qed

lemma jti_noted_run:
  "jti_noted j t (snd st) \<Longrightarrow> \<forall>(env, raw)\<in>set reqs. unix (ae_now env) < t \<Longrightarrow>
   jti_noted j t (snd (logout_run reqs st)) \<and> au_cfg (fst (logout_run reqs st)) = au_cfg (fst st)"
proof (induction reqs arbitrary: st)
  case (Cons q reqs)
  obtain env raw where q: "q = (env, raw)" by (cases q)
  obtain a' d' e where b: "BackchannelLogout env (fst st) raw (snd st) = (a', d', e)"
    by (cases "BackchannelLogout env (fst st) raw (snd st)")
  have "jti_noted j t d'" using jti_noted_step [OF b Cons.prems(1)] Cons.prems(2) q by auto
  moreover have "au_cfg a' = au_cfg (fst st)" using Backchannel_cases [OF b] by simp
  ultimately have "jti_noted j t (snd (logout_run reqs (a', d'))) \<and> au_cfg (fst (logout_run reqs (a', d'))) = au_cfg (fst st)"
    using Cons.IH [of "(a', d')"] Cons.prems(2) by auto
  then show ?case using b by (simp add: logout_run_def q split_beta)
qed (simp add: logout_run_def)

lemma logout_run_cfg: "au_cfg (fst (logout_run reqs st)) = au_cfg (fst st)"
proof (induction reqs arbitrary: st)
  case (Cons q reqs)
  then show ?case using Backchannel_cases
    by (cases q; cases st) (force simp: logout_run_def split: prod.splits)
qed (simp add: logout_run_def)

text \<open>A token whose identifier is still noted is refused, and so is one that was issued ten minutes ago.\<close>

lemma replay_refused:
  assumes c: "ae_VerifyLogout env skip raw = Some token" "lt_Claims token = Some c"
    "logout_acceptable (unix (ae_now env)) (lt_Subject token) c"
    and same: "skip = (cfg_OIDCInternalBase (au_cfg a) \<noteq> [])" "\<forall>skip. ae_VerifyLogout env2 skip raw \<in> {None, ae_VerifyLogout env skip raw}"
    and noted: "unix (ae_now env2) < unix (ae_now env) + 600 \<Longrightarrow> jti_noted (lo_JTI c) (unix (ae_now env) + 600) d"
  shows "\<exists>a' x. BackchannelLogout env2 a raw d = (a', d, Some x)"
proof -
  obtain a' d' e where b: "BackchannelLogout env2 a raw d = (a', d', e)" by (cases "BackchannelLogout env2 a raw d")
  have "e \<noteq> None"
  proof
    assume "e = None"
    then obtain c' where c': "c' = c" "logout_acceptable (unix (ae_now env2)) (lt_Subject token) c'"
      "lo_JTI c' \<notin> set (map lj_jti (delete_rows (\<lambda>j. lj_expires_at j \<le> unix (ae_now env2)) (db_oidc_logout_jtis d)))"
      using Backchannel_cases [OF b] c same(1) same(2) [rule_format, of skip] by auto
    show False
    proof (cases "unix (ae_now env2) < unix (ae_now env) + 600")
      case True
      then obtain row where "row \<in> set (db_oidc_logout_jtis d)" "lj_jti row = lo_JTI c" "unix (ae_now env) + 600 \<le> lj_expires_at row"
        using noted by (auto simp: jti_noted_def)
      with True c'(1,3) show False by (force simp: set_delete_rows)
    qed (use c(3) c'(1,2) in \<open>auto simp: logout_acceptable_def\<close>)
  qed
  then show ?thesis using b Backchannel_cases [OF b] by (cases e) auto
qed

text \<open>
  Claim C19. A logout token works once and thoroughly: when \<open>BackchannelLogout\<close> succeeds, the token
  was issued by an accepted issuer within the last five minutes and no session of its subject and
  session id is left; and after any number of further logouts, up to any later time, the same
  token is refused and changes nothing (the five minutes its age is tolerated are shorter than
  the ten its identifier is remembered).
\<close>

theorem logout_token_single_use:
  assumes "BackchannelLogout env a raw d = (a1, d1, None)"
    and "\<forall>(env', raw')\<in>set reqs. unix (ae_now env') \<le> unix (ae_now env2)"
    and "\<forall>skip. ae_VerifyLogout env2 skip raw \<in> {None, ae_VerifyLogout env skip raw}"
  shows "\<exists>token c. ae_VerifyLogout env (cfg_OIDCInternalBase (au_cfg a) \<noteq> []) raw = Some token \<and>
    lt_Claims token = Some c \<and>
    emisorValido (lt_Issuer token) (cfg_OIDCIssuerURL (au_cfg a)) (cfg_OIDCInternalBase (au_cfg a)) \<and>
    unix (ae_now env) - 300 \<le> lo_IAT c \<and> (lt_Subject token \<noteq> [] \<or> lo_SID c \<noteq> []) \<and>
    (\<forall>row\<in>set (db_oidc_sessions d1). \<not> logged_out (lt_Subject token) (lo_SID c) row) \<and>
    (case logout_run reqs (a1, d1) of (a2, d2) \<Rightarrow> \<exists>a3 e. BackchannelLogout env2 a2 raw d2 = (a3, d2, Some e))"
proof -
  let ?e = "unix (ae_now env) + 600"
  obtain token c where t: "ae_VerifyLogout env (cfg_OIDCInternalBase (au_cfg a) \<noteq> []) raw = Some token" "lt_Claims token = Some c"
    "emisorValido (lt_Issuer token) (cfg_OIDCIssuerURL (au_cfg a)) (cfg_OIDCInternalBase (au_cfg a))"
    "logout_acceptable (unix (ae_now env)) (lt_Subject token) c"
    "\<lparr>lj_jti = lo_JTI c, lj_expires_at = ?e\<rparr> \<in> set (db_oidc_logout_jtis d1)"
    "db_oidc_sessions d1 = delete_rows (logged_out (lt_Subject token) (lo_SID c)) (db_oidc_sessions d)"
    "au_cfg a1 = au_cfg a"
    using Backchannel_cases [OF assms(1)] by auto
  obtain a2 d2 where run: "logout_run reqs (a1, d1) = (a2, d2)" by (cases "logout_run reqs (a1, d1)")
  have "jti_noted (lo_JTI c) ?e d2" if "unix (ae_now env2) < ?e"
  proof -
    have "jti_noted (lo_JTI c) ?e d1" unfolding jti_noted_def by (rule bexI [OF _ t(5)]) simp
    moreover have "\<forall>(env', raw')\<in>set reqs. unix (ae_now env') < ?e" using assms(2) that by fastforce
    ultimately show ?thesis using jti_noted_run [of "lo_JTI c" ?e "(a1, d1)" reqs] run by simp
  qed
  moreover have "au_cfg a2 = au_cfg a" using logout_run_cfg [of reqs "(a1, d1)"] run t(7) by simp
  ultimately have "\<exists>a3 x. BackchannelLogout env2 a2 raw d2 = (a3, d2, Some x)"
    by (intro replay_refused [OF t(1,2,4) _ assms(3)]) simp_all
  with run t(1,2,3,4,6) show ?thesis
    by (intro exI [of _ token] exI [of _ c]) (auto simp: logout_acceptable_def set_delete_rows)
qed

section \<open>API keys beside a login\<close>

lemma login_proof_Inr:
  "login_proof env owner d = Inr p \<Longrightarrow> us_UserID p = owner"
  by (auto simp: login_proof_def query_row_def split: sum.splits if_splits option.splits dest!: first_row_in)

text \<open>
  Claim C17. An API key never outlives its owner's access: with OIDC configured it is accepted only
  when it is a typed key bound to a subject, that subject has an unexpired login which UserInfo,
  asked with the token of that login, confirms now, and both that very login and that very key (id,
  digest and owner) are in the database after UserInfo has answered, whatever happened meanwhile; it
  administers only by the login's name, never by groups.
\<close>

theorem AuthorizeAPIKey_live:
  assumes "IsOIDCConfigured (au_cfg a)" and "AuthorizeAPIKey env a s d = (a', d', Inr s')"
  shows "has_prefix (us_APIKeyID s) OIDCSubjectKeyPrefix \<and> us_APIKeyHash s \<noteq> [] \<and> us_UserID s' = us_UserID s \<and>
    (\<exists>k\<in>set (db_api_keys d'). ak_ID k = us_APIKeyID s \<and> ak_KeyHash k = us_APIKeyHash s \<and> ak_UserID k = us_UserID s) \<and>
    (\<exists>login raw info row. session_row (os_id login) d = Some login \<and> os_subject login = us_UserID s \<and>
      unix (ae_now env) < os_expires_at login \<and>
      decryptAESGCM env (os_access_token login) (cfg_SessionSecret (au_cfg a)) = Some raw \<and>
      ae_UserInfo env raw = Some info \<and> ui_Subject info = us_UserID s \<and>
      row \<in> set (db_oidc_sessions d') \<and> os_id row = os_id login \<and> os_subject row = us_UserID s \<and>
      os_username row = us_Username s' \<and> unix (ae_later env) < os_expires_at row) \<and>
    us_IsAdmin s' = IsAdmin (au_cfg a) (us_Username s') []"
proof -
  obtain pf a1 p where p: "login_proof env (us_UserID s) d = Inr pf"
    "authorizeSession env a pf d = (a1, d', Inr p)" "still_there env p s d'"
    "s' = s\<lparr>us_Username := us_Username p, us_IsAdmin := IsAdmin (au_cfg a) (us_Username p) []\<rparr>"
    "has_prefix (us_APIKeyID s) OIDCSubjectKeyPrefix" "us_APIKeyHash s \<noteq> []"
    using assms by (auto simp: AuthorizeAPIKey_def Let_def split: if_splits sum.splits prod.splits)
  have owner: "us_UserID pf = us_UserID s" using login_proof_Inr [OF p(1)] .
  obtain login raw where row: "session_row (us_SessionID pf) d = Some login" "os_subject login = us_UserID pf"
    "unix (ae_now env) < os_expires_at login"
    "decryptAESGCM env (os_access_token login) (cfg_SessionSecret (au_cfg a)) = Some raw"
    "authorizeWithProvider env (au_cfg a) \<lparr>ot_AccessToken = raw,
        ot_Expiry = Some (os_expires_at login * second_ns), ot_IDToken = None\<rparr> pf = Inr p"
    using authorizeSession_Inr [OF p(2)] by blast
  note ap = authorizeWithProvider_Inr [OF row(5)]
  have "p = pf\<lparr>us_Groups := us_Groups p\<rparr>" using ap by blast
  then have "us_SessionID p = us_SessionID pf" by (metis us_SessionID_groups)
  moreover have "os_id login = us_SessionID pf"
    using row(1) by (auto simp: session_row_def dest: find_Some_in)
  moreover obtain info where "ae_UserInfo env raw = Some info" "ui_Subject info = us_UserID s"
    using ap owner by auto
  moreover obtain r where "r \<in> set (db_oidc_sessions d')" "os_id r = us_SessionID p" "os_subject r = us_UserID s"
    "os_username r = us_Username p" "unix (ae_later env) < os_expires_at r"
    using p(3) by (auto simp: still_there_def list_ex_iff)
  moreover have "\<exists>k\<in>set (db_api_keys d'). ak_ID k = us_APIKeyID s \<and> ak_KeyHash k = us_APIKeyHash s \<and> ak_UserID k = us_UserID s"
    using p(3) by (auto simp: still_there_def list_ex_iff)
  ultimately show ?thesis using p(4-6) row(1-4) owner
    by (intro conjI exI [of _ login] exI [of _ raw] exI [of _ info] exI [of _ r]) simp_all
qed

section \<open>Signing in\<close>

lemma adopt_sessions: "db_oidc_sessions (adopt_table t new old d) = db_oidc_sessions d"
  by (cases t) (simp_all add: adopt_table_def)

lemma adopt_from_sessions: "db_oidc_sessions (adopt_from flt new qs d) = db_oidc_sessions d"
  by (induction flt new qs d rule: adopt_from.induct) (auto simp: adopt_sessions)

lemma adoptLegacyOwner_sessions: "db_oidc_sessions (adoptLegacyOwner env a s d) = db_oidc_sessions d"
  by (simp add: adoptLegacyOwner_def adopt_from_sessions)

lemma callback_claims_Inr:
  assumes "callback_claims env cfg r = Inr (c, token)"
  shows "\<exists>st nonce verifier raw idt. Cookie StateCookieName r = Some (st @ '':'' @ nonce @ '':'' @ verifier) \<and>
    CHR '':'' \<notin> set st \<and> st \<noteq> [] \<and> query_get r ''state'' = st \<and>
    ae_Exchange env (query_get r ''code'') verifier = Some token \<and> ot_IDToken token = Some raw \<and>
    ae_Verify env (cfg_OIDCInternalBase cfg \<noteq> []) raw = Some idt \<and> it_Nonce idt = nonce \<and> it_Claims idt = Some c \<and>
    emisorValido (it_Issuer idt) (cfg_OIDCIssuerURL cfg) (cfg_OIDCInternalBase cfg)"
proof -
  obtain ckv where v: "Cookie StateCookieName r = Some ckv"
    using assms by (auto simp: callback_claims_def split: option.splits)
  have parts: "\<exists>x y z. split_on CHR '':'' ckv = [x, y, z]"
  proof (rule ccontr)
    assume "\<not> ?thesis"
    then have "callback_claims env cfg r = Inl AE_BadCookie"
      using v by (auto simp: callback_claims_def split: list.splits)
    with assms show False by simp
  qed
  then obtain x y z where xyz: "split_on CHR '':'' ckv = [x, y, z]" by blast
  have "ckv = x @ '':'' @ y @ '':'' @ z" using join_split [of "CHR '':''" ckv] by (simp add: xyz)
  moreover have "CHR '':'' \<notin> set x" using split_on_parts [of x "CHR '':''" ckv] by (simp add: xyz)
  moreover have "x \<noteq> [] \<and> query_get r ''state'' = x \<and> ae_Exchange env (query_get r ''code'') z = Some token \<and>
      (\<exists>raw idt. ot_IDToken token = Some raw \<and> ae_Verify env (cfg_OIDCInternalBase cfg \<noteq> []) raw = Some idt \<and>
        it_Nonce idt = y \<and> it_Claims idt = Some c \<and>
        emisorValido (it_Issuer idt) (cfg_OIDCIssuerURL cfg) (cfg_OIDCInternalBase cfg))"
    using assms by (auto simp: callback_claims_def v xyz split: option.splits if_splits)
  ultimately show ?thesis using v by blast
qed

lemma saveOIDCSession_Inr:
  assumes "saveOIDCSession env a s0 sid token d = (d1, Inr s)"
  obtains expiry sealed where "s = s0\<lparr>us_SessionID := ae_session env\<rparr>"
    "encryptAESGCM env (ot_AccessToken token) (cfg_SessionSecret (au_cfg a)) = Some sealed"
    "db_oidc_sessions d1 = delete_rows (\<lambda>row. os_expires_at row \<le> unix (ae_now env)) (db_oidc_sessions d) @
      [\<lparr>os_id = us_SessionID s, os_subject = us_UserID s, os_sid = sid, os_username = us_Username s,
        os_access_token = sealed, os_expires_at = min (unix expiry) (us_CreatedAt s + 43200)\<rparr>]"
proof -
  have "ttl_seconds = 43200" by (simp add: ttl_seconds_def SessionTTL_def duration_defs)
  with assms that show thesis
    by (auto simp: saveOIDCSession_def Let_def insert_row_Some split: option.splits if_splits)
qed

text \<open>What the callback has done when it succeeds: the claims, the current groups, the row, the adoption.\<close>

lemma HandleCallback_Inr:
  assumes "HandleCallback env a r d = (d', Inr s)"
  obtains c token s0 s1 s2 d1 where "callback_claims env (au_cfg a) r = Inr (c, token)"
    "us_UserID s0 = ic_Subject c" "us_CreatedAt s0 = unix (ae_now env)"
    "authorizeWithProvider env (au_cfg a) token s0 = Inr s1"
    "s2 = s1\<lparr>us_IsAdmin := IsAdmin (au_cfg a) (us_Username s1) (us_Groups s1)\<rparr>"
    "saveOIDCSession env a s2 (ic_SID c) token (ae_Meanwhile env d) = (d1, Inr s)" "d' = adoptLegacyOwner env a s d1"
proof -
  obtain c token where c: "callback_claims env (au_cfg a) r = Inr (c, token)"
    using assms by (auto simp: HandleCallback_def Let_def split: if_splits sum.splits)
  define u where "u = (if ic_PreferredUsername c \<noteq> [] then ic_PreferredUsername c
      else if ic_Email c \<noteq> [] then ic_Email c else ic_Subject c)"
  define s0 where "s0 = empty_session\<lparr>us_UserID := ic_Subject c, us_Username := u, us_Email := ic_Email c,
      us_Groups := ic_Groups c, us_IsAdmin := IsAdmin (au_cfg a) u (ic_Groups c), us_CreatedAt := unix (ae_now env)\<rparr>"
  obtain s1 d1 where p: "authorizeWithProvider env (au_cfg a) token s0 = Inr s1"
    "saveOIDCSession env a (s1\<lparr>us_IsAdmin := IsAdmin (au_cfg a) (us_Username s1) (us_Groups s1)\<rparr>) (ic_SID c) token
      (ae_Meanwhile env d) = (d1, Inr s)" "d' = adoptLegacyOwner env a s d1"
    using assms c unfolding s0_def u_def
    by (auto simp: HandleCallback_def Let_def split: if_splits sum.splits prod.splits)
  show thesis by (rule that [OF c _ _ p(1) refl p(2,3)]) (simp_all add: s0_def)
qed

text \<open>
  Claim C16. What the callback demands: it opens a session only when the \<open>state\<close> of the query is
  the one of this browser's cookie, the code was exchanged with that cookie's PKCE verifier, the
  ID token verifies, carries the cookie's nonce and an accepted issuer, and UserInfo answers for
  the token's own subject; the groups of the session are those of that answer (of the access token
  when it lists none) and the required one is among them; then exactly the rows that have expired leave
  the table of sessions and one row enters it, for that subject, whose stored token is sealed
  and whose life is at most twelve hours.
\<close>

theorem HandleCallback_verified:
  assumes "HandleCallback env a r d = (d', Inr s)"
  shows "\<exists>c token idt raw st nonce verifier sealed expires. Cookie StateCookieName r = Some (st @ '':'' @ nonce @ '':'' @ verifier) \<and>
    query_get r ''state'' = st \<and> st \<noteq> [] \<and> ae_Exchange env (query_get r ''code'') verifier = Some token \<and>
    ot_IDToken token = Some raw \<and> ae_Verify env (cfg_OIDCInternalBase (au_cfg a) \<noteq> []) raw = Some idt \<and>
    it_Nonce idt = nonce \<and> it_Claims idt = Some c \<and>
    emisorValido (it_Issuer idt) (cfg_OIDCIssuerURL (au_cfg a)) (cfg_OIDCInternalBase (au_cfg a)) \<and>
    (\<exists>info gs. ae_UserInfo env (ot_AccessToken token) = Some info \<and> ui_Subject info = ic_Subject c \<and>
      ui_Groups info = Some gs \<and>
      us_Groups s = (if gs = [] then groupsFromAccessToken env (ot_AccessToken token) else gs)) \<and>
    us_UserID s = ic_Subject c \<and> us_UserID s \<noteq> [] \<and>
    (cfg_RequiredGroup (au_cfg a) \<noteq> [] \<longrightarrow> cfg_RequiredGroup (au_cfg a) \<in> set (us_Groups s)) \<and>
    encryptAESGCM env (ot_AccessToken token) (cfg_SessionSecret (au_cfg a)) = Some sealed \<and>
    expires \<le> unix (ae_now env) + 43200 \<and>
    db_oidc_sessions d' = delete_rows (\<lambda>row. os_expires_at row \<le> unix (ae_now env)) (db_oidc_sessions (ae_Meanwhile env d)) @
      [\<lparr>os_id = us_SessionID s, os_subject = us_UserID s, os_sid = ic_SID c, os_username = us_Username s,
        os_access_token = sealed, os_expires_at = expires\<rparr>]"
proof -
  obtain c token s0 s1 s2 d1 where s: "callback_claims env (au_cfg a) r = Inr (c, token)"
    "us_UserID s0 = ic_Subject c" "us_CreatedAt s0 = unix (ae_now env)"
    "authorizeWithProvider env (au_cfg a) token s0 = Inr s1"
    "s2 = s1\<lparr>us_IsAdmin := IsAdmin (au_cfg a) (us_Username s1) (us_Groups s1)\<rparr>"
    "saveOIDCSession env a s2 (ic_SID c) token (ae_Meanwhile env d) = (d1, Inr s)" "d' = adoptLegacyOwner env a s d1"
    using HandleCallback_Inr [OF assms] by blast
  note ap = authorizeWithProvider_Inr [OF s(4)]
  have s1: "s1 = s0\<lparr>us_Groups := us_Groups s1\<rparr>" using ap by blast
  obtain expiry sealed where sv: "s = s2\<lparr>us_SessionID := ae_session env\<rparr>"
    "encryptAESGCM env (ot_AccessToken token) (cfg_SessionSecret (au_cfg a)) = Some sealed"
    "db_oidc_sessions d1 = delete_rows (\<lambda>row. os_expires_at row \<le> unix (ae_now env)) (db_oidc_sessions (ae_Meanwhile env d)) @
      [\<lparr>os_id = us_SessionID s, os_subject = us_UserID s, os_sid = ic_SID c, os_username = us_Username s,
        os_access_token = sealed, os_expires_at = min (unix expiry) (us_CreatedAt s + 43200)\<rparr>]"
    by (rule saveOIDCSession_Inr [OF s(6)])
  have "us_UserID s1 = us_UserID s0" "us_CreatedAt s1 = us_CreatedAt s0" by (subst s1, simp)+
  then have fs: "us_UserID s = ic_Subject c" "us_CreatedAt s = unix (ae_now env)" "us_Groups s = us_Groups s1"
    using s(2,3) by (simp_all add: sv(1) s(5))
  obtain st nonce verifier raw idt where cb: "Cookie StateCookieName r = Some (st @ '':'' @ nonce @ '':'' @ verifier)"
    "st \<noteq> []" "query_get r ''state'' = st" "ae_Exchange env (query_get r ''code'') verifier = Some token"
    "ot_IDToken token = Some raw" "ae_Verify env (cfg_OIDCInternalBase (au_cfg a) \<noteq> []) raw = Some idt"
    "it_Nonce idt = nonce" "it_Claims idt = Some c"
    "emisorValido (it_Issuer idt) (cfg_OIDCIssuerURL (au_cfg a)) (cfg_OIDCInternalBase (au_cfg a))"
    using callback_claims_Inr [OF s(1)] by blast
  have ui: "\<exists>info gs. ae_UserInfo env (ot_AccessToken token) = Some info \<and> ui_Subject info = ic_Subject c \<and>
      ui_Groups info = Some gs \<and>
      us_Groups s = (if gs = [] then groupsFromAccessToken env (ot_AccessToken token) else gs)"
    "ic_Subject c \<noteq> []" "cfg_RequiredGroup (au_cfg a) \<noteq> [] \<longrightarrow> cfg_RequiredGroup (au_cfg a) \<in> set (us_Groups s)"
    using ap s(2) fs(3) by (auto split del: if_split)
  have rows: "db_oidc_sessions d' = db_oidc_sessions d1" by (simp add: s(7) adoptLegacyOwner_sessions)
  show ?thesis
    by (rule exI [of _ c], rule exI [of _ token], rule exI [of _ idt], rule exI [of _ raw], rule exI [of _ st],
        rule exI [of _ nonce], rule exI [of _ verifier], rule exI [of _ sealed],
        rule exI [of _ "min (unix expiry) (unix (ae_now env) + 43200)"])
      (use cb ui fs(1) sv(2) in \<open>simp add: rows sv(3) fs(2) split del: if_split\<close>)
qed

section \<open>The cookie\<close>

definition codec_ok :: "auth_env \<Rightarrow> user_session \<Rightarrow> bool" where
  "codec_ok env s \<longleftrightarrow> (\<forall>k n p. ae_Open env k n (ae_Seal env k n p) = Some p) \<and>
     (\<forall>n. ae_gcm_nonce env = Some n \<longrightarrow> length n = 12) \<and> ae_Unmarshal env (ae_Marshal env s) = Some s"

lemma decrypt_encrypt:
  assumes "codec_ok env s" and "encryptAESGCM env p k = Some v"
  shows "v \<noteq> [] \<and> decryptAESGCM (env\<lparr>ae_now := t\<rparr>) v k = Some p"
proof -
  obtain n where n: "ae_gcm_nonce env = Some n" "v = b64_encode (n @ ae_Seal env (ae_sha env k) n p)"
    using assms(2) by (auto simp: encryptAESGCM_def split: option.splits)
  then have l: "length n = 12" using assms(1) by (simp add: codec_ok_def)
  have "v \<noteq> []" using l by (auto simp: n(2))
  then show ?thesis using assms(1) l by (simp add: decryptAESGCM_def n(2) b64_round_trip codec_ok_def)
qed

text \<open>
  Claim C31. The session cookie round trip: what \<open>SetSessionCookie\<close> seals, \<open>GetSession\<close> opens again,
  field by field, from its issue until twelve hours later and not a second more; only the
  administrator flag is computed anew. With OIDC configured the same cookie yields the same
  session for the live checks. The cookie is not readable by scripts, and travels over TLS only
  unless in development mode.
\<close>

theorem session_cookie_roundtrip:
  assumes "codec_ok env s" and "SetSessionCookie env (au_cfg a) s = Some ck" and "0 < us_CreatedAt s"
    and "Cookie SessionCookieName r = Some (ck_Value ck)"
  shows "cookie_session (env\<lparr>ae_now := t\<rparr>) (au_cfg a) r = Some s \<and>
    ck_MaxAge ck = 43200 \<and> ck_HttpOnly ck \<and> ck_Secure ck = (\<not> cfg_DevMode (au_cfg a)) \<and>
    (\<not> IsOIDCConfigured (au_cfg a) \<longrightarrow>
      GetSession (env\<lparr>ae_now := t\<rparr>) a r d = (a, d,
        if us_CreatedAt s \<le> unix t \<and> unix t < us_CreatedAt s + 43200
        then Inr (s\<lparr>us_IsAdmin := (IsAdmin (au_cfg a) (us_Username s) (us_Groups s) \<or>
              (cfg_DevMode (au_cfg a) \<and> us_Username s = ''dev-user''))\<rparr>)
        else Inl AE_Age))"
proof -
  have t: "ttl_seconds = 43200" by (simp add: ttl_seconds_def SessionTTL_def duration_defs)
  obtain v where v: "encryptAESGCM env (ae_Marshal env s) (cfg_SessionSecret (au_cfg a)) = Some v"
    "ck = auth_cookie (au_cfg a) SessionCookieName v ttl_seconds"
    using assms(2,3) by (auto simp: SetSessionCookie_def Let_def)
  have dec: "v \<noteq> []" "decryptAESGCM (env\<lparr>ae_now := t\<rparr>) v (cfg_SessionSecret (au_cfg a)) = Some (ae_Marshal env s)"
    using decrypt_encrypt [OF assms(1) v(1)] by auto
  have un: "ae_Unmarshal env (ae_Marshal env s) = Some s" using assms(1) by (simp add: codec_ok_def)
  have ck: "Cookie SessionCookieName r = Some v" using assms(4) v(2) by (simp add: auth_cookie_def)
  have "GetSession (env\<lparr>ae_now := t\<rparr>) a r d = (a, d,
        if us_CreatedAt s \<le> unix t \<and> unix t < us_CreatedAt s + 43200
        then Inr (s\<lparr>us_IsAdmin := (IsAdmin (au_cfg a) (us_Username s) (us_Groups s) \<or>
              (cfg_DevMode (au_cfg a) \<and> us_Username s = ''dev-user''))\<rparr>)
        else Inl AE_Age)" if "\<not> IsOIDCConfigured (au_cfg a)"
  proof (cases v)
    case (Cons x xs)
    then show ?thesis using that dec ck un assms(3) by (auto simp: GetSession_def Let_def t)
  qed (use dec in simp)
  then show ?thesis using v(2) dec ck un by (simp add: cookie_session_def auth_cookie_def t)
qed

section \<open>Rows that change owner\<close>

text \<open>Who owns, after the adoption, a row that \<open>o\<close> owned; and the tables with every owner replaced.\<close>

definition new_owner :: "user_session \<Rightarrow> string \<Rightarrow> string" where
  "new_owner s w = (if w \<noteq> [] \<and> w \<in> {us_Username s, us_Email s} then us_UserID s else w)"

definition reowner :: "(string \<Rightarrow> string) \<Rightarrow> db \<Rightarrow> db" where
  "reowner f d = d\<lparr>
      db_links := map (\<lambda>l. l\<lparr>l_CreatedBy := f (l_CreatedBy l)\<rparr>) (db_links d),
      db_folders := map (\<lambda>g. g\<lparr>f_CreatedBy := f (f_CreatedBy g)\<rparr>) (db_folders d),
      db_custom_domains := map (\<lambda>c. c\<lparr>cd_CreatedBy := f (cd_CreatedBy c)\<rparr>) (db_custom_domains d),
      db_api_keys := map (\<lambda>k. if has_prefix (to_lower (ak_ID k)) OIDCSubjectKeyPrefix then k
                              else k\<lparr>ak_UserID := f (ak_UserID k)\<rparr>) (db_api_keys d),
      db_webhooks := map (\<lambda>w. w\<lparr>wh_UserID := f (wh_UserID w)\<rparr>) (db_webhooks d)\<rparr>"

lemma reowner_comp: "reowner f (reowner g d) = reowner (\<lambda>w. f (g w)) d"
  by (simp add: reowner_def)

lemma reowner_id: "(\<And>w. f w = w) \<Longrightarrow> reowner f d = d"
  by (simp add: reowner_def cong: if_cong)

lemma adopt_name:
  assumes "\<forall>q. \<not> flt q"
  shows "adopt_from flt new (map (Pair old) [Adopt_links, Adopt_folders, Adopt_domains, Adopt_keys, Adopt_webhooks] @ qs) d =
    adopt_from flt new qs (reowner (\<lambda>w. if w = old then new else w) d)"
proof -
  have "adopt_table Adopt_webhooks new old (adopt_table Adopt_keys new old (adopt_table Adopt_domains new old
      (adopt_table Adopt_folders new old (adopt_table Adopt_links new old d)))) = reowner (\<lambda>w. if w = old then new else w) d"
    by (simp add: adopt_table_def reowner_def update_rows_def)
  then show ?thesis using assms by simp
qed

definition adopted_by :: "string \<Rightarrow> string \<Rightarrow> string \<Rightarrow> string" where
  "adopted_by new old w = (if old \<noteq> [] \<and> old \<noteq> new \<and> w = old then new else w)"

lemma adopt_names:
  assumes "au_hasDB a" and "us_UserID s \<noteq> []" and "\<forall>q. \<not> ae_fault env q"
  shows "adoptLegacyOwner env a s d =
    reowner (adopted_by (us_UserID s) (us_Email s)) (reowner (adopted_by (us_UserID s) (us_Username s)) d)"
proof -
  let ?five = "[Adopt_links, Adopt_folders, Adopt_domains, Adopt_keys, Adopt_webhooks]"
  have name: "adopt_from (ae_fault env) new ((if old \<noteq> [] \<and> old \<noteq> new then map (Pair old) ?five else []) @ qs) d =
      adopt_from (ae_fault env) new qs (reowner (adopted_by new old) d)" for new old qs d
  proof (cases "old \<noteq> [] \<and> old \<noteq> new")
    case True
    then have "adopted_by new old = (\<lambda>w. if w = old then new else w)" by (auto simp: adopted_by_def)
    then show ?thesis by (simp only: if_P [OF True] adopt_name [OF assms(3)])
  next
    case False
    then have "reowner (adopted_by new old) d = d" by (intro reowner_id) (auto simp: adopted_by_def)
    then show ?thesis by (simp only: if_not_P [OF False] append_Nil)
  qed
  let ?u = "us_Username s" and ?e = "us_Email s" and ?i = "us_UserID s"
  have "adoptLegacyOwner env a s d = adopt_from (ae_fault env) ?i
      ((if ?u \<noteq> [] \<and> ?u \<noteq> ?i then map (Pair ?u) ?five else []) @
       ((if ?e \<noteq> [] \<and> ?e \<noteq> ?i then map (Pair ?e) ?five else []) @ [])) d"
    using assms(1,2) by (simp add: adoptLegacyOwner_def)
  then show ?thesis by (simp only: name adopt_from.simps)
qed

text \<open>
  Claim C38. The adoption of what login names owned, exactly: without faults, every link, folder,
  domain and webhook whose owner is the person's user name or email gets the subject as owner,
  and so does every API key that is not typed; nothing else changes. Whether the old owner was
  a login name is not checked: a person whose user name equals somebody else's subject takes
  over that subject's links, folders, domains and webhooks.
\<close>

theorem adoption_exact:
  assumes "au_hasDB a" and "us_UserID s \<noteq> []" and "\<forall>q. \<not> ae_fault env q"
  shows "adoptLegacyOwner env a s d = d\<lparr>
      db_links := map (\<lambda>l. l\<lparr>l_CreatedBy := new_owner s (l_CreatedBy l)\<rparr>) (db_links d),
      db_folders := map (\<lambda>f. f\<lparr>f_CreatedBy := new_owner s (f_CreatedBy f)\<rparr>) (db_folders d),
      db_custom_domains := map (\<lambda>c. c\<lparr>cd_CreatedBy := new_owner s (cd_CreatedBy c)\<rparr>) (db_custom_domains d),
      db_api_keys := map (\<lambda>k. if has_prefix (to_lower (ak_ID k)) OIDCSubjectKeyPrefix then k
                              else k\<lparr>ak_UserID := new_owner s (ak_UserID k)\<rparr>) (db_api_keys d),
      db_webhooks := map (\<lambda>w. w\<lparr>wh_UserID := new_owner s (wh_UserID w)\<rparr>) (db_webhooks d)\<rparr>"
proof -
  have "adopted_by (us_UserID s) (us_Email s) (adopted_by (us_UserID s) (us_Username s) w) = new_owner s w" for w
    by (auto simp: adopted_by_def new_owner_def)
  then show ?thesis using adopt_names [OF assms] by (simp add: reowner_comp) (simp add: reowner_def)
qed

section \<open>Examples\<close>

definition example_oidc :: config where
  "example_oidc = \<lparr>cfg_Port = 3464, cfg_Host = ''0.0.0.0'', cfg_PublicHost = ''l.e.com'', cfg_DefaultDomain = ''l.e.com'',
     cfg_SessionSecret = ''k'', cfg_OIDCClientID = ''linkup'', cfg_OIDCClientSecret = ''s'',
     cfg_OIDCIssuerURL = ''https://idp.e.com/'', cfg_OIDCInternalBase = [], cfg_OIDCProviderName = ''idp'',
     cfg_OIDCRedirectURI = ''https://l.e.com/auth/callback'', cfg_EnrollURL = [], cfg_AccountURL = [],
     cfg_DBPath = ''db'', cfg_QRForgeURL = ''https://qr.e.com'', cfg_AdminUsers = [], cfg_AdminGroup = [],
     cfg_RequiredGroup = ''staff'', cfg_DevMode = False, cfg_AllowPrivateTargets = False, cfg_FooterLinks = False\<rparr>"

definition example_session :: "string \<Rightarrow> user_session" where
  "example_session i = empty_session\<lparr>us_UserID := ''u1'', us_Username := ''ana'', us_SessionID := i, us_CreatedAt := 1000\<rparr>"

definition example_auth :: auth_env where
  "example_auth = \<lparr>ae_now = 1000 * second_ns, ae_later = 1001 * second_ns, ae_state = ''st'', ae_nonce = ''n'',
     ae_verifier = ''v'', ae_session = ''s2'', ae_gcm_nonce = Some ''nnnnnnnnnnnn'', ae_sha = (\<lambda>k. k),
     ae_Seal = (\<lambda>k n p. p), ae_Open = (\<lambda>k n c. Some c), ae_Marshal = us_SessionID,
     ae_Unmarshal = (\<lambda>p. Some (example_session p)), ae_GroupsJSON = (\<lambda>p. None),
     ae_Discover = (\<lambda>a b. Some \<lparr>ep_AuthURL = ''https://idp.e.com/auth'', ep_TokenURL = ''https://idp.e.com/token''\<rparr>),
     ae_AuthCodeURL = (\<lambda>ep st n v. ep_AuthURL ep),
     ae_Exchange = (\<lambda>c v. Some \<lparr>ot_AccessToken = ''tok'', ot_Expiry = Some (5000 * second_ns), ot_IDToken = Some ''raw''\<rparr>),
     ae_Verify = (\<lambda>skip raw. Some \<lparr>it_Issuer = ''https://idp.e.com/'', it_Nonce = ''n'', it_Claims = Some
        \<lparr>ic_Subject = ''u1'', ic_PreferredUsername = ''ana'', ic_Email = [], ic_Groups = [], ic_SID = ''sid''\<rparr>\<rparr>),
     ae_VerifyLogout = (\<lambda>skip raw. Some \<lparr>lt_Issuer = ''https://idp.e.com/'', lt_Subject = ''u1'', lt_Claims = Some
        \<lparr>lo_SID = [], lo_JTI = ''j1'', lo_IAT = 1000, lo_EXP = Some 2000, lo_HasNonce = False, lo_Event = True\<rparr>\<rparr>),
     ae_UserInfo = (\<lambda>t. Some \<lparr>ui_Subject = ''u1'', ui_Groups = Some [''staff'']\<rparr>),
     ae_Valid = (\<lambda>t k. True), ae_Meanwhile = (\<lambda>d. d), ae_fault = (\<lambda>q. False)\<rparr>"

definition example_cookie :: "string \<Rightarrow> string" where
  "example_cookie p = b64_encode (''nnnnnnnnnnnn'' @ p)"

definition signed_in :: request where
  "signed_in = blank_request\<lparr>rq_Cookies := [(SessionCookieName, example_cookie ''s1'')]\<rparr>"

definition example_row :: oidc_session where
  "example_row = \<lparr>os_id = ''s1'', os_subject = ''u1'', os_sid = ''sid'', os_username = ''ana'',
     os_access_token = example_cookie ''tok'', os_expires_at = 5000\<rparr>"

definition login_db :: db where
  "login_db = empty_db\<lparr>db_oidc_sessions := [example_row]\<rparr>"

definition example_svc :: auth_service where
  "example_svc = \<lparr>au_cfg = example_oidc, au_hasDB = True,
     au_provider = Some \<lparr>ep_AuthURL = ''https://idp.e.com/auth'', ep_TokenURL = ''https://idp.e.com/token''\<rparr>,
     au_oauth2Config = Some \<lparr>ep_AuthURL = ''https://idp.e.com/auth'', ep_TokenURL = ''https://idp.e.com/token''\<rparr>\<rparr>"

lemma example_oidc_on: "IsOIDCConfigured (au_cfg example_svc)"
  by (simp add: IsOIDCConfigured_def example_svc_def example_oidc_def)

lemma example_unix [simp]: "unix (ae_now example_auth) = 1000" "unix (ae_later example_auth) = 1001"
  by (simp_all add: example_auth_def unix_def second_ns_def)

lemma example_decrypt [simp]: "decryptAESGCM example_auth (example_cookie p) k = Some p"
  by (simp add: decryptAESGCM_def example_cookie_def b64_round_trip example_auth_def)

lemma example_cookie_ne: "\<exists>c cs. example_cookie p = c # cs"
proof -
  have "example_cookie p \<noteq> []" by (simp add: example_cookie_def)
  then show ?thesis by (cases "example_cookie p") auto
qed

lemma signed_in_cookie: "Cookie SessionCookieName signed_in = Some (example_cookie ''s1'')"
  by (simp add: Cookie_def signed_in_def)

lemma signed_in_session: "cookie_session example_auth (au_cfg example_svc) signed_in = Some (example_session ''s1'')"
  by (simp add: cookie_session_def signed_in_cookie) (simp add: example_auth_def)

lemma example_authorize:
  assumes "db_oidc_sessions d = [example_row]"
  shows "authorizeSession example_auth example_svc (example_session ''s1'') d =
    (example_svc, d, Inr (example_session ''s1''\<lparr>us_Groups := [''staff'']\<rparr>))"
proof -
  have row: "session_row ''s1'' d = Some example_row" by (simp add: session_row_def assms example_row_def)
  have dec: "decryptAESGCM example_auth (os_access_token example_row) k = Some ''tok''" for k
    by (simp add: example_row_def)
  have ap: "authorizeWithProvider example_auth (au_cfg example_svc) t (example_session ''s1'') =
      Inr (example_session ''s1''\<lparr>us_Groups := [''staff'']\<rparr>)" for t
    by (simp add: authorizeWithProvider_def example_auth_def example_session_def empty_session_def example_svc_def example_oidc_def)
  have fl: "\<not> ae_fault example_auth q" "ae_Meanwhile example_auth d = d" for q d by (simp_all add: example_auth_def)
  have fnd: "find (\<lambda>r. os_id r = ''s1'' \<and> os_expires_at r > 1001) (db_oidc_sessions d) = Some example_row"
    by (simp add: assms example_row_def)
  have id: "us_SessionID (example_session ''s1'') = ''s1''" by (simp add: example_session_def)
  have sub: "os_subject example_row = us_UserID (example_session ''s1'')"
    "os_username example_row = us_Username (example_session ''s1'')" "os_expires_at example_row = 5000"
    by (simp_all add: example_row_def example_session_def)
  have cp: "currentProvider example_auth example_svc = (example_svc, True)" "au_hasDB example_svc"
    by (simp_all add: currentProvider_def example_svc_def)
  show ?thesis
    by (simp add: authorizeSession_def id row query_row_def fl sub dec cp ap fnd)
qed

lemma example_get_session_any:
  assumes "db_oidc_sessions d = [example_row]" and "Cookie SessionCookieName r = Some (example_cookie ''s1'')"
  shows "GetSession example_auth example_svc r d =
    (example_svc, d, Inr (example_session ''s1''\<lparr>us_Groups := [''staff'']\<rparr>))"
proof -
  obtain c cs where c: "example_cookie ''s1'' = c # cs" using example_cookie_ne by blast
  have un: "ae_Unmarshal example_auth p = Some (example_session p)" for p by (simp add: example_auth_def)
  have dec: "decryptAESGCM example_auth (c # cs) k = Some ''s1''" for k using example_decrypt [of "''s1''"] by (simp add: c)
  have "us_CreatedAt (example_session ''s1'') = 1000" by (simp add: example_session_def)
  moreover have "\<not> IsAdmin (au_cfg example_svc) u g" for u g by (simp add: IsAdmin_def example_svc_def example_oidc_def)
  moreover have "\<not> cfg_DevMode (au_cfg example_svc)" by (simp add: example_svc_def example_oidc_def)
  moreover have "ttl_seconds = 43200" by (simp add: ttl_seconds_def SessionTTL_def duration_defs)
  ultimately show ?thesis using example_authorize [OF assms(1)] example_oidc_on assms(2)
    by (simp add: GetSession_def c dec un Let_def) (simp add: example_session_def empty_session_def)
qed

lemma example_get_session: "GetSession example_auth example_svc signed_in login_db =
    (example_svc, login_db, Inr (example_session ''s1''\<lparr>us_Groups := [''staff'']\<rparr>))"
  by (rule example_get_session_any) (simp_all add: login_db_def signed_in_cookie)

theorem GetSession_live_witness:
  "\<exists>c. cookie_session example_auth (au_cfg example_svc) signed_in = Some c \<and> us_UserID c = ''u1''"
  using GetSession_live [OF example_oidc_on example_get_session] by (auto simp: example_session_def)

lemma example_revoke: "RevokeSession example_auth example_svc signed_in login_db = (empty_db, None)"
proof -
  have "us_SessionID (example_session ''s1'') = ''s1''" by (simp add: example_session_def)
  moreover have "\<not> ae_fault example_auth q" for q by (simp add: example_auth_def)
  moreover have "au_hasDB example_svc" by (simp add: example_svc_def)
  moreover have "drop_session ''s1'' login_db = empty_db"
    by (simp add: drop_session_def login_db_def delete_rows_def example_row_def empty_db_def)
  ultimately show ?thesis using example_oidc_on signed_in_session by (simp add: RevokeSession_def)
qed

theorem revoked_session_dead_witness:
  "\<exists>d e. RevokeSession example_auth example_svc signed_in login_db = (d, None) \<and>
     snd (snd (GetSession example_auth example_svc signed_in d)) = Inl e"
proof -
  have "us_SessionID (example_session ''s1'') \<noteq> []" by (simp add: example_session_def)
  from revoked_session_dead [OF example_oidc_on example_revoke signed_in_session this _ refl signed_in_session refl]
  show ?thesis using example_revoke by auto
qed

lemma example_issuer: "emisorValido ''https://idp.e.com/'' (cfg_OIDCIssuerURL (au_cfg example_svc))
    (cfg_OIDCInternalBase (au_cfg example_svc))"
  by (simp add: emisorValido_def emisoresAceptados_def example_svc_def example_oidc_def)

lemma example_logout: "\<exists>d1. BackchannelLogout example_auth example_svc ''lt'' login_db = (example_svc, d1, None)"
proof -
  have "currentProvider example_auth example_svc = (example_svc, True)" "au_hasDB example_svc"
    by (simp_all add: currentProvider_def example_svc_def)
  moreover have "\<not> ae_fault example_auth q" for q by (simp add: example_auth_def)
  moreover have "ae_VerifyLogout example_auth skip raw = Some \<lparr>lt_Issuer = ''https://idp.e.com/'', lt_Subject = ''u1'', lt_Claims = Some
        \<lparr>lo_SID = [], lo_JTI = ''j1'', lo_IAT = 1000, lo_EXP = Some 2000, lo_HasNonce = False, lo_Event = True\<rparr>\<rparr>" for skip raw
    by (simp add: example_auth_def)
  ultimately show ?thesis using example_issuer
    by (simp add: BackchannelLogout_def logout_acceptable_def insert_row_def login_db_def delete_rows_def)
qed

theorem logout_token_single_use_witness:
  "\<exists>d1 a3 e. BackchannelLogout example_auth example_svc ''lt'' login_db = (example_svc, d1, None) \<and>
     BackchannelLogout example_auth example_svc ''lt'' d1 = (a3, d1, Some e)"
proof -
  obtain d1 where d1: "BackchannelLogout example_auth example_svc ''lt'' login_db = (example_svc, d1, None)"
    using example_logout by blast
  from logout_token_single_use [OF d1, of "[]" example_auth] show ?thesis using d1 by (auto simp: logout_run_def)
qed

definition typed_key :: api_key where
  "typed_key = \<lparr>ak_ID = OIDCSubjectKeyPrefix @ ''k1'', ak_UserID = ''u1'', ak_Name = ''ci'', ak_KeyPrefix = ''lk'',
     ak_KeyHash = ''h'', ak_LastUsedAt = None, ak_CreatedAt = 0\<rparr>"

definition key_session :: user_session where
  "key_session = empty_session\<lparr>us_UserID := ''u1'', us_Username := ''u1'', us_APIKeyID := ak_ID typed_key, us_APIKeyHash := ''h''\<rparr>"

definition key_db :: db where
  "key_db = login_db\<lparr>db_api_keys := [typed_key]\<rparr>"

lemma example_key_ok: "\<exists>s'. AuthorizeAPIKey example_auth example_svc key_session key_db = (example_svc, key_db, Inr s')"
proof -
  define p where "p = empty_session\<lparr>us_SessionID := ''s1'', us_UserID := ''u1'', us_Username := ''ana''\<rparr>"
  have fl: "\<not> ae_fault example_auth q" "ae_Meanwhile example_auth d = d" for q d by (simp_all add: example_auth_def)
  have lp: "login_proof example_auth ''u1'' key_db = Inr p"
    by (simp add: login_proof_def fl query_row_def key_db_def login_db_def example_row_def order_desc_def first_row_def p_def)
  have row: "session_row ''s1'' key_db = Some example_row" by (simp add: session_row_def key_db_def login_db_def example_row_def)
  have ap: "authorizeWithProvider example_auth (au_cfg example_svc) t p = Inr (p\<lparr>us_Groups := [''staff'']\<rparr>)" for t
    by (simp add: authorizeWithProvider_def example_auth_def p_def empty_session_def example_svc_def example_oidc_def)
  have fnd: "find (\<lambda>r. os_id r = ''s1'' \<and> os_expires_at r > 1001) (db_oidc_sessions key_db) = Some example_row"
    by (simp add: key_db_def login_db_def example_row_def)
  have cp: "currentProvider example_auth example_svc = (example_svc, True)" "au_hasDB example_svc"
    by (simp_all add: currentProvider_def example_svc_def)
  have dec: "decryptAESGCM example_auth (os_access_token example_row) k = Some ''tok''" for k
    by (simp add: example_row_def)
  have f: "us_SessionID p = ''s1''" "us_UserID p = ''u1''" "us_Username p = ''ana''" by (simp_all add: p_def)
  have r: "os_subject example_row = ''u1''" "os_username example_row = ''ana''" "os_expires_at example_row = 5000"
    "os_id example_row = ''s1''" by (simp_all add: example_row_def)
  have au: "authorizeSession example_auth example_svc p key_db = (example_svc, key_db, Inr (p\<lparr>us_Groups := [''staff'']\<rparr>))"
    by (simp add: authorizeSession_def f r row query_row_def fl dec cp ap fnd)
  have st: "still_there example_auth (p\<lparr>us_Groups := [''staff'']\<rparr>) key_session key_db"
    by (simp add: still_there_def fl key_db_def login_db_def r f key_session_def typed_key_def)
  have k: "us_UserID key_session = ''u1''" "has_prefix (us_APIKeyID key_session) OIDCSubjectKeyPrefix"
    "us_APIKeyHash key_session = ''h''" by (simp_all add: key_session_def typed_key_def)
  show ?thesis using example_oidc_on by (simp add: AuthorizeAPIKey_def k cp lp au st)
qed

theorem AuthorizeAPIKey_live_witness:
  "\<exists>s'. AuthorizeAPIKey example_auth example_svc key_session key_db = (example_svc, key_db, Inr s') \<and> us_UserID s' = ''u1''"
proof -
  obtain s' where s': "AuthorizeAPIKey example_auth example_svc key_session key_db = (example_svc, key_db, Inr s')"
    using example_key_ok by blast
  from AuthorizeAPIKey_live [OF example_oidc_on s'] s' show ?thesis by (simp add: key_session_def)
qed

definition callback_request :: request where
  "callback_request = blank_request\<lparr>rq_Cookies := [(StateCookieName, ''st:n:v'')],
     rq_Query := [(''state'', [''st'']), (''code'', [''c''])]\<rparr>"

lemma example_callback: "\<exists>d' s. HandleCallback example_auth example_svc callback_request empty_db = (d', Inr s)"
proof -
  have c: "callback_claims example_auth (au_cfg example_svc) callback_request = Inr
      (\<lparr>ic_Subject = ''u1'', ic_PreferredUsername = ''ana'', ic_Email = [], ic_Groups = [], ic_SID = ''sid''\<rparr>,
       \<lparr>ot_AccessToken = ''tok'', ot_Expiry = Some (5000 * second_ns), ot_IDToken = Some ''raw''\<rparr>)"
    using example_issuer
    by (simp add: callback_claims_def callback_request_def Cookie_def query_get_def values_get_def example_auth_def)
  let ?t = "\<lparr>ot_AccessToken = ''tok'', ot_Expiry = Some (5000 * second_ns), ot_IDToken = Some ''raw''\<rparr>"
  have ap: "authorizeWithProvider example_auth (au_cfg example_svc) ?t x = Inr (x\<lparr>us_Groups := [''staff'']\<rparr>)"
    if "us_UserID x = ''u1''" for x
    using that by (simp add: authorizeWithProvider_def example_auth_def example_svc_def example_oidc_def)
  have sv: "\<exists>d' s. saveOIDCSession example_auth example_svc x sid ?t empty_db = (d', Inr s)" if "us_UserID x = ''u1''" for x sid
    using that by (simp add: saveOIDCSession_def example_auth_def example_svc_def encryptAESGCM_def insert_row_def delete_rows_def Let_def)
  have m: "ae_Meanwhile example_auth empty_db = empty_db" "au_oauth2Config example_svc \<noteq> None"
    by (simp_all add: example_auth_def example_svc_def)
  let ?x = "empty_session\<lparr>us_UserID := ''u1'', us_Username := ''ana'', us_Email := [], us_Groups := [],
      us_IsAdmin := IsAdmin (au_cfg example_svc) ''ana'' [], us_CreatedAt := 1000\<rparr>"
  obtain d' s where "saveOIDCSession example_auth example_svc ((?x\<lparr>us_Groups := [''staff'']\<rparr>)
      \<lparr>us_IsAdmin := IsAdmin (au_cfg example_svc) ''ana'' [''staff'']\<rparr>) ''sid'' ?t empty_db = (d', Inr s)"
    using sv [of "(?x\<lparr>us_Groups := [''staff'']\<rparr>)\<lparr>us_IsAdmin := IsAdmin (au_cfg example_svc) ''ana'' [''staff'']\<rparr>" "''sid''"]
    by auto
  then show ?thesis using m by (simp add: HandleCallback_def c ap Let_def)
qed

theorem HandleCallback_verified_witness:
  "\<exists>d' s. HandleCallback example_auth example_svc callback_request empty_db = (d', Inr s) \<and> us_UserID s \<noteq> []"
proof -
  obtain d' s where "HandleCallback example_auth example_svc callback_request empty_db = (d', Inr s)"
    using example_callback by blast
  with HandleCallback_verified [OF this] show ?thesis by blast
qed

theorem session_cookie_roundtrip_witness:
  "\<exists>ck. SetSessionCookie example_auth (au_cfg example_svc) (example_session ''s1'') = Some ck \<and> ck_HttpOnly ck \<and>
     cookie_session (example_auth\<lparr>ae_now := 0\<rparr>) (au_cfg example_svc)
       (blank_request\<lparr>rq_Cookies := [(SessionCookieName, ck_Value ck)]\<rparr>) = Some (example_session ''s1'')"
proof -
  have ok: "codec_ok example_auth (example_session ''s1'')"
    by (simp add: codec_ok_def example_auth_def) (simp add: example_session_def)
  obtain ck where ck: "SetSessionCookie example_auth (au_cfg example_svc) (example_session ''s1'') = Some ck"
    by (simp add: SetSessionCookie_def encryptAESGCM_def example_auth_def)
  have "0 < us_CreatedAt (example_session ''s1'')" by (simp add: example_session_def)
  from session_cookie_roundtrip [OF ok ck this, of "blank_request\<lparr>rq_Cookies := [(SessionCookieName, ck_Value ck)]\<rparr>" 0] ck
  show ?thesis by (simp add: Cookie_def)
qed

theorem adoption_exact_witness:
  "db_links (adoptLegacyOwner example_auth example_svc (example_session ''s1'')
     (empty_db\<lparr>db_links := [zero_link\<lparr>l_CreatedBy := ''ana''\<rparr>]\<rparr>)) = [zero_link\<lparr>l_CreatedBy := ''u1''\<rparr>]"
proof -
  have "au_hasDB example_svc" "us_UserID (example_session ''s1'') \<noteq> []" "\<forall>q. \<not> ae_fault example_auth q"
    by (simp_all add: example_svc_def example_session_def example_auth_def)
  from adoption_exact [OF this] show ?thesis by (simp add: new_owner_def example_session_def)
qed

end
