(* ===== verification/Router.thy ===== *)
theory Router
  imports Page_Handlers Web_Format Sessions "HOL-Library.List_Lexorder"
begin

text \<open>
  The routes, internal/handlers/router.go. The router library (go-chi) is a parameter, \<open>mux\<close>: given
  the table, a method and the segments of the path it picks an endpoint and the values of the
  path's parameters. What its documentation promises is \<open>mux_ok\<close>: on a path without empty segments it
  answers exactly when a route matches, and where two match, a literal segment goes before a
  parameter. What the library answers by itself (404, 405) is the parameter \<open>miss\<close>.
\<close>

datatype segment = Lit string | Par | Rest

datatype endpoint = E_static | E_auth_other | E_api_other | E_healthz | E_health
  | E_login | E_callback | E_logout | E_me | E_backchannel
  | E_dashboard | E_settings | E_create_form | E_key_form | E_domain_form | E_webhook_form
  | E_clean_preview | E_list_links | E_create_link | E_get_link | E_link_qr | E_update_link | E_delete_link
  | E_import | E_export | E_list_domains | E_create_domain | E_delete_domain
  | E_list_folders | E_create_folder | E_update_folder | E_delete_folder
  | E_list_keys | E_create_key | E_delete_key | E_list_webhooks | E_create_webhook | E_delete_webhook
  | E_pin_form | E_pin_verify | E_preview | E_redirect

type_synonym route = "string \<times> segment list \<times> endpoint"

text \<open>A subrouter mounted by \<open>r.Route\<close> owns its prefix, for every method: what it does not know it
  misses itself, behind its own middleware.\<close>

definition any_method :: "segment list \<Rightarrow> endpoint \<Rightarrow> route list" where
  "any_method pat e = map (\<lambda>m. (m, pat, e)) [''CONNECT'', ''DELETE'', ''GET'', ''HEAD'', ''OPTIONS'', ''PATCH'', ''POST'', ''PUT'', ''TRACE'']"

definition auth_routes :: "route list" where
  "auth_routes =
     [(''GET'', [Lit ''auth'', Lit ''login''], E_login), (''GET'', [Lit ''auth'', Lit ''callback''], E_callback),
      (''GET'', [Lit ''auth'', Lit ''logout''], E_logout), (''GET'', [Lit ''auth'', Lit ''me''], E_me),
      (''POST'', [Lit ''auth'', Lit ''backchannel-logout''], E_backchannel)] @
     any_method [Lit ''auth''] E_auth_other @ any_method [Lit ''auth'', Rest] E_auth_other"

definition form_routes :: "route list" where
  "form_routes =
     [(''POST'', [Lit ''links'', Lit ''create''], E_create_form), (''POST'', [Lit ''settings'', Lit ''keys''], E_key_form),
      (''POST'', [Lit ''settings'', Lit ''domains''], E_domain_form),
      (''POST'', [Lit ''settings'', Lit ''webhooks''], E_webhook_form)]"

definition api_routes :: "route list" where
  "api_routes =
     [(''POST'', [Lit ''api'', Lit ''clean-preview''], E_clean_preview),
      (''GET'', [Lit ''api'', Lit ''links''], E_list_links), (''POST'', [Lit ''api'', Lit ''links''], E_create_link),
      (''GET'', [Lit ''api'', Lit ''links'', Par], E_get_link),
      (''GET'', [Lit ''api'', Lit ''links'', Par, Lit ''qr.svg''], E_link_qr),
      (''GET'', [Lit ''api'', Lit ''links'', Par, Lit ''qr.png''], E_link_qr),
      (''PATCH'', [Lit ''api'', Lit ''links'', Par], E_update_link),
      (''DELETE'', [Lit ''api'', Lit ''links'', Par], E_delete_link),
      (''POST'', [Lit ''api'', Lit ''links'', Lit ''bulk-import''], E_import),
      (''GET'', [Lit ''api'', Lit ''links'', Lit ''export''], E_export),
      (''GET'', [Lit ''api'', Lit ''domains''], E_list_domains), (''POST'', [Lit ''api'', Lit ''domains''], E_create_domain),
      (''DELETE'', [Lit ''api'', Lit ''domains'', Par], E_delete_domain),
      (''GET'', [Lit ''api'', Lit ''folders''], E_list_folders), (''POST'', [Lit ''api'', Lit ''folders''], E_create_folder),
      (''PATCH'', [Lit ''api'', Lit ''folders'', Par], E_update_folder),
      (''DELETE'', [Lit ''api'', Lit ''folders'', Par], E_delete_folder),
      (''GET'', [Lit ''api'', Lit ''keys''], E_list_keys), (''POST'', [Lit ''api'', Lit ''keys''], E_create_key),
      (''DELETE'', [Lit ''api'', Lit ''keys'', Par], E_delete_key),
      (''GET'', [Lit ''api'', Lit ''webhooks''], E_list_webhooks), (''POST'', [Lit ''api'', Lit ''webhooks''], E_create_webhook),
      (''DELETE'', [Lit ''api'', Lit ''webhooks'', Par], E_delete_webhook)] @
     any_method [Lit ''api''] E_api_other @ any_method [Lit ''api'', Rest] E_api_other"

definition route_table :: "route list" where
  "route_table =
     any_method [Lit ''static'', Rest] E_static @
     [(''GET'', [Lit ''healthz''], E_healthz), (''GET'', [Lit ''health''], E_health)] @
     auth_routes @
     [(''GET'', [Lit []], E_dashboard), (''GET'', [Lit ''settings''], E_settings)] @
     form_routes @ api_routes @
     [(''GET'', [Lit ''pin'', Par], E_pin_form), (''POST'', [Lit ''pin'', Par], E_pin_verify),
      (''GET'', [Lit ''preview'', Par], E_preview), (''GET'', [Par], E_redirect)]"

definition segments :: "string \<Rightarrow> string list" where
  "segments path = split_on CHR ''/'' (drop 1 path)"

text \<open>The values of the parameters when the pattern matches: a parameter takes one segment that is
  not empty, \<open>Rest\<close> whatever follows the slash.\<close>

fun path_match :: "segment list \<Rightarrow> string list \<Rightarrow> string list option" where
  "path_match [] [] = Some []"
| "path_match [Rest] (s # ss) = Some []"
| "path_match (Lit w # ps) (s # ss) = (if s = w then path_match ps ss else None)"
| "path_match (Par # ps) (s # ss) = (if s = [] then None else map_option (Cons s) (path_match ps ss))"
| "path_match _ _ = None"

text \<open>The first segment where two patterns differ is literal in the preferred one.\<close>

fun preferred :: "segment list \<Rightarrow> segment list \<Rightarrow> bool" where
  "preferred (p # ps) (q # qs) =
     (if p = q then preferred ps qs else (case p of Lit w \<Rightarrow> True | Par \<Rightarrow> q = Rest | Rest \<Rightarrow> False))"
| "preferred _ _ = False"

type_synonym mux = "route list \<Rightarrow> string \<Rightarrow> string list \<Rightarrow> (endpoint \<times> string list) option"

definition mux_ok :: "mux \<Rightarrow> bool" where
  "mux_ok mux \<longleftrightarrow> (\<forall>table m path. [] \<notin> set path \<longrightarrow>
     (case mux table m path of
        None \<Rightarrow> \<forall>(m', pat, e)\<in>set table. m' = m \<longrightarrow> path_match pat path = None
      | Some (e, vals) \<Rightarrow> \<exists>pat. (m, pat, e) \<in> set table \<and> path_match pat path = Some vals \<and>
          (\<forall>(m', pat', e')\<in>set table. m' = m \<and> path_match pat' path \<noteq> None \<longrightarrow> \<not> preferred pat' pat)))"

section \<open>Serving a request\<close>

definition healthz :: handler where
  "healthz env r ap =
     (ap, set_header ''Cache-Control'' ''no-store'' (sendJSON (if case_prod Ready (en_ready env) then 200 else 503)
        (R_file (if case_prod Ready (en_ready env) then ''{\"status\":\"healthy\",\"service\":\"linkup\",\"sqlite\":\"ready\"}''
           else ''{\"status\":\"unavailable\",\"service\":\"linkup\"}''))))"

definition health :: handler where
  "health env r ap = (ap, sendJSON 200 (R_file ''{\"status\":\"healthy\",\"service\":\"linkup\"}''))"

definition static_file :: "string \<Rightarrow> handler" where
  "static_file version env r ap =
     (ap, default_headers [(''Cache-Control'', static_cache_control version r)] (en_static env r))"

definition is_api :: "endpoint \<Rightarrow> bool" where
  "is_api e \<longleftrightarrow> e \<in> {E_clean_preview, E_list_links, E_create_link, E_get_link, E_link_qr, E_update_link, E_delete_link,
     E_import, E_export, E_list_domains, E_create_domain, E_delete_domain, E_list_folders, E_create_folder,
     E_update_folder, E_delete_folder, E_list_keys, E_create_key, E_delete_key, E_list_webhooks, E_create_webhook,
     E_delete_webhook, E_api_other}"

definition is_form :: "endpoint \<Rightarrow> bool" where
  "is_form e \<longleftrightarrow> e \<in> {E_create_form, E_key_form, E_domain_form, E_webhook_form}"

text \<open>The handler of an endpoint, \<open>p\<close> being the value of its path parameter.\<close>

type_synonym miss = "request \<Rightarrow> reply response"

definition handler_of :: "miss \<Rightarrow> string \<Rightarrow> endpoint \<Rightarrow> string \<Rightarrow> handler" where
  "handler_of miss version e p =
     (case e of
        E_static \<Rightarrow> static_file version | E_auth_other \<Rightarrow> (\<lambda>env r ap. (ap, miss r)) | E_api_other \<Rightarrow> (\<lambda>env r ap. (ap, miss r))
      | E_healthz \<Rightarrow> healthz | E_health \<Rightarrow> health
      | E_login \<Rightarrow> Login | E_callback \<Rightarrow> Callback | E_logout \<Rightarrow> Logout | E_me \<Rightarrow> Me
      | E_backchannel \<Rightarrow> BackchannelLogoutHandler
      | E_dashboard \<Rightarrow> Dashboard | E_settings \<Rightarrow> ShowSettings
      | E_create_form \<Rightarrow> HandleCreateForm | E_key_form \<Rightarrow> CreateAPIKeyForm
      | E_domain_form \<Rightarrow> CreateDomainForm | E_webhook_form \<Rightarrow> CreateWebhookForm
      | E_clean_preview \<Rightarrow> CleanPreview | E_list_links \<Rightarrow> ListLinks | E_create_link \<Rightarrow> CreateLink
      | E_get_link \<Rightarrow> GetLink p | E_link_qr \<Rightarrow> LinkQR p | E_update_link \<Rightarrow> UpdateLink p | E_delete_link \<Rightarrow> DeleteLink p
      | E_import \<Rightarrow> BulkImport | E_export \<Rightarrow> ExportLinks
      | E_list_domains \<Rightarrow> ListDomains | E_create_domain \<Rightarrow> CreateDomain | E_delete_domain \<Rightarrow> DeleteDomain p
      | E_list_folders \<Rightarrow> ListFolders | E_create_folder \<Rightarrow> CreateFolder | E_update_folder \<Rightarrow> UpdateFolder p
      | E_delete_folder \<Rightarrow> DeleteFolder p
      | E_list_keys \<Rightarrow> ListKeys | E_create_key \<Rightarrow> CreateKey | E_delete_key \<Rightarrow> DeleteKey p
      | E_list_webhooks \<Rightarrow> ListWebhooks | E_create_webhook \<Rightarrow> CreateWebhook | E_delete_webhook \<Rightarrow> DeleteWebhook p
      | E_pin_form \<Rightarrow> ShowForm p | E_pin_verify \<Rightarrow> Verify p | E_preview \<Rightarrow> Preview p | E_redirect \<Rightarrow> Redirect p)"

definition limited :: "miss \<Rightarrow> string \<Rightarrow> endpoint \<Rightarrow> string \<Rightarrow> handler" where
  "limited miss version e p =
     (if is_api e \<or> is_form e then WriteRateLimit (handler_of miss version e p) else handler_of miss version e p)"

definition quoted :: "string \<Rightarrow> string" where "quoted w = CHR 0x27 # w @ [CHR 0x27]"

definition contentSecurityPolicy :: string where
  "contentSecurityPolicy = ''default-src '' @ quoted ''self'' @ ''; script-src '' @ quoted ''self'' @
     ''; style-src '' @ quoted ''self'' @ ''; img-src '' @ quoted ''self'' @ '' data:; font-src '' @ quoted ''self'' @
     ''; connect-src '' @ quoted ''self'' @ ''; form-action '' @ quoted ''self'' @
     ''; base-uri '' @ quoted ''none'' @ ''; frame-ancestors '' @ quoted ''none''"

definition security_headers :: "(string \<times> string) list" where
  "security_headers =
     [(''Content-Security-Policy'', contentSecurityPolicy), (''X-Content-Type-Options'', ''nosniff''),
      (''X-Frame-Options'', ''DENY''), (''Referrer-Policy'', ''strict-origin-when-cross-origin''),
      (''Permissions-Policy'', ''camera=(), microphone=(), geolocation=(), payment=(), usb=()'')]"

definition SecurityHeaders :: "reply response \<Rightarrow> reply response" where
  "SecurityHeaders rs = default_headers security_headers rs"

text \<open>The line of the request log: nothing of the visitor but what was asked for.\<close>

definition PrivacyRespectingLogger :: "request \<Rightarrow> int \<Rightarrow> string \<Rightarrow> string option" where
  "PrivacyRespectingLogger r status duration =
     (if rq_Path r = ''/healthz'' \<or> rq_Path r = ''/health'' then None
      else Some (''[HTTP] '' @ rq_Method r @ '' '' @ rq_Path r @ '' -> '' @ Itoa status @ '' ('' @ duration @ '')''))"

definition serve_http :: "mux \<Rightarrow> miss \<Rightarrow> string \<Rightarrow> handler" where
  "serve_http mux miss version env r ap =
     (case (case mux route_table (rq_Method r) (segments (rq_Path r)) of
              None \<Rightarrow> (ap, miss r)
            | Some (e, vals) \<Rightarrow> limited miss version e (concat vals) env r ap) of
        (ap1, rs) \<Rightarrow> (ap1, SecurityHeaders rs))"

section \<open>Every slug is reachable\<close>

lemma route_match_one:
  assumes "(m, pat, e) \<in> set route_table" and "path_match pat [s] = Some vals"
  shows "(m = ''GET'' \<and> pat = [Par] \<and> e = E_redirect \<and> vals = [s] \<and> s \<noteq> []) \<or>
    (\<exists>w. pat = [Lit w] \<and> s = w \<and> (w = [] \<or> w \<in> set reservedSlugs))"
proof -
  have "list_all (\<lambda>(m, pat, e). case pat of [Lit w] \<Rightarrow> w = [] \<or> w \<in> set reservedSlugs
      | [Par] \<Rightarrow> m = ''GET'' \<and> e = E_redirect | [Rest] \<Rightarrow> False | [] \<Rightarrow> False | _ \<Rightarrow> True) route_table"
    by code_simp
  then have c: "case pat of [Lit w] \<Rightarrow> w = [] \<or> w \<in> set reservedSlugs
      | [Par] \<Rightarrow> m = ''GET'' \<and> e = E_redirect | [Rest] \<Rightarrow> False | [] \<Rightarrow> False | _ \<Rightarrow> True"
    using assms(1) by (auto simp: list_all_iff)
  show ?thesis
  proof (cases pat)
    case (Cons p ps)
    show ?thesis
    proof (cases ps)
      case Nil
      then show ?thesis using c assms(2) Cons by (cases p) (auto split: if_splits)
    next
      case (Cons q qs)
      have "path_match (q # qs) [] = None" by (cases q; cases qs) auto
      then show ?thesis using assms(2) \<open>pat = p # ps\<close> Cons by (cases p) (auto split: if_splits)
    qed
  qed (use c in simp)
qed

text \<open>What an accepted slug is for the router, and what a router that keeps its laws answers.\<close>

lemma accepted_slug:
  assumes "ValidateCustomSlug slug = None"
  shows "slug \<noteq> []" "slug \<notin> set reservedSlugs" "CHR ''/'' \<notin> set slug"
proof -
  have v: "2 \<le> length slug" "\<forall>c\<in>set slug. slug_char c" "to_lower slug \<notin> set reservedSlugs"
    using ValidateCustomSlug_chars [OF assms] assms by (auto simp: ValidateCustomSlug_None)
  then show "slug \<noteq> []" by auto
  show "CHR ''/'' \<notin> set slug" using v(2) by (auto simp: slug_char_def char_class_defs)
  have "list_all (\<lambda>w. to_lower w = w) reservedSlugs" by code_simp
  then show "slug \<notin> set reservedSlugs" using v(3) by (auto simp: list_all_iff)
qed

lemma mux_answers:
  assumes ok: "mux_ok mux" and route: "(m, pat0, e0) \<in> set route_table" "path_match pat0 path \<noteq> None" "[] \<notin> set path"
  obtains e vals pat where "mux route_table m path = Some (e, vals)" "(m, pat, e) \<in> set route_table"
    "path_match pat path = Some vals"
proof -
  note law = ok [unfolded mux_ok_def, rule_format, where table = route_table and m = m and path = path]
  show thesis
  proof (cases "mux route_table m path")
    case None
    then have "\<forall>(m', pat, e)\<in>set route_table. m' = m \<longrightarrow> path_match pat path = None" using law route(3) by simp
    with route show thesis by fastforce
  next
    case (Some p)
    obtain e vals where p: "p = (e, vals)" by (cases p)
    then have "\<exists>pat. (m, pat, e) \<in> set route_table \<and> path_match pat path = Some vals" using law route(3) Some by auto
    with Some p that show thesis by auto
  qed
qed

lemma mux_one:
  assumes "mux_ok mux" and "slug \<noteq> []" and "slug \<notin> set reservedSlugs"
  shows "mux route_table ''GET'' [slug] = Some (E_redirect, [slug])"
proof -
  have "(''GET'', [Par], E_redirect) \<in> set route_table" by (simp add: route_table_def)
  then obtain e vals pat where a: "mux route_table ''GET'' [slug] = Some (e, vals)"
    "(''GET'', pat, e) \<in> set route_table" "path_match pat [slug] = Some vals"
    using mux_answers [OF assms(1), of "''GET''" "[Par]" E_redirect "[slug]"] assms(2) by auto
  from route_match_one [OF a(2,3)] assms a(1) show ?thesis by auto
qed

text \<open>Of the routes of two segments with a parameter, each is given by its method and first segment.\<close>

lemma two_segments_unique:
  assumes "(m, [Lit w, Par], e1) \<in> set route_table" "(m, [Lit w, Par], e2) \<in> set route_table"
  shows "e1 = e2"
proof -
  have "list_all (\<lambda>(m1, p1, e1). list_all (\<lambda>(m2, p2, e2).
      m1 = m2 \<and> p1 = p2 \<and> length p1 = 2 \<and> p1 ! 1 = Par \<longrightarrow> e1 = e2) route_table) route_table" by code_simp
  with assms show ?thesis by (fastforce simp: list_all_iff)
qed

lemma match_two:
  assumes "(m, pat, e) \<in> set route_table" and "path_match pat [w, slug] = Some vals" and "w \<in> {''pin'', ''preview''}"
  shows "pat = [Lit w, Par] \<and> vals = [slug]"
proof -
  have "list_all (\<lambda>(m1, p1, e1). case p1 of Lit w1 # p \<Rightarrow> w1 \<notin> {''pin'', ''preview''} \<or> p = [Par]
      | Par # p \<Rightarrow> p = [] | _ \<Rightarrow> False) route_table" by code_simp
  then have sh: "case pat of Lit w1 # p \<Rightarrow> w1 \<notin> {''pin'', ''preview''} \<or> p = [Par] | Par # p \<Rightarrow> p = [] | _ \<Rightarrow> False"
    using assms(1) by (auto simp: list_all_iff)
  show ?thesis
  proof (cases pat)
    case (Cons p ps)
    then show ?thesis using sh assms(2,3) by (cases p) (auto split: if_splits)
  qed (use sh in simp)
qed

lemma mux_two:
  assumes "mux_ok mux" and "slug \<noteq> []" and r: "(m, [Lit w, Par], e0) \<in> set route_table" and w: "w \<in> {''pin'', ''preview''}"
  shows "mux route_table m [w, slug] = Some (e0, [slug])"
proof -
  obtain e vals pat where a: "mux route_table m [w, slug] = Some (e, vals)"
    "(m, pat, e) \<in> set route_table" "path_match pat [w, slug] = Some vals"
    using mux_answers [OF assms(1) r, of "[w, slug]"] assms(2) w by auto
  from match_two [OF a(2,3) w] a(1,2) two_segments_unique [OF r] show ?thesis by auto
qed

text \<open>
  Claim C21. No link is hidden by the program's own pages: a GET of \<open>/slug\<close>, for any slug that
  \<open>ValidateCustomSlug\<close> accepts (so for every slug the service stores), is the redirection of that
  slug, and its PIN form and its preview are where the pages point to.
\<close>

theorem slugs_are_routed:
  assumes "mux_ok mux" and "ValidateCustomSlug slug = None"
  shows "mux route_table ''GET'' (segments (''/'' @ slug)) = Some (E_redirect, [slug]) \<and>
    mux route_table ''GET'' (segments (''/pin/'' @ slug)) = Some (E_pin_form, [slug]) \<and>
    mux route_table ''POST'' (segments (''/pin/'' @ slug)) = Some (E_pin_verify, [slug]) \<and>
    mux route_table ''GET'' (segments (''/preview/'' @ slug)) = Some (E_preview, [slug])"
proof -
  note sl = accepted_slug [OF assms(2)]
  have seg: "segments (''/'' @ slug) = [slug]" "segments (''/pin/'' @ slug) = [''pin'', slug]"
    "segments (''/preview/'' @ slug) = [''preview'', slug]"
    using split_on_none [OF sl(3)] split_on_append [of "CHR ''/''" "''pin''" slug]
      split_on_append [of "CHR ''/''" "''preview''" slug]
    by (simp_all add: segments_def)
  note two = mux_two [OF assms(1) sl(1)]
  have rt: "(''GET'', [Lit ''pin'', Par], E_pin_form) \<in> set route_table"
    "(''POST'', [Lit ''pin'', Par], E_pin_verify) \<in> set route_table"
    "(''GET'', [Lit ''preview'', Par], E_preview) \<in> set route_table"
    by (simp_all add: route_table_def)
  show ?thesis unfolding seg
    using mux_one [OF assms(1) sl(1,2)] two [OF rt(1)] two [OF rt(2)] two [OF rt(3)] by simp
qed


section \<open>A router that meets its contract\<close>

text \<open>The rank of a segment: among the patterns that match a path, the preferred one is the
  lexicographically least.\<close>

fun rank :: "segment \<Rightarrow> nat" where
  "rank (Lit w) = 0" | "rank Par = 1" | "rank Rest = 2"

lemma preferred_rank:
  "path_match p path \<noteq> None \<Longrightarrow> path_match q path \<noteq> None \<Longrightarrow> preferred p q \<Longrightarrow> map rank p < map rank q"
proof (induction p q arbitrary: path rule: preferred.induct)
  case (1 p ps q qs)
  have rest: "\<exists>s ss. path = s # ss \<and> (x = Rest \<or> path_match xs ss \<noteq> None)" if "path_match (x # xs) path \<noteq> None" for x xs
    using that by (cases x; cases path; cases xs) (auto split: if_splits)
  obtain s ss where path: "path = s # ss" using rest [OF "1.prems"(1)] by blast
  show ?case
  proof (cases "p = q")
    case True
    show ?thesis
    proof (cases "p = Rest")
      case True
      with "1.prems"(1,2) \<open>p = q\<close> path have "ps = []" "qs = []" by (cases ps; cases qs; auto)+
      with "1.prems"(3) \<open>p = q\<close> show ?thesis by simp
    next
      case False
      then have "path_match ps ss \<noteq> None" "path_match qs ss \<noteq> None"
        using rest [OF "1.prems"(1)] rest [OF "1.prems"(2)] \<open>p = q\<close> path by auto
      with "1.IH" [OF \<open>p = q\<close>] "1.prems"(3) \<open>p = q\<close> show ?thesis by simp
    qed
  next
    case False
    have "p = Lit u \<Longrightarrow> s = u" "q = Lit u \<Longrightarrow> s = u" for u
      using "1.prems"(1,2) path by (auto split: if_splits)
    then have "rank p < rank q" using "1.prems"(3) False by (cases p; cases q) auto
    then show ?thesis by simp
  qed
qed simp_all

definition candidate :: "string \<Rightarrow> string list \<Rightarrow> route \<Rightarrow> bool" where
  "candidate m path q = (case q of (m', pat, e) \<Rightarrow> m' = m \<and> path_match pat path \<noteq> None)"

text \<open>The first route that matches and that no matching route goes before.\<close>

definition example_mux :: mux where
  "example_mux table m path =
     (case find (\<lambda>q. candidate m path q \<and>
                     list_all (\<lambda>q'. candidate m path q' \<longrightarrow> \<not> preferred (fst (snd q')) (fst (snd q))) table) table of
        None \<Rightarrow> None
      | Some (m', pat, e) \<Rightarrow> Some (e, the (path_match pat path)))"

lemma example_mux_ok: "mux_ok example_mux"
  unfolding mux_ok_def
proof (intro allI impI)
  fix table m path
  let ?best = "\<lambda>q. candidate m path q \<and>
    list_all (\<lambda>q'. candidate m path q' \<longrightarrow> \<not> preferred (fst (snd q')) (fst (snd q))) table"
  show "case example_mux table m path of
      None \<Rightarrow> \<forall>(m', pat, e)\<in>set table. m' = m \<longrightarrow> path_match pat path = None
    | Some (e, vals) \<Rightarrow> \<exists>pat. (m, pat, e) \<in> set table \<and> path_match pat path = Some vals \<and>
        (\<forall>(m', pat', e')\<in>set table. m' = m \<and> path_match pat' path \<noteq> None \<longrightarrow> \<not> preferred pat' pat)"
  proof (cases "find ?best table")
    case None
    have none: "\<not> candidate m path q" if q: "q \<in> set table" for q
    proof
      assume "candidate m path q"
      then have ne: "filter (candidate m path) table \<noteq> []" using q by (auto simp: filter_empty_conv)
      obtain w where w: "w \<in> (\<lambda>q. map rank (fst (snd q))) ` set (filter (candidate m path) table)"
        "\<not> (\<exists>x\<in>(\<lambda>q. map rank (fst (snd q))) ` set (filter (candidate m path) table). x < w)"
        using ex_min_if_finite [of "(\<lambda>q. map rank (fst (snd q))) ` set (filter (candidate m path) table)"] ne
        by (metis List.finite_set finite_imageI image_is_empty set_empty)
      then obtain b where b: "b \<in> set table" "candidate m path b" "w = map rank (fst (snd b))" by auto
      have least: "\<not> map rank (fst (snd q')) < map rank (fst (snd b))" if "q' \<in> set table" "candidate m path q'" for q'
        using w(2) b(3) that by (cases q') auto
      have "\<not> preferred (fst (snd q')) (fst (snd b))" if q': "q' \<in> set table" "candidate m path q'" for q'
        using least [OF q'] preferred_rank [of "fst (snd q')" path "fst (snd b)"] q'(2) b(2)
        by (auto simp: candidate_def split: prod.splits)
      then have "?best b" using b(2) by (simp add: list_all_iff)
      with None b(1) show False by (cases b) (auto simp: find_None_iff)
    qed
    with None show ?thesis by (auto simp: example_mux_def candidate_def)
  next
    case (Some q)
    obtain m' pat e where q: "q = (m', pat, e)" by (cases q)
    have "(m', pat, e) \<in> set table" "?best q" using find_Some_in [OF Some] q by auto
    then show ?thesis using Some q
      by (auto simp: example_mux_def candidate_def list_all_iff intro!: exI [of _ pat])
  qed
qed

theorem slugs_are_routed_witness:
  "example_mux route_table ''GET'' (segments ''/promo'') = Some (E_redirect, [''promo''])"
proof -
  have "ValidateCustomSlug ''promo'' = None" by code_simp
  from slugs_are_routed [OF example_mux_ok this] show ?thesis by simp
qed

section \<open>The security headers reach every response\<close>

text \<open>The headers no handler sets, but for the \<open>nosniff\<close> of \<open>http.Error\<close>.\<close>

definition reserved_headers :: "string set" where
  "reserved_headers = {''Content-Security-Policy'', ''X-Content-Type-Options'', ''X-Frame-Options'', ''Permissions-Policy''}"

definition leaves_reserved :: "'b response \<Rightarrow> bool" where
  "leaves_reserved rs \<longleftrightarrow> (\<forall>(h, v)\<in>set (rs_Headers rs). h \<in> reserved_headers \<longrightarrow>
     h = ''X-Content-Type-Options'' \<and> v = ''nosniff'')"

lemma set_AList_update: "set (AList.update k v hs) \<subseteq> insert (k, v) (set hs)"
  by (induction hs) auto

lemma leaves_reserved_status [simp]: "leaves_reserved (status_only code body)"
  by (simp add: leaves_reserved_def status_only_def)

lemma leaves_reserved_set [simp]: "k \<notin> reserved_headers \<Longrightarrow> leaves_reserved rs \<Longrightarrow> leaves_reserved (set_header k v rs)"
  using set_AList_update [of k v "rs_Headers rs"] by (fastforce simp: leaves_reserved_def set_header_def)

lemma leaves_reserved_cookies [simp]: "leaves_reserved (rs\<lparr>rs_Cookies := cs\<rparr>) = leaves_reserved rs"
  by (simp add: leaves_reserved_def)

lemma leaves_reserved_makers [simp]: "leaves_reserved (sendJSON code body)" "leaves_reserved (http_error code body)"
  "leaves_reserved (redirect_to url code)" "leaves_reserved unauthorized"
  by (simp_all add: sendJSON_def http_error_def redirect_to_def unauthorized_def reserved_headers_def
      leaves_reserved_def status_only_def set_header_def)

text \<open>A handler all of whose responses do so, and the combinators that keep that.\<close>

definition modest :: "handler \<Rightarrow> bool" where
  "modest h \<longleftrightarrow> (\<forall>env r ap. leaves_reserved (snd (h env r ap)))"

lemma modestI: "(\<And>env r ap. leaves_reserved (snd (h env r ap))) \<Longrightarrow> modest h"
  by (simp add: modest_def)

lemma modest_session: "(\<And>s. modest (k s)) \<Longrightarrow> modest (with_session k)"
  by (auto simp: modest_def with_session_def split: prod.splits option.splits)

lemma modest_cookie: "(\<And>s. modest (k s)) \<Longrightarrow> modest (with_cookie k)"
  by (auto simp: modest_def with_cookie_def split: prod.splits option.splits)

lemma page_response: "leaves_reserved (snd (page code body env r ap))"
  by (auto simp: page_def split: prod.splits)

lemma modest_limit: "modest h \<Longrightarrow> modest (WriteRateLimit h)"
  by (auto simp: modest_def WriteRateLimit_def reserved_headers_def split: prod.splits option.splits bool.splits)

lemma modest_links: "modest CreateLink" "modest ListLinks" "modest (GetLink i)" "modest (UpdateLink i)"
  "modest (DeleteLink i)" "modest CleanPreview" "modest BulkImport"
  unfolding CreateLink_def ListLinks_def GetLink_def UpdateLink_def DeleteLink_def BulkImport_def own_link_def
  by ((rule modest_session)?, rule modestI,
      simp add: CleanPreview_def split: option.splits sum.splits prod.splits if_splits)+

lemma modest_tables: "modest ListKeys" "modest CreateKey" "modest (DeleteKey i)"
  "modest ListDomains" "modest CreateDomain" "modest (DeleteDomain i)"
  "modest ListFolders" "modest CreateFolder" "modest (UpdateFolder i)" "modest (DeleteFolder i)"
  "modest ListWebhooks" "modest CreateWebhook" "modest (DeleteWebhook i)"
  unfolding ListKeys_def CreateKey_def DeleteKey_def ListDomains_def CreateDomain_def DeleteDomain_def
    ListFolders_def CreateFolder_def UpdateFolder_def DeleteFolder_def ListWebhooks_def CreateWebhook_def DeleteWebhook_def
  by (rule modest_session, rule modestI, simp split: option.splits sum.splits prod.splits)+


lemma modest_pages: "modest (Redirect t)" "modest (Preview t)" "modest (ShowForm t)" "modest (Verify t)"
  by (rule modestI, simp add: Redirect_def Preview_def ShowForm_def Verify_def not_found_def expired_page_def missing_page_def page_response
        reserved_headers_def Let_def split: option.splits sum.splits prod.splits bool.splits if_splits)+

lemma modest_auth: "modest Login" "modest Callback" "modest Logout" "modest Me" "modest BackchannelLogoutHandler"
  by (rule modestI, simp add: Login_def Callback_def Logout_def Me_def BackchannelLogoutHandler_def reserved_headers_def
        Let_def split: option.splits sum.splits prod.splits list.splits if_splits)+

lemma modest_forms: "modest ShowSettings" "modest CreateAPIKeyForm" "modest CreateDomainForm" "modest CreateWebhookForm"
  "modest HandleCreateForm" "modest Dashboard"
  unfolding ShowSettings_def CreateAPIKeyForm_def CreateDomainForm_def CreateWebhookForm_def HandleCreateForm_def
  by ((rule modest_cookie)?, rule modestI,
      simp add: Dashboard_def settings_error_def Let_def split: option.splits sum.splits prod.splits if_splits)+

lemma modest_files: "modest (LinkQR i)" "modest ExportLinks"
  unfolding LinkQR_def own_link_def
  by ((rule modest_session)?, rule modestI,
      simp add: ExportLinks_def reserved_headers_def Let_def split: option.splits sum.splits prod.splits if_splits)+

lemma modest_health: "modest healthz" "modest health"
  by (rule modestI, simp add: healthz_def health_def reserved_headers_def)+

lemmas modest_handlers = modest_links modest_tables modest_pages modest_auth modest_forms modest_files modest_health

text \<open>What the router library and the file server answer by themselves.\<close>

definition modest_library :: "miss \<Rightarrow> app_env \<Rightarrow> bool" where
  "modest_library miss env \<longleftrightarrow> (\<forall>r. leaves_reserved (miss r) \<and> leaves_reserved (en_static env r))"

lemma leaves_reserved_default: "leaves_reserved rs \<Longrightarrow> fst ` set hs \<inter> reserved_headers = {} \<Longrightarrow>
  leaves_reserved (default_headers hs rs)"
proof -
  have sub: "set (fold (\<lambda>(k, v). AList.update k v) us hs) \<subseteq> set us \<union> set hs" for us hs :: "(string \<times> string) list"
  proof (induction us arbitrary: hs)
    case (Cons u us)
    with Cons.IH [of "AList.update (fst u) (snd u) hs"] set_AList_update [of "fst u" "snd u" hs] show ?case
      by (cases u) auto
  qed simp
  show "leaves_reserved rs \<Longrightarrow> fst ` set hs \<inter> reserved_headers = {} \<Longrightarrow> ?thesis"
    using sub [of "rs_Headers rs" hs] unfolding leaves_reserved_def default_headers_def by fastforce
qed

lemma limited_modest:
  assumes "modest_library miss env"
  shows "leaves_reserved (snd (limited miss version e p env r ap))"
proof -
  have miss: "leaves_reserved (miss r)" for r using assms by (simp add: modest_library_def)
  have "leaves_reserved (snd (handler_of miss version e p env r ap))" for ap
  proof (cases "e \<in> {E_static, E_auth_other, E_api_other}")
    case True
    have "leaves_reserved (en_static env r)" using assms by (simp add: modest_library_def)
    then show ?thesis using True miss
      by (auto simp: handler_of_def static_file_def reserved_headers_def intro!: leaves_reserved_default)
  next
    case False
    then have "modest (handler_of miss version e p)" by (cases e) (simp_all add: handler_of_def modest_handlers)
    then show ?thesis by (simp add: modest_def)
  qed
  then show ?thesis
    by (auto simp: limited_def WriteRateLimit_def reserved_headers_def split: prod.splits option.splits bool.splits)
qed

text \<open>
  Claim C29. Every response of the program, whatever the route, the caller and the errors on the
  way, carries the content security policy, forbids framing and content sniffing and renounces
  the permissions; its referrer policy is the default of the instance or the stricter
  \<open>no-referrer\<close> of a redirection. Nothing the router library answers by itself, nor the file
  server, sets those headers.
\<close>

theorem responses_carry_policy:
  assumes "modest_library miss env" and "serve_http mux miss version env r ap = (ap', rs)"
  shows "header rs ''Content-Security-Policy'' = Some contentSecurityPolicy \<and>
    header rs ''X-Content-Type-Options'' = Some ''nosniff'' \<and> header rs ''X-Frame-Options'' = Some ''DENY'' \<and>
    header rs ''Permissions-Policy'' = Some ''camera=(), microphone=(), geolocation=(), payment=(), usb=()'' \<and>
    header rs ''Referrer-Policy'' \<noteq> None"
proof -
  obtain rs0 where rs0: "rs = default_headers security_headers rs0" "leaves_reserved rs0"
  proof (cases "mux route_table (rq_Method r) (segments (rq_Path r))")
    case None
    then show ?thesis using that [of "miss r"] assms
      by (auto simp: serve_http_def SecurityHeaders_def modest_library_def)
  next
    case (Some q)
    then show ?thesis using that assms(2) limited_modest [OF assms(1), of version "fst q" "concat (snd q)" r ap]
      by (cases q) (auto simp: serve_http_def SecurityHeaders_def split: prod.splits)
  qed
  have own: "h = ''X-Content-Type-Options'' \<and> v = ''nosniff''"
    if "h \<in> reserved_headers" "map_of (rev (rs_Headers rs0)) h = Some v" for h v
    using rs0(2) that map_of_SomeD [OF that(2)] by (auto simp: leaves_reserved_def)
  then show ?thesis
    by (auto simp: rs0(1) header_default security_headers_def reserved_headers_def split: option.splits)
qed


section \<open>The program at its start\<close>

text \<open>cmd/linkup/main.go and the limiters of the router: the state the server starts from, on a
  database that may hold links already.\<close>

definition main_app :: "(rat \<Rightarrow> rat) \<Rightarrow> auth_env \<Rightarrow> config \<Rightarrow> db \<Rightarrow> app" where
  "main_app rnd env cfg d =
     \<lparr>ap_svc = \<lparr>ls_db = d, ls_cache = NewLinkCache 10000 (15 * minute_ns)\<rparr>,
      ap_auth = NewAuthService env cfg True, ap_guard = NewPINGuard 5 (15 * minute_ns),
      ap_bucket = NewTokenBucket rnd 60 minute_ns, ap_clicks = [], ap_events = []\<rparr>"

lemma main_app_simps [simp]: "app_cfg (main_app rnd env cfg d) = cfg" "app_db (main_app rnd env cfg d) = d"
  by (simp_all add: main_app_def app_cfg_def app_db_def NewAuthService_def Let_def split: option.splits)

definition example_request_env :: app_env where
  "example_request_env = \<lparr>en_now = 1000 * second_ns, en_link = example_env, en_auth = example_auth,
     en_key = (\<lambda>q. False), en_folder = (\<lambda>q. False), en_domain = (\<lambda>q. False), en_webhook = (\<lambda>q. False),
     en_uuid = ''u9'', en_key_bytes = Some ''0123456789abcdef01234567'', en_secret = ''0123456789abcdef'',
     en_resolve = (\<lambda>h. None), en_round = (\<lambda>x. x), en_draw = Some 0, en_compare = example_cmp, en_ready = (example_probe, Some example_handle),
     en_imports = (\<lambda>n. example_env), en_sched = (\<lambda>js. js), en_upload = None, en_rfc3339 = Itoa,
     en_static = (\<lambda>r. status_only 200 R_empty), en_stamp = ''20260101'', en_quote = quoted, en_text = (\<lambda>e. ''error''),
     en_qr = (\<lambda>u. None), en_png = (\<lambda>u n. None), en_link_json = (\<lambda>b. Some example_req),
     en_update_json = (\<lambda>b. Some empty_update), en_url_json = Some, en_key_json = Some, en_domain_json = Some,
     en_folder_json = (\<lambda>b. Some (b, [])), en_recolour_json = (\<lambda>b. None), en_webhook_json = (\<lambda>b. None)\<rparr>"

theorem responses_carry_policy_witness:
  "header (snd (serve_http example_mux (\<lambda>r. http_error 404 R_empty) ''v1'' example_request_env signed_in
     (main_app (\<lambda>x. x) example_auth example_oidc login_db))) ''X-Frame-Options'' = Some ''DENY''"
proof -
  have "modest_library (\<lambda>r. http_error 404 R_empty) example_request_env"
    by (simp add: modest_library_def example_request_env_def)
  from responses_carry_policy [OF this, of example_mux "''v1''" signed_in] show ?thesis
    by (metis prod.collapse)
qed

end
