(* ===== verification/Serving.thy ===== *)
theory Serving
  imports Link_Service Folder_Service
begin

text \<open>
  The link service at work: the interleavings of owners' edits, visitors' lookups, delayed
  clicks and the services that write the links table without the link service's mutex.

  The mutex of \<open>LinkService\<close> is a read-write lock. \<open>Create\<close>, \<open>Update\<close>, \<open>Delete\<close> and the
  goroutine of \<open>RecordClick\<close> hold it for writing, so they are single steps, possible only when
  no lookup is under way. \<open>Resolve\<close> holds it for reading, so lookups overlap: one is a step that
  reads (the cache, or the database on a miss) and a later step that writes to the cache what
  the first one decided. \<open>FolderService.Delete\<close> and the adoption of legacy owners take no lock
  of the link service, and so are possible at any moment.
\<close>

datatype pending = Publish link | Drop string string

record serving =
  sv_svc :: link_service
  sv_readers :: "pending list"
  sv_clicks :: "(string \<times> string \<times> string \<times> string) list"
  sv_used :: "string set"

text \<open>The adoption of the links of a login name (internal/services/auth.go).\<close>

definition adopt_links :: "string \<Rightarrow> string \<Rightarrow> db \<Rightarrow> db" where
  "adopt_links new old d =
     d\<lparr>db_links := update_rows (\<lambda>l. l_CreatedBy l = old) (\<lambda>l. l\<lparr>l_CreatedBy := new\<rparr>) (db_links d)\<rparr>"

definition hash_ok :: "link_env \<Rightarrow> bool" where
  "hash_ok env \<longleftrightarrow> (\<forall>p h. le_hash env p = Some h \<longrightarrow> h \<noteq> [])"

definition colon_free :: "string \<Rightarrow> bool" where "colon_free s \<longleftrightarrow> CHR '':'' \<notin> set s"

definition set_db :: "db \<Rightarrow> serving \<Rightarrow> serving" where
  "set_db d s = s\<lparr>sv_svc := (sv_svc s)\<lparr>ls_db := d\<rparr>\<rparr>"

definition set_cache :: "link_cache \<Rightarrow> serving \<Rightarrow> serving" where
  "set_cache c s = s\<lparr>sv_svc := (sv_svc s)\<lparr>ls_cache := c\<rparr>\<rparr>"

lemma set_simps [simp]:
  "ls_db (sv_svc (set_db d s)) = d" "ls_cache (sv_svc (set_db d s)) = ls_cache (sv_svc s)"
  "ls_cache (sv_svc (set_cache c s)) = c" "ls_db (sv_svc (set_cache c s)) = ls_db (sv_svc s)"
  "sv_readers (set_db d s) = sv_readers s" "sv_readers (set_cache c s) = sv_readers s"
  "sv_clicks (set_db d s) = sv_clicks s" "sv_clicks (set_cache c s) = sv_clicks s"
  "sv_used (set_db d s) = sv_used s" "sv_used (set_cache c s) = sv_used s"
  by (simp_all add: set_db_def set_cache_def)

text \<open>
  One step. A visit whose link is found schedules a click (\<open>hit_visit\<close>, \<open>miss_visit\<close>, \<open>pin_visit\<close>); a
  lookup that ends at the PIN form does not. The UUID of a new link has not been used before. The
  slug of a lookup is whatever the visitor put into the path, colons included; the domain of a
  visit is a host name, which the handlers cut at its first colon.
\<close>

inductive serve :: "link_cfg \<Rightarrow> serving \<Rightarrow> serving \<Rightarrow> bool" for cfg :: link_cfg where
  create: "sv_readers s = [] \<Longrightarrow> hash_ok env \<Longrightarrow> le_uuid env \<notin> sv_used s \<Longrightarrow>
    LinkService_Create cfg env req who (sv_svc s) = (t, res, evs) \<Longrightarrow>
    serve cfg s (s\<lparr>sv_svc := t, sv_used := insert (le_uuid env) (sv_used s)\<rparr>)"
| update: "sv_readers s = [] \<Longrightarrow> hash_ok env \<Longrightarrow>
    LinkService_Update cfg env i ureq who adm (sv_svc s) = (t, ures) \<Longrightarrow> serve cfg s (s\<lparr>sv_svc := t\<rparr>)"
| delete: "sv_readers s = [] \<Longrightarrow>
    LinkService_Delete cfg env i who adm (sv_svc s) = (t, err, evs) \<Longrightarrow> serve cfg s (s\<lparr>sv_svc := t\<rparr>)"
| click: "sv_readers s = [] \<Longrightarrow> (i, dm, slug, v) \<in> set (sv_clicks s) \<Longrightarrow>
    RecordClick cfg env i dm slug v (sv_svc s) = (t, evs) \<Longrightarrow>
    serve cfg s (s\<lparr>sv_svc := t, sv_clicks := remove1 (i, dm, slug, v) (sv_clicks s)\<rparr>)"
| hit: "LinkCache_Get now dm slug (ls_cache (sv_svc s)) = (c, Some l) \<Longrightarrow>
    \<not> IsExpired now l \<Longrightarrow> serve cfg s (set_cache c s)"
| hit_visit: "colon_free dm \<Longrightarrow> LinkCache_Get now dm slug (ls_cache (sv_svc s)) = (c, Some l) \<Longrightarrow>
    \<not> IsExpired now l \<Longrightarrow> \<not> l_HasPIN l \<Longrightarrow>
    serve cfg s ((set_cache c s)\<lparr>sv_clicks := (l_ID l, l_Domain l, slug, v) # sv_clicks s\<rparr>)"
| hit_expired: "LinkCache_Get now dm slug (ls_cache (sv_svc s)) = (c, Some l) \<Longrightarrow>
    IsExpired now l \<Longrightarrow> serve cfg s ((set_cache c s)\<lparr>sv_readers := Drop dm slug # sv_readers s\<rparr>)"
| miss: "LinkCache_Get (le_now env) dm slug (ls_cache (sv_svc s)) = (c, None) \<Longrightarrow>
    lookup_link env dm slug (ls_db (sv_svc s)) = Inr l \<Longrightarrow> \<not> IsExpired (le_now env) l \<Longrightarrow>
    serve cfg s ((set_cache c s)\<lparr>sv_readers := Publish l # sv_readers s\<rparr>)"
| miss_visit: "LinkCache_Get (le_now env) dm slug (ls_cache (sv_svc s)) = (c, None) \<Longrightarrow>
    lookup_link env dm slug (ls_db (sv_svc s)) = Inr l \<Longrightarrow> \<not> IsExpired (le_now env) l \<Longrightarrow> \<not> l_HasPIN l \<Longrightarrow>
    serve cfg s ((set_cache c s)\<lparr>sv_readers := Publish l # sv_readers s,
       sv_clicks := (l_ID l, l_Domain l, slug, v) # sv_clicks s\<rparr>)"
| miss_gone: "LinkCache_Get now dm slug (ls_cache (sv_svc s)) = (c, None) \<Longrightarrow> serve cfg s (set_cache c s)"
| publish: "Publish l \<in> set (sv_readers s) \<Longrightarrow>
    serve cfg s ((set_cache (LinkCache_Set now (l_Domain l) (l_Slug l) (Some l) (ls_cache (sv_svc s))) s)
      \<lparr>sv_readers := remove1 (Publish l) (sv_readers s)\<rparr>)"
| drop: "Drop dm slug \<in> set (sv_readers s) \<Longrightarrow>
    serve cfg s ((set_cache (LinkCache_Delete dm slug (ls_cache (sv_svc s))) s)
      \<lparr>sv_readers := remove1 (Drop dm slug) (sv_readers s)\<rparr>)"
| pin_visit: "GetBySlugRaw env dm slug (ls_db (sv_svc s)) = Inr l \<Longrightarrow>
    \<not> IsExpired (le_now env) l \<Longrightarrow> serve cfg s (s\<lparr>sv_clicks := (l_ID l, l_Domain l, slug, []) # sv_clicks s\<rparr>)"
| folder_delete: "FolderService_Delete flt i who adm (ls_db (sv_svc s)) = (d, ferr) \<Longrightarrow>
    serve cfg s (set_db d s)"
| adopt: "serve cfg s (set_db (adopt_links new old (ls_db (sv_svc s))) s)"
| elsewhere: "db_links d = db_links (ls_db (sv_svc s)) \<Longrightarrow> serve cfg s (set_db d s)"

text \<open>A server that starts on an existing database, with an empty cache.\<close>

definition boot :: "db \<Rightarrow> int \<Rightarrow> int \<Rightarrow> serving" where
  "boot d capacity ttl = \<lparr>sv_svc = \<lparr>ls_db = d, ls_cache = NewLinkCache capacity ttl\<rparr>,
     sv_readers = [], sv_clicks = [], sv_used = l_ID ` set (db_links d)\<rparr>"

inductive served :: "link_cfg \<Rightarrow> serving \<Rightarrow> serving \<Rightarrow> bool" for cfg s0 where
  start: "served cfg s0 s0"
| more: "served cfg s0 s \<Longrightarrow> serve cfg s t \<Longrightarrow> served cfg s0 t"

section \<open>What the cache may hold\<close>

lemma FormatCacheKey_inj:
  assumes "colon_free s" and "colon_free t" and "FormatCacheKey d s = FormatCacheKey e t"
  shows "d = e \<and> s = t"
proof -
  have last: "rev (takeWhile (\<lambda>c. c \<noteq> CHR '':'') (rev (x @ '':'' @ y))) = y" if "colon_free y" for x y
  proof -
    have "takeWhile (\<lambda>c. c \<noteq> CHR '':'') (rev y @ CHR '':'' # rev x) = rev y"
      using that by (subst takeWhile_append2) (auto simp: colon_free_def)
    then show ?thesis by simp
  qed
  show ?thesis
  proof (cases "d = []"; cases "e = []")
    assume "d \<noteq> []" "e \<noteq> []"
    then have eq: "d @ '':'' @ s = e @ '':'' @ t" using assms(3) by (simp add: FormatCacheKey_def)
    then have "s = t" using last [OF assms(1), of d] last [OF assms(2), of e] by metis
    with eq show ?thesis by simp
  qed (use assms in \<open>auto simp: FormatCacheKey_def colon_free_def\<close>)
qed

text \<open>
  Two versions of a link that serve visitors alike: they may differ in the folder and the owner,
  which are written without the lock, and in the counters of clicks.
\<close>

definition uncounted :: "link \<Rightarrow> link" where
  "uncounted l = l\<lparr>l_FolderID := None, l_CreatedBy := [], l_ClickCount := 0, l_LastClickedAt := None,
     l_ABVariants := map (\<lambda>v. v\<lparr>av_ClickCount := 0\<rparr>) (l_ABVariants l)\<rparr>"

definition serves_as :: "link \<Rightarrow> link \<Rightarrow> bool" where
  "serves_as l r \<longleftrightarrow> uncounted l = uncounted r \<and> l_ClickCount l \<le> l_ClickCount r"

lemma serves_as_fields:
  assumes "serves_as l r"
  shows "l_ID l = l_ID r" "l_Slug l = l_Slug r" "l_Domain l = l_Domain r" "l_TargetURL l = l_TargetURL r"
    "l_PinHash l = l_PinHash r" "l_HasPIN l = l_HasPIN r" "l_IsActive l = l_IsActive r"
    "l_ExpiresAt l = l_ExpiresAt r" "l_MaxClicks l = l_MaxClicks r" "l_RedirectType l = l_RedirectType r"
proof -
  have u: "uncounted l = uncounted r" using assms by (simp add: serves_as_def)
  show "l_ID l = l_ID r" using arg_cong [OF u, of l_ID] by (simp add: uncounted_def)
  show "l_Slug l = l_Slug r" using arg_cong [OF u, of l_Slug] by (simp add: uncounted_def)
  show "l_Domain l = l_Domain r" using arg_cong [OF u, of l_Domain] by (simp add: uncounted_def)
  show "l_TargetURL l = l_TargetURL r" using arg_cong [OF u, of l_TargetURL] by (simp add: uncounted_def)
  show "l_PinHash l = l_PinHash r" using arg_cong [OF u, of l_PinHash] by (simp add: uncounted_def)
  show "l_HasPIN l = l_HasPIN r" using arg_cong [OF u, of l_HasPIN] by (simp add: uncounted_def)
  show "l_IsActive l = l_IsActive r" using arg_cong [OF u, of l_IsActive] by (simp add: uncounted_def)
  show "l_ExpiresAt l = l_ExpiresAt r" using arg_cong [OF u, of l_ExpiresAt] by (simp add: uncounted_def)
  show "l_MaxClicks l = l_MaxClicks r" using arg_cong [OF u, of l_MaxClicks] by (simp add: uncounted_def)
  show "l_RedirectType l = l_RedirectType r" using arg_cong [OF u, of l_RedirectType] by (simp add: uncounted_def)
qed

text \<open>The entry \<open>l\<close> under key \<open>k\<close> is the current version of a stored link.\<close>

definition current :: "link list \<Rightarrow> string \<Rightarrow> link \<Rightarrow> bool" where
  "current rs k l \<longleftrightarrow> (\<exists>r\<in>set rs. k = FormatCacheKey (l_Domain r) (l_Slug r) \<and> serves_as l (scan_link r))"

text \<open>
  A slug with colons makes a key that may be read in several ways (\<open>a:b:s\<close> is slug \<open>b:s\<close> of domain \<open>a\<close>,
  and \<open>a:b:s\<close> of the root), so the clicks of such visits leave entries no edit knows of. They stay
  away from the plain keys, those with at most one colon: what is cached under a plain key is
  current. Of every other entry it is known that its slug is what follows the last colon of its key
  and that it has the identifier, domain and slug of a link that was stored.
\<close>

definition plain_key :: "string \<Rightarrow> bool" where
  "plain_key k \<longleftrightarrow> length (filter (\<lambda>c. c = CHR '':'') k) \<le> 1"

definition last_seg :: "string \<Rightarrow> string" where
  "last_seg k = rev (takeWhile (\<lambda>c. c \<noteq> CHR '':'') (rev k))"

definition trace :: "link list \<Rightarrow> string \<Rightarrow> link \<Rightarrow> bool" where
  "trace rs k l \<longleftrightarrow> l_Slug l = last_seg k \<and> (colon_free k \<or> l_Domain l \<noteq> []) \<and>
     (\<forall>r\<in>set rs. l_ID r = l_ID l \<longrightarrow> link_key r = link_key l)"

definition held :: "link list \<Rightarrow> string set \<Rightarrow> string \<Rightarrow> link \<Rightarrow> bool" where
  "held rs U k l \<longleftrightarrow> (plain_key k \<longrightarrow> current rs k l) \<and> trace rs k l \<and> l_ID l \<in> U"

definition slugs_ok :: "link list \<Rightarrow> bool" where
  "slugs_ok rs \<longleftrightarrow> (\<forall>r\<in>set rs. colon_free (l_Slug r))"

definition pending_ok :: "link list \<Rightarrow> pending \<Rightarrow> bool" where
  "pending_ok rs p = (case p of
     Publish l \<Rightarrow> current rs (FormatCacheKey (l_Domain l) (l_Slug l)) l
   | Drop d s \<Rightarrow> True)"

definition click_ok :: "link list \<Rightarrow> string \<times> string \<times> string \<times> string \<Rightarrow> bool" where
  "click_ok rs q = (case q of (i, d, s, v) \<Rightarrow>
     \<forall>r\<in>set rs. l_ID r = i \<longrightarrow> l_Domain r = d \<and> l_Slug r = last_seg s \<and> (colon_free s \<or> d \<noteq> []))"

definition svc_ok :: "string set \<Rightarrow> link_service \<Rightarrow> bool" where
  "svc_ok U v \<longleftrightarrow> (let rs = db_links (ls_db v) in
     links_ok rs \<and> slugs_ok rs \<and> l_ID ` set rs \<subseteq> U \<and> lc_inv (ls_cache v) \<and>
     entries_ok (lc_view (ls_cache v)) (held rs U))"

definition coherent :: "serving \<Rightarrow> bool" where
  "coherent s \<longleftrightarrow> (let rs = db_links (ls_db (sv_svc s)) in svc_ok (sv_used s) (sv_svc s) \<and>
     list_all (pending_ok rs) (sv_readers s) \<and> list_all (click_ok rs) (sv_clicks s) \<and>
     fst ` set (sv_clicks s) \<subseteq> sv_used s)"

lemma svc_okD:
  assumes "svc_ok U v"
  shows "links_ok (db_links (ls_db v))" "slugs_ok (db_links (ls_db v))" "l_ID ` set (db_links (ls_db v)) \<subseteq> U"
    "lc_inv (ls_cache v)" "entries_ok (lc_view (ls_cache v)) (held (db_links (ls_db v)) U)"
  using assms by (simp_all add: svc_ok_def Let_def)

lemma coherentD:
  assumes "coherent s"
  shows "svc_ok (sv_used s) (sv_svc s)" "list_all (pending_ok (db_links (ls_db (sv_svc s)))) (sv_readers s)"
    "list_all (click_ok (db_links (ls_db (sv_svc s)))) (sv_clicks s)" "fst ` set (sv_clicks s) \<subseteq> sv_used s"
  using assms by (simp_all add: coherent_def Let_def)

lemmas coherent_svcD = svc_okD [OF coherentD(1)]

text \<open>Keys.\<close>

lemma filter_none: "colon_free s \<Longrightarrow> filter (\<lambda>c. c = CHR '':'') s = []"
  by (auto simp: colon_free_def filter_empty_conv)

lemma last_seg_free:
  assumes "colon_free s"
  shows "last_seg s = s"
proof -
  have "takeWhile (\<lambda>c. c \<noteq> CHR '':'') (rev s) = rev s"
    using assms by (intro takeWhile_eq_all_conv [THEN iffD2]) (auto simp: colon_free_def)
  then show ?thesis by (simp only: last_seg_def rev_rev_ident)
qed

lemma last_seg_key [simp]: "last_seg (FormatCacheKey d s) = last_seg s"
  by (simp add: last_seg_def FormatCacheKey_def takeWhile_tail)

lemma plain_key_free: "colon_free d \<Longrightarrow> colon_free s \<Longrightarrow> plain_key (FormatCacheKey d s)"
  by (simp add: plain_key_def FormatCacheKey_def filter_none)

lemma plain_key_slug: "plain_key (FormatCacheKey d s) \<Longrightarrow> d \<noteq> [] \<Longrightarrow> colon_free s"
  by (auto simp: plain_key_def FormatCacheKey_def colon_free_def filter_empty_conv split: if_splits)

lemma key_free: "colon_free (FormatCacheKey d s) \<Longrightarrow> colon_free s"
  by (auto simp: FormatCacheKey_def colon_free_def split: if_splits)

lemma key_root: "FormatCacheKey [] s = s"
  by (simp add: FormatCacheKey_def)

section \<open>Every step keeps the cache coherent\<close>

lemma serves_as_refl [simp]: "serves_as l l"
  by (simp add: serves_as_def)

lemma serves_as_trans: "serves_as a b \<Longrightarrow> serves_as b c \<Longrightarrow> serves_as a c"
  by (auto simp: serves_as_def)

lemma current_mono:
  assumes "\<And>r. r \<in> set rs \<Longrightarrow> \<exists>r'\<in>set rs'. link_key r' = link_key r \<and> serves_as (scan_link r) (scan_link r')"
    and "current rs k l"
  shows "current rs' k l"
proof -
  obtain r where r: "r \<in> set rs" "k = FormatCacheKey (l_Domain r) (l_Slug r)" "serves_as l (scan_link r)"
    using assms(2) by (auto simp: current_def)
  obtain r' where "r' \<in> set rs'" "link_key r' = link_key r" "serves_as (scan_link r) (scan_link r')"
    using assms(1) [OF r(1)] by blast
  then show ?thesis using r serves_as_trans [OF r(3)]
    unfolding current_def link_key_def by (intro bexI [of _ r']) auto
qed

lemma currentI: "r \<in> set rs \<Longrightarrow> serves_as l (scan_link r) \<Longrightarrow> current rs (FormatCacheKey (l_Domain l) (l_Slug l)) l"
  using serves_as_fields(2,3) [of l "scan_link r"] by (auto simp: current_def)

text \<open>Under colon-free slugs a key names one row.\<close>

lemma current_key:
  assumes "links_ok rs" and "slugs_ok rs" and "colon_free t" and "r \<in> set rs"
    and "current rs (FormatCacheKey d t) l" and "l_Domain r = d" "l_Slug r = t"
  shows "serves_as l (scan_link r)"
proof -
  obtain r' where r': "r' \<in> set rs" "FormatCacheKey d t = FormatCacheKey (l_Domain r') (l_Slug r')"
    "serves_as l (scan_link r')" using assms(5) by (auto simp: current_def)
  have "colon_free (l_Slug r')" using r'(1) assms(2) by (simp add: slugs_ok_def)
  with r'(2) assms(3) have "d = l_Domain r' \<and> t = l_Slug r'" using FormatCacheKey_inj by blast
  then have "link_key r' = link_key r" using assms(6,7) by (simp add: link_key_def)
  then have "r' = r" using assms(1,4) r'(1) distinct_map_inj [of link_key rs] by (simp add: links_ok_def)
  with r'(3) show ?thesis by simp
qed

lemma click_ok_sub:
  assumes "\<And>r. r \<in> set rs' \<Longrightarrow> \<exists>r0\<in>set rs. l_ID r0 = l_ID r \<and> link_key r0 = link_key r"
    and "click_ok rs q"
  shows "click_ok rs' q"
proof -
  obtain i d t v where q: "q = (i, d, t, v)" by (cases q)
  have "l_Domain r = d \<and> l_Slug r = last_seg t \<and> (colon_free t \<or> d \<noteq> [])" if r: "r \<in> set rs'" "l_ID r = i" for r
  proof -
    obtain r0 where "r0 \<in> set rs" "l_ID r0 = l_ID r" "link_key r0 = link_key r" using assms(1) [OF r(1)] by blast
    with assms(2) r(2) show ?thesis by (simp add: click_ok_def q link_key_def)
  qed
  then show ?thesis unfolding click_ok_def q prod.case by blast
qed

lemma click_ok_row:
  assumes "links_ok rs" and "slugs_ok rs" and "r \<in> set rs"
  shows "click_ok rs (l_ID r, l_Domain r, l_Slug r, v)"
proof -
  have "x = r" if "x \<in> set rs" "l_ID x = l_ID r" for x
    using assms that distinct_map_inj [of l_ID rs x r] by (simp add: links_ok_def)
  moreover have "colon_free (l_Slug r)" using assms(2,3) by (simp add: slugs_ok_def)
  ultimately show ?thesis by (auto simp: click_ok_def last_seg_free)
qed

text \<open>An entry under its own key, and one that outlives a change of the rows.\<close>

lemma held_own:
  assumes "links_ok rs" and "slugs_ok rs" and "l_ID ` set rs \<subseteq> U"
    and "current rs (FormatCacheKey (l_Domain l) (l_Slug l)) l"
  shows "held rs U (FormatCacheKey (l_Domain l) (l_Slug l)) l"
proof -
  obtain r where r: "r \<in> set rs" "FormatCacheKey (l_Domain l) (l_Slug l) = FormatCacheKey (l_Domain r) (l_Slug r)"
    "serves_as l (scan_link r)" using assms(4) by (auto simp: current_def)
  note same = serves_as_fields(1-3) [OF r(3)]
  have free: "colon_free (l_Slug l)" using r(1) same(2) assms(2) by (simp add: slugs_ok_def)
  have "x = r" if "x \<in> set rs" "l_ID x = l_ID r" for x
    using assms(1) r(1) that distinct_map_inj [of l_ID rs x r] by (simp add: links_ok_def)
  then have "\<forall>x\<in>set rs. l_ID x = l_ID l \<longrightarrow> link_key x = link_key l" using same by (auto simp: link_key_def)
  moreover have "colon_free (FormatCacheKey (l_Domain l) (l_Slug l)) \<or> l_Domain l \<noteq> []"
    using free by (auto simp: FormatCacheKey_def)
  moreover have "l_ID l \<in> U" using r(1) same(1) assms(3) by auto
  ultimately show ?thesis using assms(4) free by (simp add: held_def trace_def last_seg_free)
qed

lemma held_after:
  assumes "\<And>r. r \<in> set rs' \<Longrightarrow> (\<exists>r0\<in>set rs. l_ID r0 = l_ID r \<and> link_key r0 = link_key r) \<or> l_ID r \<notin> U"
    and "U \<subseteq> U'" and "plain_key k \<Longrightarrow> current rs k l \<Longrightarrow> current rs' k l" and "held rs U k l"
  shows "held rs' U' k l"
proof -
  have "link_key r = link_key l" if "r \<in> set rs'" "l_ID r = l_ID l" for r
    using assms(1) [OF that(1)] assms(4) that(2) by (auto simp: held_def trace_def)
  with assms(2-4) show ?thesis by (auto simp: held_def trace_def)
qed

lemma slug_valid_colon_free: "ValidateCustomSlug t = None \<Longrightarrow> colon_free t"
  using ValidateCustomSlug_chars [of t]
  by (auto simp: colon_free_def slug_char_def char_class_defs)

text \<open>Rewriting rows in place.\<close>

definition harmless :: "(link \<Rightarrow> link) \<Rightarrow> bool" where
  "harmless f \<longleftrightarrow> (\<forall>r. l_ID (f r) = l_ID r \<and> link_key (f r) = link_key r \<and> serves_as (scan_link r) (scan_link (f r)))"

lemma update_rows_img:
  "r \<in> set (update_rows p f rs) \<Longrightarrow> \<exists>r0\<in>set rs. r = (if p r0 then f r0 else r0)"
  by (auto simp: update_rows_def)

lemma update_rows_img': "r \<in> set rs \<Longrightarrow> (if p r then f r else r) \<in> set (update_rows p f rs)"
  by (auto simp: update_rows_def)

lemma update_rows_ids:
  assumes "harmless f" and "r \<in> set (update_rows p f rs)"
  shows "\<exists>r0\<in>set rs. l_ID r0 = l_ID r \<and> link_key r0 = link_key r"
proof -
  obtain r0 where "r0 \<in> set rs" "r = (if p r0 then f r0 else r0)" using update_rows_img [OF assms(2)] by blast
  with assms(1) show ?thesis by (intro bexI [of _ r0]) (simp_all add: harmless_def)
qed

lemma slugs_ok_update: "slugs_ok rs \<Longrightarrow> (\<And>r. link_key (f r) = link_key r) \<Longrightarrow> slugs_ok (update_rows p f rs)"
  by (auto simp: slugs_ok_def update_rows_def link_key_def)

lemma current_update: "harmless f \<Longrightarrow> current rs k l \<Longrightarrow> current (update_rows p f rs) k l"
proof (rule current_mono)
  fix r assume h: "harmless f" and r: "r \<in> set rs"
  show "\<exists>r'\<in>set (update_rows p f rs). link_key r' = link_key r \<and> serves_as (scan_link r) (scan_link r')"
    using update_rows_img' [OF r, of p f] h
    by (intro bexI [of _ "if p r then f r else r"]) (auto simp: harmless_def)
qed

lemma held_update:
  assumes "harmless f" and "held rs U k l"
  shows "held (update_rows p f rs) U k l"
  using update_rows_ids [OF assms(1)] current_update [OF assms(1)]
  by (intro held_after [OF _ subset_refl _ assms(2)]) blast+

lemma update_ids_same: "harmless f \<Longrightarrow> l_ID ` set (update_rows p f rs) = l_ID ` set rs"
proof -
  assume "harmless f"
  then have "map l_ID (update_rows p f rs) = map l_ID rs" by (intro map_update_rows_inv) (simp add: harmless_def)
  from arg_cong [OF this, of set] show ?thesis by simp
qed

lemma svc_ok_update:
  assumes v: "svc_ok U v" and h: "harmless f" and d: "db_links d = update_rows p f (db_links (ls_db v))"
  shows "svc_ok U (v\<lparr>ls_db := d\<rparr>)"
  using svc_okD [OF v] held_update [OF h] h
  by (auto simp: svc_ok_def Let_def d links_ok_update slugs_ok_update update_ids_same harmless_def intro: entries_ok_mono)

lemma coherent_update:
  assumes "coherent s" and "harmless f" and d: "db_links d = update_rows p f (db_links (ls_db (sv_svc s)))"
  shows "coherent (set_db d s)"
proof -
  let ?rs = "db_links (ls_db (sv_svc s))"
  note c = coherentD [OF assms(1)]
  have "pending_ok (update_rows p f ?rs) q" if "pending_ok ?rs q" for q
    using that current_update [OF assms(2)] by (auto simp: pending_ok_def split: pending.splits)
  moreover have "click_ok (update_rows p f ?rs) q" if "click_ok ?rs q" for q
    using update_rows_ids [OF assms(2)] that by (rule click_ok_sub)
  moreover have "svc_ok (sv_used s) (sv_svc (set_db d s))" using svc_ok_update [OF c(1) assms(2) d] by (simp add: set_db_def)
  ultimately show ?thesis using c by (auto simp: coherent_def Let_def d list_all_iff)
qed

lemma harmless_folder: "harmless (\<lambda>l. l\<lparr>l_FolderID := None\<rparr>)"
  by (simp add: harmless_def link_key_def serves_as_def uncounted_def scan_link_def)

lemma harmless_owner: "harmless (\<lambda>l. l\<lparr>l_CreatedBy := new\<rparr>)"
  by (simp add: harmless_def link_key_def serves_as_def uncounted_def scan_link_def)

lemma harmless_click: "harmless (count_click t)"
  by (simp add: harmless_def link_key_def serves_as_def uncounted_def scan_link_def count_click_def)

lemma update_rows_none: "update_rows (\<lambda>r. False) f rs = rs"
  by (simp add: update_rows_def)

lemma coherent_links_same:
  "coherent s \<Longrightarrow> db_links d = db_links (ls_db (sv_svc s)) \<Longrightarrow> coherent (set_db d s)"
  by (rule coherent_update [where f = "count_click 0" and p = "\<lambda>r. False"])
    (simp_all add: harmless_click update_rows_none)

lemma coherent_folder_delete:
  assumes "coherent s" and "FolderService_Delete flt i who adm (ls_db (sv_svc s)) = (d, ferr)"
  shows "coherent (set_db d s)"
proof (cases ferr)
  case None
  then have "db_links d = update_rows (\<lambda>l. l_FolderID l = Some i) (\<lambda>l. l\<lparr>l_FolderID := None\<rparr>)
      (db_links (ls_db (sv_svc s)))"
    using assms(2) by (auto simp: FolderService_Delete_def release_links_def split: if_splits option.splits)
  with assms(1) show ?thesis by (intro coherent_update [OF _ harmless_folder])
next
  case (Some e)
  with assms folders.del_failed [of flt i who adm "ls_db (sv_svc s)" d e] show ?thesis
    by (intro coherent_links_same) auto
qed

text \<open>Reading and writing the cache.\<close>

lemma coherent_cache:
  assumes "coherent s" and "lc_inv c" and "entries_ok (lc_view c) (held (db_links (ls_db (sv_svc s))) (sv_used s))"
  shows "coherent (set_cache c s)"
  using coherentD [OF assms(1)] assms(2,3) by (simp add: coherent_def svc_ok_def Let_def)

lemma coherent_get:
  assumes "coherent s" and "LinkCache_Get now dm slug (ls_cache (sv_svc s)) = (c, res)"
  shows "coherent (set_cache c s)"
proof (rule coherent_cache [OF assms(1)])
  note ok = coherent_svcD(4,5) [OF assms(1)]
  from lc.get_inv [OF ok(1), of now dm slug] lc.get_ok [OF ok, of now dm slug] assms(2)
  show "lc_inv c" "entries_ok (lc_view c) (held (db_links (ls_db (sv_svc s))) (sv_used s))" by simp_all
qed

lemma coherent_readers: "coherent s \<Longrightarrow> list_all (pending_ok (db_links (ls_db (sv_svc s)))) ps \<Longrightarrow>
  coherent (s\<lparr>sv_readers := ps\<rparr>)"
  by (simp add: coherent_def Let_def)

lemma coherent_click_more:
  "coherent s \<Longrightarrow> click_ok (db_links (ls_db (sv_svc s))) (i, d, t, v) \<Longrightarrow> i \<in> sv_used s \<Longrightarrow>
   coherent (s\<lparr>sv_clicks := (i, d, t, v) # sv_clicks s\<rparr>)"
  by (simp add: coherent_def Let_def)

lemma coherent_click_row:
  assumes "coherent s" and "r \<in> set (db_links (ls_db (sv_svc s)))"
  shows "coherent (s\<lparr>sv_clicks := (l_ID r, l_Domain r, l_Slug r, v) # sv_clicks s\<rparr>)"
  using coherent_svcD(1-3) [OF assms(1)] assms(2)
  by (intro coherent_click_more [OF assms(1)] click_ok_row) auto

text \<open>What a lookup under a colon-free slug finds.\<close>

lemma coherent_hit:
  assumes "coherent s" and "colon_free dm" and "colon_free slug"
    and "LinkCache_Get now dm slug (ls_cache (sv_svc s)) = (c, Some l)"
  shows "\<exists>r\<in>set (db_links (ls_db (sv_svc s))). serves_as l (scan_link r) \<and> l_Slug r = slug \<and>
    (l_Domain r = dm \<or> l_Domain r = [])"
proof -
  let ?rs = "db_links (ls_db (sv_svc s))"
  note ok = coherent_svcD [OF assms(1)]
  have "held ?rs (sv_used s) (FormatCacheKey dm slug) l \<or> held ?rs (sv_used s) (FormatCacheKey [] slug) l"
    using lc.get_hit_ok [OF ok(4,5), of now dm slug l] assms(4) by (auto simp: key_root)
  moreover have "plain_key (FormatCacheKey dm slug)" "plain_key (FormatCacheKey [] slug)"
    using assms(2,3) by (auto intro!: plain_key_free simp: colon_free_def)
  ultimately obtain e r where e: "e = dm \<or> e = []" "r \<in> set ?rs" "serves_as l (scan_link r)"
    "FormatCacheKey e slug = FormatCacheKey (l_Domain r) (l_Slug r)"
    by (auto simp: held_def current_def)
  have "colon_free (l_Slug r)" using e(2) ok(2) by (simp add: slugs_ok_def)
  from FormatCacheKey_inj [OF assms(3) this e(4)] e show ?thesis by blast
qed

text \<open>A click scheduled on any hit is one for the link whose identifier it carries.\<close>

lemma hit_click_ok:
  assumes "coherent s" and "LinkCache_Get now dm slug (ls_cache (sv_svc s)) = (c, Some l)"
  shows "click_ok (db_links (ls_db (sv_svc s))) (l_ID l, l_Domain l, slug, v) \<and> l_ID l \<in> sv_used s"
proof -
  let ?rs = "db_links (ls_db (sv_svc s))"
  note ok = coherent_svcD(4,5) [OF assms(1)]
  obtain k where k: "held ?rs (sv_used s) k l" "k = FormatCacheKey dm slug \<or> k = slug"
    using lc.get_hit_ok [OF ok, of now dm slug l] assms(2) by auto
  then have "last_seg k = last_seg slug" "colon_free k \<Longrightarrow> colon_free slug" using key_free by auto
  with k(1) show ?thesis by (auto simp: held_def trace_def click_ok_def link_key_def)
qed

text \<open>Where an entry found after an operation of the cache comes from.\<close>

lemma map_le_Some: "m \<subseteq>\<^sub>m m' \<Longrightarrow> m k = Some v \<Longrightarrow> m' k = Some v"
  by (metis map_le_def domI)

lemma put_view_cases: "lc_inv c \<Longrightarrow> lc_view (LinkCache_Set now d k (Some l) c) k' = Some (x, u) \<Longrightarrow>
  x = l \<or> (k' \<noteq> FormatCacheKey d k \<and> lc_view c k' = Some (x, u))"
  by (drule map_le_Some [OF lc.put_view]) (auto split: if_splits)

lemma del_view_cases: "lc_inv c \<Longrightarrow> lc_view (LinkCache_Delete d k c) k' = Some (x, u) \<Longrightarrow>
  k' \<noteq> FormatCacheKey d k \<and> lc_view c k' = Some (x, u)"
  by (auto simp: lc.del_view split: if_splits)

lemma get_view_cases: "lc_inv c \<Longrightarrow> LinkCache_Get now d k c = (c', res) \<Longrightarrow> lc_view c' k' = Some (x, u) \<Longrightarrow>
  lc_view c k' = Some (x, u)"
  using map_le_Some [OF lc.get_view [of c now d k], of k' "(x, u)"] by simp

section \<open>The steps that hold the lock\<close>

definition link_identities :: "link list \<Rightarrow> (string \<times> string \<times> string) set" where
  "link_identities rs = (\<lambda>r. (l_ID r, link_key r)) ` set rs"

text \<open>A locked step may drop identities and add one under a fresh id.\<close>

lemma coherent_locked:
  assumes c: "coherent s" and r: "sv_readers s = []" and t: "svc_ok U t"
    and ids: "\<And>r. r \<in> set (db_links (ls_db t)) \<Longrightarrow>
      (\<exists>r0\<in>set (db_links (ls_db (sv_svc s))). l_ID r0 = l_ID r \<and> link_key r0 = link_key r) \<or>
      l_ID r \<notin> sv_used s"
    and u: "sv_used s \<subseteq> U" and cl: "set cs \<subseteq> set (sv_clicks s)"
  shows "coherent (s\<lparr>sv_svc := t, sv_used := U, sv_clicks := cs\<rparr>)"
proof -
  let ?rs = "db_links (ls_db (sv_svc s))"
  note s = coherentD(3,4) [OF c]
  have "click_ok (db_links (ls_db t)) q" if q: "q \<in> set cs" for q
  proof -
    obtain i d k v where q': "q = (i, d, k, v)" by (cases q)
    have "q \<in> set (sv_clicks s)" using q cl by blast
    then have ok: "click_ok ?rs q" "i \<in> sv_used s" using s q' by (auto simp: list_all_iff)
    have "l_Domain r = d \<and> l_Slug r = last_seg k \<and> (colon_free k \<or> d \<noteq> [])"
      if "r \<in> set (db_links (ls_db t))" "l_ID r = i" for r
      using ids [OF that(1)] ok that(2) by (auto simp: click_ok_def q' link_key_def)
    then show ?thesis unfolding click_ok_def q' prod.case by blast
  qed
  moreover have "fst ` set cs \<subseteq> U"
    using image_mono [OF cl, of fst] s(2) u by (meson subset_trans)
  ultimately show ?thesis using t r by (auto simp: coherent_def Let_def list_all_iff)
qed

lemma svc_ok_create:
  assumes v: "svc_ok U v" and h: "hash_ok env" and new: "le_uuid env \<notin> U"
    and cr: "LinkService_Create cfg env req who v = (t, res, evs)"
  shows "svc_ok (insert (le_uuid env) U) t \<and>
    (\<forall>r\<in>set (db_links (ls_db t)). r \<in> set (db_links (ls_db v)) \<or> l_ID r = le_uuid env)"
proof (cases res)
  case (Inl e)
  then have "t = v" using Create_failure_no_effect [of cfg env req who v e] cr by simp
  with v show ?thesis by (auto simp: svc_ok_def Let_def held_def intro: entries_ok_mono)
next
  case (Inr p)
  obtain l stripped where p: "p = (l, stripped)" by (cases p)
  note c = CreateD [OF cr [unfolded Inr p]]
  let ?rs = "db_links (ls_db v)" and ?U = "insert (le_uuid env) U"
  note ok = svc_okD [OF v]
  have "prepare_link cfg env req who (ls_db v) = Inr (l, stripped)" using c by simp
  then obtain slug target pin where l: "choose_slug env (to_lower (trim_space (cr_Domain req))) (cr_CustomSlug req) (ls_db v) = Inr slug"
    "choose_pin env (cr_PIN req) = Inr pin" "l = new_link cfg env req who target slug pin" by (rule prepare_linkD)
  have rs: "db_links (ls_db t) = ?rs @ [l]" "links_ok (?rs @ [l])" using c by auto
  have free: "slugs_ok (?rs @ [l])"
    using choose_slug_valid [OF l(1)] slug_valid_colon_free l(3) ok(2) by (simp add: slugs_ok_def)
  have ids: "l_ID ` set (?rs @ [l]) \<subseteq> ?U" using ok(3) l(3) by auto
  have "scan_link l = l"
    using l(2) h by (auto simp: scan_link_def l(3) choose_pin_def HashPIN_Inr hash_ok_def split: if_splits sum.splits)
  then have "current (?rs @ [l]) (FormatCacheKey (l_Domain l) (l_Slug l)) l" by (intro currentI [of l]) simp_all
  from held_own [OF rs(2) free ids this] have own: "held (?rs @ [l]) ?U (FormatCacheKey (l_Domain l) (l_Slug l)) l" .
  have "held (?rs @ [l]) ?U k y" if "held ?rs U k y" for k y
    using that new l(3) by (intro held_after [OF _ _ _ that]) (auto simp: current_def)
  then have "entries_ok (lc_view (ls_cache v)) (held (?rs @ [l]) ?U)" using ok(5) by (auto intro: entries_ok_mono)
  then show ?thesis using c rs free ids own ok(4) l(3)
    by (auto simp: svc_ok_def Let_def intro!: lc.put_ok lc.put_inv)
qed

lemma svc_ok_update_op:
  assumes v: "svc_ok U v" and h: "hash_ok env" and up: "LinkService_Update cfg env i req who adm v = (t, res)"
  shows "svc_ok U t \<and> (\<forall>r\<in>set (db_links (ls_db t)). \<exists>r0\<in>set (db_links (ls_db v)). l_ID r0 = l_ID r \<and> link_key r0 = link_key r)"
proof (cases res)
  case (Inl e)
  then have "t = v" using Update_error [of cfg env i req who adm v e] up by simp
  with v show ?thesis by auto
next
  case (Inr l)
  let ?rs = "db_links (ls_db v)"
  note ok = svc_okD [OF v]
  obtain x where x: "x \<in> set ?rs" "l_ID x = i" "same_identity (scan_link x) l" "pin_flag l"
    "t = v\<lparr>ls_db := (ls_db v)\<lparr>db_links := update_rows (\<lambda>r. l_ID r = i) (write_columns l) ?rs\<rparr>,
           ls_cache := LinkCache_Set (le_now env) (l_Domain l) (l_Slug l) (Some l) (ls_cache v)\<rparr>"
    using UpdateD [OF ok(1), of cfg env i req who adm t l] up Inr h by (auto simp: hash_ok_def)
  let ?rs' = "update_rows (\<lambda>r. l_ID r = i) (write_columns l) ?rs"
  have key: "l_Domain l = l_Domain x" "l_Slug l = l_Slug x" using x(3) by (simp_all add: same_identity_def link_key_def)
  have x': "write_columns l x \<in> set ?rs'" using update_rows_img' [OF x(1), of "\<lambda>r. l_ID r = i"] x(2) by metis
  have "scan_link (write_columns l x) = l" using x(3,4) by (rule scan_write_columns)
  then have cur: "current ?rs' (FormatCacheKey (l_Domain l) (l_Slug l)) l" by (intro currentI [OF x']) simp
  have keep: "current ?rs' k l'" if k: "k \<noteq> FormatCacheKey (l_Domain l) (l_Slug l)" and c: "current ?rs k l'" for k l'
  proof -
    obtain r where r: "r \<in> set ?rs" "k = FormatCacheKey (l_Domain r) (l_Slug r)" "serves_as l' (scan_link r)"
      using c by (auto simp: current_def)
    have "r \<noteq> x" using k r(2) key by auto
    then have "l_ID r \<noteq> i" using ok(1) r(1) x(1,2) distinct_map_inj [of l_ID ?rs r x] by (auto simp: links_ok_def)
    then have "r \<in> set ?rs'" using update_rows_img' [OF r(1), of "\<lambda>r. l_ID r = i" "write_columns l"] by simp
    with r show ?thesis by (auto simp: current_def)
  qed
  have ids: "\<exists>r0\<in>set ?rs. l_ID r0 = l_ID r \<and> link_key r0 = link_key r" if r: "r \<in> set ?rs'" for r
    using update_rows_img [OF r] by auto
  then have sub: "l_ID ` set ?rs' \<subseteq> U" using ok(3) by fastforce
  have rs: "links_ok ?rs'" "slugs_ok ?rs'" using ok(1,2) by (simp_all add: links_ok_update slugs_ok_update)
  have "held ?rs' U k y" if "k \<noteq> FormatCacheKey (l_Domain l) (l_Slug l)" "held ?rs U k y" for k y
    using ids keep [OF that(1)] by (intro held_after [OF _ subset_refl _ that(2)]) blast+
  then have "entries_ok (lc_view (LinkCache_Set (le_now env) (l_Domain l) (l_Slug l) (Some l) (ls_cache v))) (held ?rs' U)"
    using held_own [OF rs sub cur] by (rule lc.put_ok_except [OF ok(4,5)])
  then have "svc_ok U t"
    using rs sub lc.put_inv [OF ok(4)] by (simp add: svc_ok_def Let_def x(5))
  then show ?thesis using ids by (simp add: x(5))
qed

lemma svc_ok_delete:
  assumes v: "svc_ok U v" and de: "LinkService_Delete cfg env i who adm v = (t, err, evs)"
  shows "svc_ok U t \<and> set (db_links (ls_db t)) \<subseteq> set (db_links (ls_db v))"
proof (cases err)
  case (Some e)
  then have "t = v" using de by (auto simp: LinkService_Delete_def split: sum.splits if_splits)
  with v show ?thesis by simp
next
  case None
  let ?rs = "db_links (ls_db v)" and ?rs' = "delete_rows (\<lambda>r. l_ID r = i) (db_links (ls_db v))"
  note ok = svc_okD [OF v]
  obtain l where l: "GetByID env i (ls_db v) = Inr l"
    "t = v\<lparr>ls_db := (ls_db v)\<lparr>db_links := ?rs'\<rparr>, ls_cache := LinkCache_Delete (l_Domain l) (l_Slug l) (ls_cache v)\<rparr>"
    using de None by (auto simp: LinkService_Delete_def split: sum.splits if_splits)
  then obtain x where x: "x \<in> set ?rs" "l_ID x = i" "l = scan_link x" using ok(1) by (auto simp: GetByID_Inr)
  have cur: "current ?rs' k l'" if c: "current ?rs k l'" and k: "k \<noteq> FormatCacheKey (l_Domain l) (l_Slug l)" for k l'
  proof -
    obtain r where r: "r \<in> set ?rs" "k = FormatCacheKey (l_Domain r) (l_Slug r)" "serves_as l' (scan_link r)"
      using c by (auto simp: current_def)
    have "r \<noteq> x" using k r(2) x(3) by auto
    then have "l_ID r \<noteq> i" using ok(1) r(1) x(1,2) distinct_map_inj [of l_ID ?rs r x] by (auto simp: links_ok_def)
    with r show ?thesis by (auto simp: current_def set_delete_rows)
  qed
  have "held ?rs' U k y" if "held ?rs U k y" "k \<noteq> FormatCacheKey (l_Domain l) (l_Slug l)" for k y
    using cur [OF _ that(2)] by (intro held_after [OF _ subset_refl _ that(1)]) (auto simp: set_delete_rows)
  with lc.del_ok [OF ok(4,5), of "l_Domain l" "l_Slug l"]
  have "entries_ok (lc_view (LinkCache_Delete (l_Domain l) (l_Slug l) (ls_cache v))) (held ?rs' U)"
    by (auto intro: entries_ok_mono)
  then show ?thesis using ok(1-3) lc.del_inv [OF ok(4)]
    by (auto simp: svc_ok_def Let_def l(2) links_ok_delete slugs_ok_def set_delete_rows)
qed

lemma bump_variant_uncounted:
  "map (\<lambda>v. v\<lparr>av_ClickCount := 0\<rparr>) (bump_variant n vs) = map (\<lambda>v. v\<lparr>av_ClickCount := 0\<rparr>) vs"
  by (induction vs) auto

lemma harmless_bump: "harmless (\<lambda>r. r\<lparr>l_ABVariants := bump_variant n (l_ABVariants r)\<rparr>)"
  by (simp add: harmless_def link_key_def serves_as_def uncounted_def scan_link_def bump_variant_uncounted)

lemma harmless_comp: "harmless f \<Longrightarrow> harmless g \<Longrightarrow> harmless (\<lambda>r. g (f r))"
  unfolding harmless_def using serves_as_trans by metis

lemma harmless_id: "harmless (\<lambda>r. r)"
  by (simp add: harmless_def)

text \<open>A click is a harmless rewriting of the row, which keeps its owner and folder, followed by a
  write to the cache.\<close>

definition owner_kept :: "(link \<Rightarrow> link) \<Rightarrow> bool" where
  "owner_kept f \<longleftrightarrow> (\<forall>r. l_CreatedBy (f r) = l_CreatedBy r \<and> l_FolderID (f r) = l_FolderID r \<and>
     l_ClickCount r \<le> l_ClickCount (f r))"

definition clicked :: "link_env \<Rightarrow> link \<Rightarrow> link" where
  "clicked env = (if le_fault env Q_click then (\<lambda>r. r) else count_click (unix (le_now env)))"

definition varied :: "bool \<Rightarrow> string \<Rightarrow> link_env \<Rightarrow> link \<Rightarrow> link" where
  "varied hit n env r = (if \<not> hit \<or> le_fault env Q_variants then clicked env r
     else (clicked env r)\<lparr>l_ABVariants := bump_variant n (l_ABVariants (clicked env r))\<rparr>)"

lemma clicked_fields [simp]:
  "l_ClickCount (clicked env r) = l_ClickCount r + (if le_fault env Q_click then 0 else 1)"
  "l_ClickCount (varied hit n env r) = l_ClickCount r + (if le_fault env Q_click then 0 else 1)"
  by (simp_all add: clicked_def varied_def count_click_def)

lemma clicked_harmless: "harmless (clicked env)" "harmless (varied hit n env)" "owner_kept (varied hit n env)"
proof -
  show c: "harmless (clicked env)" by (simp add: clicked_def harmless_click harmless_id)
  show "harmless (varied hit n env)" using c harmless_comp [OF c harmless_bump [of n]]
    by (cases "\<not> hit \<or> le_fault env Q_variants") (simp_all add: varied_def [abs_def])
  show "owner_kept (varied hit n env)" by (simp add: owner_kept_def) (simp add: varied_def clicked_def count_click_def)
qed

lemma counted_rows:
  "(if le_fault env Q_click then d else d\<lparr>db_links := update_rows p (count_click (unix (le_now env))) (db_links d)\<rparr>) =
   d\<lparr>db_links := update_rows p (clicked env) (db_links d)\<rparr>"
  by (simp add: clicked_def update_rows_def)

text \<open>The row that is read back after the count: it is missing only if there is none, or the read failed.\<close>

lemma clicked_missing:
  assumes ok: "links_ok (db_links d)"
    and "GetByID env i (d\<lparr>db_links := update_rows (\<lambda>r. l_ID r = i) (clicked env) (db_links d)\<rparr>) = Inl e"
  shows "le_fault env Q_by_id \<or> i \<notin> l_ID ` set (db_links d)"
proof (rule ccontr)
  let ?d1 = "d\<lparr>db_links := update_rows (\<lambda>r. l_ID r = i) (clicked env) (db_links d)\<rparr>"
  have ok1: "links_ok (db_links ?d1)" using ok clicked_harmless(1) by (simp add: links_ok_update harmless_def)
  assume "\<not> ?thesis"
  then obtain x where x: "x \<in> set (db_links d)" "l_ID x = i" "\<not> le_fault env Q_by_id" by auto
  then have "clicked env x \<in> set (db_links ?d1)"
    using update_rows_img' [OF x(1), of "\<lambda>r. l_ID r = i" "clicked env"] by simp
  then have "GetByID env i ?d1 = Inr (scan_link (clicked env x))"
    using x(2,3) clicked_harmless(1) [of env] ok1 GetByID_Inr by (auto simp: harmless_def)
  with assms(2) show False by simp
qed

lemma clicked_found:
  assumes ok: "links_ok (db_links d)"
    and "GetByID env i (d\<lparr>db_links := update_rows (\<lambda>r. l_ID r = i) (clicked env) (db_links d)\<rparr>) = Inr l"
  obtains x where "x \<in> set (db_links d)" "l_ID x = i" "l = scan_link (clicked env x)"
    "\<And>r. r \<in> set (db_links d) \<Longrightarrow> l_ID r = i \<Longrightarrow> r = x"
proof -
  let ?rs1 = "update_rows (\<lambda>r. l_ID r = i) (clicked env) (db_links d)"
  have "links_ok ?rs1" using ok clicked_harmless(1) by (simp add: links_ok_update harmless_def)
  then obtain y where y: "y \<in> set ?rs1" "l_ID y = i" "l = scan_link y"
    using GetByID_Inr [of "d\<lparr>db_links := ?rs1\<rparr>" env i l] assms(2) by auto
  from update_rows_img [OF y(1)] obtain x where x: "x \<in> set (db_links d)" "y = (if l_ID x = i then clicked env x else x)" by blast
  have "l_ID (clicked env x) = l_ID x" using clicked_harmless(1) [of env] by (simp add: harmless_def)
  then have xi: "l_ID x = i" using x(2) y(2) by (simp split: if_splits)
  have only: "r = x" if "r \<in> set (db_links d)" "l_ID r = i" for r
    using ok that x(1) xi distinct_map_inj [of l_ID "db_links d" r x] by (simp add: links_ok_def)
  have "l = scan_link (clicked env x)" using y(3) x(2) xi by simp
  from that [OF x(1) xi this] only show thesis by blast
qed

text \<open>Then the count of the variant, in the row and in what is cached.\<close>

lemma varied_rows:
  assumes "\<And>r. r \<in> set rs \<Longrightarrow> l_ID r = i \<Longrightarrow> r = x" and "l = scan_link (clicked env x)"
  shows "update_rows (\<lambda>r. l_ID r = i) (\<lambda>r. r\<lparr>l_ABVariants := bump_variant n (l_ABVariants l)\<rparr>)
      (update_rows (\<lambda>r. l_ID r = i) (clicked env) rs) =
    update_rows (\<lambda>r. l_ID r = i) (\<lambda>r. (clicked env r)\<lparr>l_ABVariants := bump_variant n (l_ABVariants (clicked env r))\<rparr>) rs"
  using assms(1) clicked_harmless(1) [of env]
  by (auto simp: update_rows_def harmless_def assms(2) scan_link_def)

lemma varied_serves:
  assumes "l = scan_link (clicked env x)" and "u = (if hit then l\<lparr>l_ABVariants := bump_variant n (l_ABVariants l)\<rparr> else l)"
  shows "serves_as u (scan_link (varied hit n env x))" "l_ClickCount u = l_ClickCount (varied hit n env x)"
proof -
  have "serves_as u (scan_link (clicked env x))"
    by (simp add: assms serves_as_def uncounted_def bump_variant_uncounted)
  moreover have "serves_as (scan_link (clicked env x)) (scan_link (varied hit n env x))"
    using harmless_bump [of n] by (auto simp: varied_def harmless_def)
  ultimately show "serves_as u (scan_link (varied hit n env x))" by (rule serves_as_trans)
  show "l_ClickCount u = l_ClickCount (varied hit n env x)" by (simp add: assms)
qed

lemma RecordClick_shape:
  assumes ok: "links_ok (db_links (ls_db v))" and rc: "RecordClick cfg env i dm slug n v = (t, evs)"
  shows "(\<exists>f. harmless f \<and> owner_kept f \<and>
    (\<forall>r. l_ClickCount (f r) = l_ClickCount r + (if le_fault env Q_click then 0 else 1)) \<and>
    ls_db t = (ls_db v)\<lparr>db_links := update_rows (\<lambda>r. l_ID r = i) f (db_links (ls_db v))\<rparr> \<and>
    ((ls_cache t = ls_cache v \<and> (le_fault env Q_by_id \<or> i \<notin> l_ID ` set (db_links (ls_db v)))) \<or>
     ls_cache t = LinkCache_Delete dm slug (ls_cache v) \<or>
     (\<exists>x\<in>set (db_links (ls_db v)). \<exists>u. l_ID x = i \<and> serves_as u (scan_link (f x)) \<and>
        l_ClickCount u = l_ClickCount (f x) \<and> ls_cache t = LinkCache_Set (le_now env) dm slug (Some u) (ls_cache v))))"
proof (cases "GetByID env i ((ls_db v)\<lparr>db_links := update_rows (\<lambda>r. l_ID r = i) (clicked env) (db_links (ls_db v))\<rparr>)")
  case (Inl e)
  then have "t = v\<lparr>ls_db := (ls_db v)\<lparr>db_links := update_rows (\<lambda>r. l_ID r = i) (clicked env) (db_links (ls_db v))\<rparr>\<rparr>"
    using rc unfolding RecordClick_def Let_def counted_rows by simp
  moreover have "varied False n env = clicked env" by (simp add: varied_def [abs_def])
  ultimately show ?thesis using clicked_missing [OF ok Inl] clicked_harmless(2,3) [of False n env]
    by (intro exI [of _ "clicked env"]) auto
next
  case (Inr l)
  obtain x where x: "x \<in> set (db_links (ls_db v))" "l_ID x = i" "l = scan_link (clicked env x)"
    "\<And>r. r \<in> set (db_links (ls_db v)) \<Longrightarrow> l_ID r = i \<Longrightarrow> r = x"
    using clicked_found [OF ok Inr] by blast
  define hit where "hit \<longleftrightarrow> n \<noteq> [] \<and> l_ABVariants l \<noteq> []"
  define u where "u = (if hit then l\<lparr>l_ABVariants := bump_variant n (l_ABVariants l)\<rparr> else l)"
  have t: "ls_db t = (ls_db v)\<lparr>db_links := update_rows (\<lambda>r. l_ID r = i) (varied hit n env) (db_links (ls_db v))\<rparr>"
    "ls_cache t = (if IsExpired (le_now env) u then LinkCache_Delete dm slug (ls_cache v)
       else LinkCache_Set (le_now env) dm slug (Some u) (ls_cache v))"
    using rc Inr varied_rows [OF x(4,3), where n = n] unfolding RecordClick_def Let_def counted_rows
    by (auto simp: varied_def [abs_def] u_def hit_def split: if_splits)
  have "ls_cache t = LinkCache_Delete dm slug (ls_cache v) \<or>
    (\<exists>x\<in>set (db_links (ls_db v)). \<exists>u. l_ID x = i \<and> serves_as u (scan_link (varied hit n env x)) \<and>
       l_ClickCount u = l_ClickCount (varied hit n env x) \<and>
       ls_cache t = LinkCache_Set (le_now env) dm slug (Some u) (ls_cache v))"
  proof (cases "IsExpired (le_now env) u")
    case False
    then show ?thesis using x(1,2) varied_serves [OF x(3) u_def] t(2)
      by (intro disjI2 bexI [of _ x] exI [of _ u]) simp_all
  qed (simp add: t(2))
  then show ?thesis using t(1) clicked_harmless(2,3) [of hit n env] clicked_fields(2) [of hit n env] by blast
qed

text \<open>What a counted click caches is current under a plain key, and traceable under any.\<close>

lemma held_clicked:
  assumes ok: "links_ok rs" "slugs_ok rs" "l_ID ` set rs \<subseteq> U" and q: "click_ok rs (i, dm, slug, n)"
    and y: "y \<in> set rs" "l_ID y = i" "serves_as u (scan_link y)"
  shows "held rs U (FormatCacheKey dm slug) u"
proof -
  note u = serves_as_fields(1-3) [OF y(3)]
  have own: "held rs U (FormatCacheKey (l_Domain u) (l_Slug u)) u" using currentI [OF y(1,3)] by (rule held_own [OF ok])
  have d: "l_Domain u = dm" "l_Slug u = last_seg slug" "colon_free slug \<or> dm \<noteq> []"
    using q y(1,2) u by (auto simp: click_ok_def)
  have "FormatCacheKey dm slug = FormatCacheKey (l_Domain u) (l_Slug u)" if "plain_key (FormatCacheKey dm slug)"
    using plain_key_slug [OF that] d last_seg_free by metis
  moreover have "colon_free (FormatCacheKey dm slug) \<or> l_Domain u \<noteq> []" using d by (auto simp: FormatCacheKey_def)
  ultimately show ?thesis using own d(2) by (auto simp: held_def trace_def)
qed

lemma svc_ok_click:
  assumes v: "svc_ok U v" and q: "click_ok (db_links (ls_db v)) (i, dm, slug, n)"
    and rc: "RecordClick cfg env i dm slug n v = (t, evs)"
  shows "svc_ok U t \<and> (\<forall>r\<in>set (db_links (ls_db t)). \<exists>r0\<in>set (db_links (ls_db v)). l_ID r0 = l_ID r \<and> link_key r0 = link_key r)"
proof -
  let ?rs = "db_links (ls_db v)" and ?rs' = "db_links (ls_db t)"
  note ok = svc_okD [OF v]
  obtain f where f0: "harmless f" "ls_db t = (ls_db v)\<lparr>db_links := update_rows (\<lambda>r. l_ID r = i) f ?rs\<rparr>"
    "(ls_cache t = ls_cache v \<and> (le_fault env Q_by_id \<or> i \<notin> l_ID ` set ?rs)) \<or>
     ls_cache t = LinkCache_Delete dm slug (ls_cache v) \<or>
     (\<exists>x\<in>set ?rs. \<exists>u. l_ID x = i \<and> serves_as u (scan_link (f x)) \<and> l_ClickCount u = l_ClickCount (f x) \<and>
        ls_cache t = LinkCache_Set (le_now env) dm slug (Some u) (ls_cache v))"
    using RecordClick_shape [OF ok(1) rc] by blast
  then have f: "harmless f" "?rs' = update_rows (\<lambda>r. l_ID r = i) f ?rs" by simp_all
  have rs: "links_ok ?rs'" "slugs_ok ?rs'" "l_ID ` set ?rs' \<subseteq> U"
    using ok(1-3) f(1) by (simp_all add: f(2) links_ok_update slugs_ok_update update_ids_same harmless_def)
  have e: "entries_ok (lc_view (ls_cache v)) (held ?rs' U)"
    using ok(5) held_update [OF f(1)] by (auto simp: f(2) intro: entries_ok_mono)
  from f0(3) have "lc_inv (ls_cache t) \<and> entries_ok (lc_view (ls_cache t)) (held ?rs' U)"
  proof (elim disjE bexE exE conjE)
    fix x u assume x: "x \<in> set ?rs" "l_ID x = i" "serves_as u (scan_link (f x))"
      and t: "ls_cache t = LinkCache_Set (le_now env) dm slug (Some u) (ls_cache v)"
    have "f x \<in> set ?rs'" using update_rows_img' [OF x(1), of "\<lambda>r. l_ID r = i" f] x(2) by (simp add: f(2))
    moreover have "click_ok ?rs' (i, dm, slug, n)"
      using q update_rows_ids [OF f(1)] by (intro click_ok_sub [OF _ q]) (simp add: f(2))
    ultimately have "held ?rs' U (FormatCacheKey dm slug) u"
      using f(1) x(2) by (intro held_clicked [OF rs _ _ _ x(3)]) (auto simp: harmless_def)
    then show ?thesis using ok(4) e lc.put_inv lc.put_ok by (simp add: t)
  next
    assume t: "ls_cache t = LinkCache_Delete dm slug (ls_cache v)"
    show ?thesis using lc.del_inv [OF ok(4)] lc.del_ok [OF ok(4) e, of dm slug]
      by (auto simp: t intro: entries_ok_mono)
  qed (use ok(4) e in simp_all)
  then show ?thesis using rs update_rows_ids [OF f(1)] by (simp add: svc_ok_def Let_def f(2))
qed

section \<open>The invariant\<close>

text \<open>A row that was read is published at its own key.\<close>

lemma coherent_publishing:
  assumes "coherent s" and "r \<in> set (db_links (ls_db (sv_svc s)))" and "l = scan_link r"
  shows "coherent (s\<lparr>sv_readers := Publish l # sv_readers s\<rparr>)"
  using coherentD(2) [OF assms(1)] currentI [OF assms(2), of l] assms(3)
  by (intro coherent_readers [OF assms(1)]) (simp add: pending_ok_def)

lemma readers_after: "list_all P ps \<Longrightarrow> list_all P (remove1 p ps)"
  using set_remove1_subset [of p ps] by (auto simp: list_all_iff)

lemma serve_coherent: "serve cfg s t \<Longrightarrow> coherent s \<Longrightarrow> coherent t"
proof (induction rule: serve.induct)
  case (create s env req who t res evs)
  note t = svc_ok_create [OF coherentD(1) [OF create(5)] create(2-4)]
  have "coherent (s\<lparr>sv_svc := t, sv_used := insert (le_uuid env) (sv_used s), sv_clicks := sv_clicks s\<rparr>)"
    using create(1,3,5) t by (intro coherent_locked) auto
  then show ?case by simp
next
  case (update s env i ureq who adm t ures)
  from svc_ok_update_op [OF coherentD(1) [OF update(4)] update(2,3)] update show ?case
    using coherent_locked [of s "sv_used s" t "sv_clicks s"] by auto
next
  case (delete s env i who adm t err evs)
  from svc_ok_delete [OF coherentD(1) [OF delete(3)] delete(2)] delete show ?case
    using coherent_locked [of s "sv_used s" t "sv_clicks s"] by auto
next
  case (click s i dm slug v env t evs)
  have "click_ok (db_links (ls_db (sv_svc s))) (i, dm, slug, v)"
    using coherentD(3) [OF click(4)] click(2) by (auto simp: list_all_iff)
  from svc_ok_click [OF coherentD(1) [OF click(4)] this click(3)] click show ?case
    using coherent_locked [of s "sv_used s" t "remove1 (i, dm, slug, v) (sv_clicks s)"]
    by (auto simp: set_remove1_subset)
next
  case (hit now dm slug s c l)
  then show ?case by (intro coherent_get)
next
  case (hit_visit dm now slug s c l v)
  from coherent_get [OF hit_visit(5,2)] hit_click_ok [OF hit_visit(5,2), of v] show ?case
    using coherent_click_more [of "set_cache c s" "l_ID l" "l_Domain l" slug v] by simp
next
  case (hit_expired now dm slug s c l)
  have "coherent (set_cache c s)" using hit_expired by (intro coherent_get)
  from coherent_readers [OF this, of "Drop dm slug # sv_readers s"] coherentD(2) [OF hit_expired(3)] show ?case
    by (simp add: pending_ok_def)
next
  case (miss env dm slug s c l)
  from lookup_link_in [OF coherent_svcD(1) [OF miss(4)] miss(2)] obtain r where
    r: "r \<in> set (db_links (ls_db (sv_svc s)))" "l = scan_link r" by blast
  from coherent_publishing [OF coherent_get [OF miss(4,1)], of r l] r show ?case by simp
next
  case (miss_visit env dm slug s c l v)
  from lookup_link_in [OF coherent_svcD(1) [OF miss_visit(5)] miss_visit(2)] obtain r where
    r: "r \<in> set (db_links (ls_db (sv_svc s)))" "l = scan_link r" "l_Slug r = slug" by blast
  have "coherent ((set_cache c s)\<lparr>sv_readers := Publish l # sv_readers s\<rparr>)"
    using coherent_publishing [OF coherent_get [OF miss_visit(5,1)], of r l] r by simp
  from coherent_click_row [OF this, of r v] r show ?case by simp
next
  case (miss_gone now dm slug s c)
  then show ?case by (intro coherent_get)
next
  case (publish l s now)
  let ?rs = "db_links (ls_db (sv_svc s))" and ?c = "ls_cache (sv_svc s)"
  note ok = coherent_svcD [OF publish(2)]
  have "current ?rs (FormatCacheKey (l_Domain l) (l_Slug l)) l"
    using coherentD(2) [OF publish(2)] publish(1) by (auto simp: list_all_iff pending_ok_def)
  from held_own [OF ok(1-3) this] have "coherent (set_cache (LinkCache_Set now (l_Domain l) (l_Slug l) (Some l) ?c) s)"
    using ok by (intro coherent_cache [OF publish(2)]) (auto simp: lc.put_inv lc.put_ok)
  from coherent_readers [OF this readers_after, of "sv_readers s" "Publish l"] coherentD(2) [OF publish(2)]
  show ?case by simp
next
  case (drop dm slug s)
  let ?rs = "db_links (ls_db (sv_svc s))" and ?c = "ls_cache (sv_svc s)"
  note ok = coherent_svcD [OF drop(2)]
  have "coherent (set_cache (LinkCache_Delete dm slug ?c) s)"
    using lc.del_inv [OF ok(4)] lc.del_ok [OF ok(4,5), of dm slug]
    by (intro coherent_cache [OF drop(2)]) (auto intro: entries_ok_mono)
  from coherent_readers [OF this readers_after, of "sv_readers s" "Drop dm slug"] coherentD(2) [OF drop(2)]
  show ?case by simp
next
  case (pin_visit env dm slug s l)
  from GetBySlugRaw_in [OF coherent_svcD(1) [OF pin_visit(3)] pin_visit(1)] obtain r where
    "r \<in> set (db_links (ls_db (sv_svc s)))" "l = scan_link r" "l_Slug r = slug" by blast
  with coherent_click_row [OF pin_visit(3), of r "[]"] show ?case by simp
next
  case (folder_delete flt i who adm s d ferr)
  then show ?case by (intro coherent_folder_delete)
next
  case (adopt new old s)
  then show ?case by (intro coherent_update [OF _ harmless_owner]) (auto simp: adopt_links_def)
next
  case (elsewhere d s)
  then show ?case by (intro coherent_links_same)
qed

lemma boot_coherent: "links_ok (db_links d) \<Longrightarrow> slugs_ok (db_links d) \<Longrightarrow> coherent (boot d capacity ttl)"
  using NewLinkCache_abs [of capacity ttl]
  by (auto simp: coherent_def svc_ok_def Let_def boot_def entries_ok_def lc_view_def)

lemma served_coherent: "served cfg s t \<Longrightarrow> coherent s \<Longrightarrow> coherent t"
  by (induction rule: served.induct) (auto intro: serve_coherent)

inductive_cases served_startE: "served cfg s s"

lemmas served_boot_coherent = served_coherent [OF _ boot_coherent]

lemma Resolve_ok_cases:
  assumes "LinkService_Resolve env dm slug v = (t, Some l, None)"
  shows "\<not> IsExpired (le_now env) l \<and>
    (snd (LinkCache_Get (le_now env) dm slug (ls_cache v)) = Some l \<or>
     (snd (LinkCache_Get (le_now env) dm slug (ls_cache v)) = None \<and> lookup_link env dm slug (ls_db v) = Inr l))"
  using assms by (auto simp: LinkService_Resolve_def split: prod.splits option.splits sum.splits if_splits)

text \<open>What a lookup of the running service returns is a stored link.\<close>

lemma Resolve_stored:
  assumes "coherent s" and "colon_free dm" and "colon_free slug"
    and "LinkService_Resolve env dm slug (sv_svc s) = (t, Some l, None)"
  shows "\<exists>x\<in>set (db_links (ls_db (sv_svc s))). serves_as l (scan_link x) \<and> l_Slug x = slug \<and> (l_Domain x = dm \<or> l_Domain x = [])"
proof (cases "snd (LinkCache_Get (le_now env) dm slug (ls_cache (sv_svc s))) = Some l")
  case True
  then show ?thesis using coherent_hit [OF assms(1-3), of "le_now env" _ l] by (metis prod.collapse)
next
  case False
  then have "lookup_link env dm slug (ls_db (sv_svc s)) = Inr l" using Resolve_ok_cases [OF assms(4)] by blast
  from lookup_link_in [OF coherent_svcD(1) [OF assms(1)] this] show ?thesis by (metis serves_as_refl)
qed

section \<open>Properties of a running server\<close>

text \<open>
  Claim C1. A visitor never reaches a link that was deleted, paused, re-targeted or given a PIN
  behind the cache's back. In every state a server can reach, whatever the interleaving of
  owners' edits, overlapping lookups of any slugs (those with colons included), delayed clicks,
  folder deletions and faults of the database, a successful \<open>Resolve\<close> of a slug without a colon, as
  every slug the service accepts is, on a host name, returns the version of a stored link that is
  in the database at that moment: same target, PIN, redirect type, routing, expiry and limits, of
  that slug, in the host's domain or the root; active and not past its time. Only its folder, its
  owner and the counts of clicks may lag behind, and the count never runs ahead. Of a slug with a
  colon this does not hold (\<open>colon_slug_survives_delete\<close>).
\<close>

theorem visitors_get_current_link:
  assumes "served cfg (boot d capacity ttl) s" and "links_ok (db_links d)" and "slugs_ok (db_links d)"
    and "colon_free dm" and "colon_free slug" and "LinkService_Resolve env dm slug (sv_svc s) = (t, Some l, None)"
  shows "\<exists>r\<in>set (db_links (ls_db (sv_svc s))). serves_as l (scan_link r) \<and> l_Slug r = slug \<and>
    (l_Domain r = dm \<or> l_Domain r = []) \<and> l_IsActive r \<and> \<not> time_over (le_now env) r"
proof -
  have c: "coherent s" using served_boot_coherent [OF assms(1-3)] .
  note r = Resolve_ok_cases [OF assms(6)]
  obtain r' where r': "r' \<in> set (db_links (ls_db (sv_svc s)))" "serves_as l (scan_link r')" "l_Slug r' = slug"
    "l_Domain r' = dm \<or> l_Domain r' = []" using Resolve_stored [OF c assms(4-6)] by blast
  moreover have "l_IsActive r' \<and> \<not> time_over (le_now env) r'"
    using r serves_as_fields(7,8) [OF r'(2)] by (simp add: IsExpired_iff time_over_def scan_link_def)
  ultimately show ?thesis by blast
qed

definition example_serving :: serving where
  "example_serving = (boot empty_db 0 0)\<lparr>sv_svc := example_service, sv_used := {''u1''}\<rparr>"

lemma example_served: "served example_cfg (boot empty_db 0 0) example_serving"
proof -
  let ?s = "boot empty_db 0 0"
  have "sv_svc ?s = fresh_service" by (simp add: boot_def fresh_service_def)
  moreover have "hash_ok example_env" by (simp add: hash_ok_def example_env_def example_hash_def)
  moreover have "le_uuid example_env = ''u1''" by (simp add: example_env_def)
  ultimately have "serve example_cfg ?s (?s\<lparr>sv_svc := example_service, sv_used := insert ''u1'' (sv_used ?s)\<rparr>)"
    using serve.create [of ?s example_env example_cfg example_req "''ana''"] example_create
    by (simp add: boot_def)
  moreover have "?s\<lparr>sv_svc := example_service, sv_used := insert ''u1'' (sv_used ?s)\<rparr> = example_serving"
    by (simp add: example_serving_def boot_def)
  ultimately show ?thesis using served.start served.more by metis
qed

lemma example_resolve:
  "\<exists>t. LinkService_Resolve example_env [] ''promo'' example_service = (t, Some example_link, None)"
proof -
  have g: "snd (LinkCache_Get (1000 * second_ns) [] ''promo'' (ls_cache example_service)) = Some example_link"
    using Create_stores_link [OF example_create] by (simp add: example_env_def)
  have "\<not> IsExpired (1000 * second_ns) example_link"
    by (simp add: IsExpired_iff time_over_def budget_spent_def)
  then show ?thesis using g
    by (cases "LinkCache_Get (1000 * second_ns) [] ''promo'' (ls_cache example_service)")
      (simp add: LinkService_Resolve_def example_env_def)
qed

theorem visitors_get_current_link_witness:
  "\<exists>r\<in>set (db_links (ls_db example_service)). serves_as example_link (scan_link r) \<and> l_Slug r = ''promo''"
proof -
  obtain t where "LinkService_Resolve example_env [] ''promo'' (sv_svc example_serving) = (t, Some example_link, None)"
    using example_resolve by (auto simp: example_serving_def)
  from visitors_get_current_link [OF example_served _ _ _ _ this] show ?thesis
    by (auto simp: links_ok_def slugs_ok_def colon_free_def example_serving_def)
qed

text \<open>
  Claim C40. What a slug with a colon may do: the key of slug \<open>s\<close> in domain \<open>d\<close> is also the key of
  slug \<open>d:s\<close> in the root domain. A click scheduled for a link of domain \<open>d\<close> that was reached as
  \<open>d:s\<close> stores it under a key its deletion does not know, and after the link is deleted a visitor
  to \<open>d\<close> asking for \<open>d:s\<close> is still given it.
\<close>

theorem colon_slug_survives_delete:
  assumes "links_ok (db_links (ls_db v))" and "lc_inv (ls_cache v)" and "x \<in> set (db_links (ls_db v))"
    and "dm = l_Domain x" and "dm \<noteq> []" and "slug = dm @ '':'' @ l_Slug x"
    and "\<forall>q. \<not> le_fault env q" and "\<not> IsExpired (le_now env) (count_click (unix (le_now env)) x)"
  shows "snd (LinkCache_Get (le_now env) [] slug (LinkCache_Set (le_now env) dm (l_Slug x) (Some x) (ls_cache v))) = Some x \<and>
    (let v1 = fst (RecordClick cfg env (l_ID x) dm slug [] v);
         (v2, err, evs) = LinkService_Delete cfg env (l_ID x) who True v1
     in err = None \<and> by_id (l_ID x) (db_links (ls_db v2)) = None \<and>
        (\<exists>l. snd (LinkCache_Get (le_now env) dm slug (ls_cache v2)) = Some l \<and> l_ID l = l_ID x))"
proof -
  let ?now = "le_now env" and ?i = "l_ID x"
  let ?f = "count_click (unix ?now)"
  let ?rs1 = "update_rows (\<lambda>r. l_ID r = ?i) ?f (db_links (ls_db v))"
  let ?u = "scan_link (?f x)"
  have keys: "FormatCacheKey [] slug = FormatCacheKey dm (l_Slug x)" by (simp add: FormatCacheKey_def assms(5,6))
  have ok1: "links_ok ?rs1" using assms(1) by (rule links_ok_update) (simp add: count_click_def link_key_def)
  have "?f x \<in> set ?rs1" using update_rows_img' [OF assms(3), of "\<lambda>r. l_ID r = ?i" ?f] by simp
  then have get1: "by_id ?i ?rs1 = Some (?f x)" using ok1 by (simp add: by_id_iff count_click_def)
  define v1 where "v1 = v\<lparr>ls_db := (ls_db v)\<lparr>db_links := ?rs1\<rparr>,
      ls_cache := LinkCache_Set ?now dm slug (Some ?u) (ls_cache v)\<rparr>"
  have v1: "fst (RecordClick cfg env ?i dm slug [] v) = v1"
    using assms(7,8) get1 by (simp add: RecordClick_def Let_def GetByID_def scan_row_def query_row_def v1_def)
  define v2 where "v2 = v1\<lparr>ls_db := (ls_db v1)\<lparr>db_links := delete_rows (\<lambda>r. l_ID r = ?i) ?rs1\<rparr>,
      ls_cache := LinkCache_Delete dm (l_Slug x) (ls_cache v1)\<rparr>"
  have del: "LinkService_Delete cfg env ?i who True v1 = (v2, None, dispatch cfg ''link.deleted'' ?u)"
    using assms(7) get1 by (simp add: LinkService_Delete_def GetByID_def scan_row_def query_row_def v1_def v2_def
        count_click_def assms(4))
  have k: "FormatCacheKey dm slug \<noteq> FormatCacheKey dm (l_Slug x)" "FormatCacheKey dm slug \<noteq> l_Slug x"
    by (simp_all add: FormatCacheKey_def assms(5,6))
  have i1: "lc_inv (ls_cache v1)" by (simp add: v1_def lc.put_inv [OF assms(2)])
  have "lc_view (ls_cache v1) (FormatCacheKey dm slug) = Some (?u, ?now)"
    by (simp add: v1_def lc.put_hit [OF assms(2)])
  then have "lc_view (ls_cache v2) (FormatCacheKey dm slug) = Some (?u, ?now)"
    using k by (simp add: v2_def lc.del_view [OF i1])
  moreover have i2: "lc_inv (ls_cache v2)" by (simp add: v2_def lc.del_inv [OF i1])
  ultimately have "snd (LinkCache_Get ?now dm slug (ls_cache v2)) = Some ?u" by (intro lc.get_fresh)
  moreover have "by_id ?i (db_links (ls_db v2)) = None" by (simp add: v2_def by_id_delete_rows)
  moreover have "snd (LinkCache_Get ?now [] slug (LinkCache_Set ?now dm (l_Slug x) (Some x) (ls_cache v))) = Some x"
    using lc.put_hit [OF assms(2), of ?now dm "l_Slug x" x]
    by (intro lc.get_fresh) (simp_all add: lc.put_inv [OF assms(2)] keys)
  ultimately show ?thesis by (simp add: v1 del count_click_def)
qed

definition domain_link :: link where
  "domain_link = zero_link\<lparr>l_ID := ''u2'', l_Slug := ''s1'', l_Domain := ''go.e.com'', l_IsActive := True\<rparr>"

theorem colon_slug_survives_delete_witness:
  "snd (LinkCache_Get (1000 * second_ns) [] ''go.e.com:s1''
     (LinkCache_Set (1000 * second_ns) ''go.e.com'' ''s1'' (Some domain_link) (NewLinkCache 0 0))) = Some domain_link"
proof -
  let ?v = "\<lparr>ls_db = empty_db\<lparr>db_links := [domain_link]\<rparr>, ls_cache = NewLinkCache 0 0\<rparr>"
  have "links_ok (db_links (ls_db ?v))" "lc_inv (ls_cache ?v)" "domain_link \<in> set (db_links (ls_db ?v))"
    using NewLinkCache_abs [of 0 0] by (simp_all add: links_ok_def)
  moreover have "''go.e.com'' = l_Domain domain_link" "''go.e.com'' \<noteq> []"
    "''go.e.com:s1'' = ''go.e.com'' @ '':'' @ l_Slug domain_link"
    by (simp_all add: domain_link_def)
  moreover have "\<forall>q. \<not> le_fault example_env q" by (simp add: example_env_def)
  moreover have "\<not> IsExpired (le_now example_env) (count_click (unix (le_now example_env)) domain_link)"
    by (simp add: IsExpired_iff time_over_def budget_spent_def count_click_def domain_link_def zero_link_def)
  ultimately have "snd (LinkCache_Get (le_now example_env) [] ''go.e.com:s1''
      (LinkCache_Set (le_now example_env) ''go.e.com'' (l_Slug domain_link) (Some domain_link) (ls_cache ?v))) = Some domain_link"
    by (rule colon_slug_survives_delete [THEN conjunct1])
  then show ?thesis by (simp add: example_env_def domain_link_def)
qed

end
