(* ===== verification/Requests.thy ===== *)
theory Requests
  imports Router Serving
begin

text \<open>
  What a request may do to the database. The interface \<open>db_contract\<close> is the contract a property of
  the database signs with the services: each operation keeps it, when the caller may do that
  operation. Under the contract every handler keeps the property, hence every request and every
  delayed click. Two properties sign it: the tables are well-typed (\<open>typed_db\<close>), and the rows of
  an owner are in place (\<open>holds_rows\<close>).
\<close>

text \<open>What other requests do during a round trip to the identity provider keeps the property.\<close>

definition rely :: "(db \<Rightarrow> bool) \<Rightarrow> app_env \<Rightarrow> bool" where
  "rely I env \<longleftrightarrow> (\<forall>d. I d \<longrightarrow> I (ae_Meanwhile (en_auth env) d))"

text \<open>The identities a request may act under.\<close>

definition caller_may :: "(string \<Rightarrow> bool \<Rightarrow> bool) \<Rightarrow> app_env \<Rightarrow> request \<Rightarrow> app \<Rightarrow> bool" where
  "caller_may may env r ap \<longleftrightarrow>
     (\<forall>s. snd (getAuthSession env r ap) = Some s \<or> snd (cookie_caller env r ap) = Some s \<longrightarrow>
        may (us_UserID s) (us_IsAdmin s))"

definition keeps :: "config \<Rightarrow> (db \<Rightarrow> bool) \<Rightarrow> (string \<Rightarrow> bool \<Rightarrow> bool) \<Rightarrow> handler \<Rightarrow> bool" where
  "keeps cfg I may h \<longleftrightarrow> (\<forall>env r ap. app_cfg ap = cfg \<and> I (app_db ap) \<and> rely I env \<and> caller_may may env r ap \<longrightarrow>
     I (app_db (fst (h env r ap))))"

section \<open>The configuration never changes\<close>

lemma authorizeSession_cfg: "authorizeSession env a s d = (a', d', res) \<Longrightarrow> au_cfg a' = au_cfg a"
  by (auto simp: authorizeSession_def Let_def dest: provider_cfg
      split: if_splits option.splits prod.splits sum.splits)

lemma GetSession_cfg: "GetSession env a r d = (a', d', res) \<Longrightarrow> au_cfg a' = au_cfg a"
  by (auto simp: GetSession_def Let_def dest: authorizeSession_cfg
      split: if_splits option.splits prod.splits sum.splits list.splits)

lemma AuthorizeAPIKey_cfg: "AuthorizeAPIKey env a s d = (a', d', res) \<Longrightarrow> au_cfg a' = au_cfg a"
  by (auto simp: AuthorizeAPIKey_def Let_def dest: authorizeSession_cfg
      split: if_splits prod.splits sum.splits)

lemma getAuthSession_cfg [simp]: "app_cfg (fst (getAuthSession env r ap)) = app_cfg ap"
  by (auto simp: getAuthSession_def app_cfg_def set_app_db_def dest: AuthorizeAPIKey_cfg GetSession_cfg
      split: option.splits prod.splits sum.splits)

lemma cookie_caller_cfg [simp]: "app_cfg (fst (cookie_caller env r ap)) = app_cfg ap"
  by (auto simp: cookie_caller_def app_cfg_def set_app_db_def dest: GetSession_cfg split: prod.splits sum.splits)

text \<open>What a callback leaves in the database.\<close>

lemma HandleCallback_cases:
  assumes "HandleCallback e a r d = (d', res)"
  shows "d' = d \<or> d' = ae_Meanwhile e d \<or>
    (\<exists>s sid tok d1 err. saveOIDCSession e a s sid tok (ae_Meanwhile e d) = (d1, Inl err) \<and> d' = d1) \<or>
    (\<exists>s sid tok d1 s2. saveOIDCSession e a s sid tok (ae_Meanwhile e d) = (d1, Inr s2) \<and>
       d' = adoptLegacyOwner e a s2 d1 \<and> res = Inr s2)"
proof (cases "callback_claims e (au_cfg a) r")
  case (Inr ct)
  obtain c tok where ct: "ct = (c, tok)" by (cases ct)
  show ?thesis
    using assms Inr unfolding ct HandleCallback_def Let_def
    by (simp split: if_splits sum.splits prod.splits) blast+
qed (use assms in \<open>auto simp: HandleCallback_def Let_def split: if_splits\<close>)

lemma caller_may_bucket: "caller_may may env r (ap\<lparr>ap_bucket := b\<rparr>) = caller_may may env r ap"
proof -
  have "snd (getAuthSession env r (ap\<lparr>ap_bucket := b\<rparr>)) = snd (getAuthSession env r ap)"
    by (simp add: getAuthSession_def bearer_session_def split: option.splits prod.splits sum.splits)
  moreover have "snd (cookie_caller env r (ap\<lparr>ap_bucket := b\<rparr>)) = snd (cookie_caller env r ap)"
    by (simp add: cookie_caller_def split: prod.splits sum.splits)
  ultimately show ?thesis by (simp add: caller_may_def)
qed

section \<open>The contract\<close>

locale db_contract =
  fixes cfg :: config
    and I :: "db \<Rightarrow> bool"
    and may :: "string \<Rightarrow> bool \<Rightarrow> bool"
    and adopts :: "string \<Rightarrow> string \<Rightarrow> bool"
  assumes link_create: "LinkService_Create (link_cfg_of cfg) env req u s = (t, res) \<Longrightarrow> I (ls_db s) \<Longrightarrow>
      may u adm \<Longrightarrow> I (ls_db t)"
    and link_update: "LinkService_Update (link_cfg_of cfg) env i ureq u adm s = (t, ures) \<Longrightarrow> I (ls_db s) \<Longrightarrow>
      may u adm \<Longrightarrow> I (ls_db t)"
    and link_delete: "LinkService_Delete (link_cfg_of cfg) env i u adm s = (t, dres) \<Longrightarrow> I (ls_db s) \<Longrightarrow>
      may u adm \<Longrightarrow> I (ls_db t)"
    and link_click: "RecordClick (link_cfg_of cfg) env i dm slug v s = (t, evs) \<Longrightarrow> I (ls_db s) \<Longrightarrow> I (ls_db t)"
    and folder_create: "FolderService_Create ff now uuid n c u d = (d', fres) \<Longrightarrow> I d \<Longrightarrow> may u adm \<Longrightarrow> I d'"
    and folder_update: "FolderService_Update ff i freq u adm d = (d', fres) \<Longrightarrow> I d \<Longrightarrow> may u adm \<Longrightarrow> I d'"
    and folder_delete: "FolderService_Delete ff i u adm d = (d', ferr) \<Longrightarrow> I d \<Longrightarrow> may u adm \<Longrightarrow> I d'"
    and domain_create: "DomainService_Create df now uuid n u d = (d', dmres) \<Longrightarrow> I d \<Longrightarrow> may u adm \<Longrightarrow> I d'"
    and domain_delete: "DomainService_Delete df i u adm d = (d', derr) \<Longrightarrow> I d \<Longrightarrow> may u adm \<Longrightarrow> I d'"
    and key_create: "APIKey_create kf sha now uuid rnd n u oidc d = (d', kres) \<Longrightarrow> I d \<Longrightarrow> may u adm \<Longrightarrow> I d'"
    and key_delete: "APIKeyService_Delete kf i u adm d = (d', kerr) \<Longrightarrow> I d \<Longrightarrow> may u adm \<Longrightarrow> I d'"
    and key_use: "ValidateKey kf sha f now tok d = (d', vres) \<Longrightarrow> I d \<Longrightarrow> I d'"
    and webhook_create: "WebhookService_Create whf rslv now uuid sec wreq u d = (d', wres) \<Longrightarrow> I d \<Longrightarrow> may u adm \<Longrightarrow> I d'"
    and webhook_delete: "WebhookService_Delete whf i u adm d = (d', werr) \<Longrightarrow> I d \<Longrightarrow> may u adm \<Longrightarrow> I d'"
    and sessions: "I d \<Longrightarrow> I (d\<lparr>db_oidc_sessions := ss\<rparr>)"
    and logouts: "I d \<Longrightarrow> I (d\<lparr>db_oidc_logout_jtis := js\<rparr>)"
    and adoption: "I d \<Longrightarrow> adopts new old \<Longrightarrow> I (adopt_table tab new old d)"
begin

lemma both_logins: "I d \<Longrightarrow> I (d\<lparr>db_oidc_logout_jtis := js, db_oidc_sessions := ss\<rparr>)"
  using sessions [OF logouts [of d js], of ss] by simp

lemma drop_keeps: "I d \<Longrightarrow> I (drop_session i d)"
  by (simp add: drop_session_def sessions)

lemma authorizeSession_keeps:
  "authorizeSession (en_auth env) a s d = (a', d', res) \<Longrightarrow> rely I env \<Longrightarrow> I d \<Longrightarrow> I d'"
  by (auto simp: authorizeSession_def Let_def rely_def drop_keeps
      split: if_splits option.splits prod.splits sum.splits)

lemma GetSession_keeps:
  "GetSession (en_auth env) a r d = (a', d', res) \<Longrightarrow> rely I env \<Longrightarrow> I d \<Longrightarrow> I d'"
  by (auto simp: GetSession_def Let_def intro: authorizeSession_keeps
      split: if_splits option.splits prod.splits sum.splits list.splits)

lemma AuthorizeAPIKey_keeps:
  "AuthorizeAPIKey (en_auth env) a s d = (a', d', res) \<Longrightarrow> rely I env \<Longrightarrow> I d \<Longrightarrow> I d'"
  by (auto simp: AuthorizeAPIKey_def Let_def intro: authorizeSession_keeps
      split: if_splits prod.splits sum.splits)

lemma getAuthSession_keeps:
  assumes "rely I env" and "I (app_db ap)"
  shows "I (app_db (fst (getAuthSession env r ap)))"
proof -
  have "I d" if "bearer_session env r ap = Some (d, s)" for d s
    using that assms(2) by (auto simp: bearer_session_def intro: key_use split: if_splits prod.splits sum.splits)
  then show ?thesis using assms
    by (auto simp: getAuthSession_def intro: AuthorizeAPIKey_keeps GetSession_keeps
        split: option.splits prod.splits sum.splits)
qed

lemma cookie_caller_keeps: "rely I env \<Longrightarrow> I (app_db ap) \<Longrightarrow> I (app_db (fst (cookie_caller env r ap)))"
  by (auto simp: cookie_caller_def intro: GetSession_keeps split: prod.splits sum.splits)

lemma keepsI: "(\<And>env r ap. app_cfg ap = cfg \<Longrightarrow> I (app_db ap) \<Longrightarrow> rely I env \<Longrightarrow> caller_may may env r ap \<Longrightarrow>
  I (app_db (fst (h env r ap)))) \<Longrightarrow> keeps cfg I may h"
  by (simp add: keeps_def)

lemma keeps_session:
  assumes "\<And>s env r ap. app_cfg ap = cfg \<Longrightarrow> I (app_db ap) \<Longrightarrow> may (us_UserID s) (us_IsAdmin s) \<Longrightarrow>
    I (app_db (fst (k s env r ap)))"
  shows "keeps cfg I may (with_session k)"
proof (rule keepsI)
  fix env r and ap :: app
  assume a: "app_cfg ap = cfg" "I (app_db ap)" "rely I env" "caller_may may env r ap"
  obtain ap1 so where g: "getAuthSession env r ap = (ap1, so)" by fastforce
  have "app_cfg ap1 = cfg" "I (app_db ap1)"
    using getAuthSession_cfg [of env r ap] getAuthSession_keeps [OF a(3,2), of r] a(1) g by auto
  then show "I (app_db (fst (with_session k env r ap)))"
    using assms a(4) g by (auto simp: with_session_def caller_may_def split: option.splits)
qed

lemma keeps_cookie:
  assumes "\<And>s env r ap. app_cfg ap = cfg \<Longrightarrow> I (app_db ap) \<Longrightarrow> may (us_UserID s) (us_IsAdmin s) \<Longrightarrow>
    I (app_db (fst (k s env r ap)))"
  shows "keeps cfg I may (with_cookie k)"
proof (rule keepsI)
  fix env r and ap :: app
  assume a: "app_cfg ap = cfg" "I (app_db ap)" "rely I env" "caller_may may env r ap"
  obtain ap1 so where g: "cookie_caller env r ap = (ap1, so)" by fastforce
  have "app_cfg ap1 = cfg" "I (app_db ap1)"
    using cookie_caller_cfg [of env r ap] cookie_caller_keeps [OF a(3,2), of r] a(1) g by auto
  then show "I (app_db (fst (with_cookie k env r ap)))"
    using assms a(4) g by (auto simp: with_cookie_def caller_may_def split: option.splits)
qed

lemma page_keeps: "rely I env \<Longrightarrow> I (app_db ap) \<Longrightarrow> I (app_db (fst (page code body env r ap)))"
  using getAuthSession_keeps [of env ap r]
  by (auto simp: page_def cabecera_def split: prod.splits option.splits)

lemma run_jobs_keeps:
  "run_jobs (link_cfg_of cfg) envs u jobs (s, b) = (s', b') \<Longrightarrow> I (ls_db s) \<Longrightarrow> may u adm \<Longrightarrow> I (ls_db s')"
proof (induction jobs arbitrary: s b)
  case (Cons job jobs)
  obtain n req where job: "job = (n, req)" by (cases job)
  obtain s1 res evs where c: "LinkService_Create (link_cfg_of cfg) (envs n) req u s = (s1, res, evs)"
    by (metis prod.collapse)
  have "run_jobs (link_cfg_of cfg) envs u jobs (s1, count_job b n res) = (s', b')"
    using Cons.prems(1) by (simp add: job c)
  then show ?case using link_create [OF c Cons.prems(2,3)] Cons.IH Cons.prems(3) by blast
qed simp

lemma ImportCSV_keeps:
  "ImportCSV (link_cfg_of cfg) envs sched recs u s = (s', res) \<Longrightarrow> I (ls_db s) \<Longrightarrow> may u adm \<Longrightarrow> I (ls_db s')"
  by (auto simp: ImportCSV_def intro: run_jobs_keeps split: option.splits list.splits prod.splits)

lemma create_key_keeps: "create_key env c n u d = (d', res) \<Longrightarrow> I d \<Longrightarrow> may u adm \<Longrightarrow> I d'"
  by (auto simp: create_key_def APIKeyService_Create_def APIKeyService_CreateOIDC_def intro: key_create split: if_splits)

lemma Resolve_db: "LinkService_Resolve env dm slug s = (s', res) \<Longrightarrow> ls_db s' = ls_db s"
  by (auto simp: LinkService_Resolve_def split: prod.splits option.splits sum.splits if_splits)

lemma adopt_keeps: "I d \<Longrightarrow> (\<And>old t. (old, t) \<in> set qs \<Longrightarrow> adopts new old) \<Longrightarrow> I (adopt_from flt new qs d)"
  by (induction flt new qs d rule: adopt_from.induct) (auto intro: adoption)

lemma saveOIDCSession_keeps: "saveOIDCSession e a s sid tok d = (d', res) \<Longrightarrow> I d \<Longrightarrow> I d'"
  by (auto simp: saveOIDCSession_def Let_def sessions split: option.splits if_splits)

text \<open>Every handler keeps the property.\<close>

lemma keeps_links: "keeps cfg I may CreateLink" "keeps cfg I may ListLinks" "keeps cfg I may (GetLink i)"
  "keeps cfg I may (UpdateLink i)" "keeps cfg I may (DeleteLink i)" "keeps cfg I may BulkImport"
  "keeps cfg I may (LinkQR i)"
  unfolding CreateLink_def ListLinks_def GetLink_def UpdateLink_def DeleteLink_def BulkImport_def LinkQR_def Let_def
  by (rule keeps_session, auto simp: app_db_def split: option.splits sum.splits prod.splits
      intro: link_create link_update link_delete ImportCSV_keeps)+

lemma keeps_tables: "keeps cfg I may ListKeys" "keeps cfg I may CreateKey" "keeps cfg I may (DeleteKey i)"
  "keeps cfg I may ListDomains" "keeps cfg I may CreateDomain" "keeps cfg I may (DeleteDomain i)"
  "keeps cfg I may ListFolders" "keeps cfg I may CreateFolder" "keeps cfg I may (UpdateFolder i)"
  "keeps cfg I may (DeleteFolder i)" "keeps cfg I may ListWebhooks" "keeps cfg I may CreateWebhook"
  "keeps cfg I may (DeleteWebhook i)"
  unfolding ListKeys_def CreateKey_def DeleteKey_def ListDomains_def CreateDomain_def DeleteDomain_def
    ListFolders_def CreateFolder_def UpdateFolder_def DeleteFolder_def ListWebhooks_def CreateWebhook_def DeleteWebhook_def
  by (rule keeps_session, auto split: option.splits sum.splits prod.splits
      intro: create_key_keeps key_delete domain_create domain_delete folder_create folder_update folder_delete
        webhook_create webhook_delete)+

lemma keeps_forms: "keeps cfg I may ShowSettings" "keeps cfg I may CreateAPIKeyForm" "keeps cfg I may CreateDomainForm"
  "keeps cfg I may CreateWebhookForm"
  unfolding ShowSettings_def CreateAPIKeyForm_def CreateDomainForm_def CreateWebhookForm_def Let_def
  by (rule keeps_cookie, auto split: option.splits sum.splits prod.splits
      intro: create_key_keeps domain_create webhook_create)+

lemma keeps_create_form: "keeps cfg I may HandleCreateForm"
  unfolding HandleCreateForm_def
  by (rule keeps_cookie, auto simp: app_db_def split: sum.splits prod.splits intro: link_create)

lemma keeps_readers: "keeps cfg I may CleanPreview" "keeps cfg I may ExportLinks" "keeps cfg I may Dashboard"
  "keeps cfg I may Me" "keeps cfg I may healthz" "keeps cfg I may health" "keeps cfg I may Login" "keeps cfg I may Logout"
  "keeps cfg I may (static_file version)"
proof -
  have g: "I (app_db a1)" if "getAuthSession env r ap = (a1, so)" "rely I env" "I (app_db ap)" for env r ap a1 so
    using getAuthSession_keeps [OF that(2,3), of r] that(1) by simp
  have c: "I (app_db a1)" if "cookie_caller env r ap = (a1, so)" "rely I env" "I (app_db ap)" for env r ap a1 so
    using cookie_caller_keeps [OF that(2,3), of r] that(1) by simp
  show "keeps cfg I may CleanPreview" "keeps cfg I may healthz" "keeps cfg I may health"
    "keeps cfg I may (static_file version)"
    by (rule keepsI, auto simp: CleanPreview_def healthz_def health_def static_file_def split: option.splits sum.splits)+
  show "keeps cfg I may ExportLinks"
    by (rule keepsI, auto simp: ExportLinks_def intro: g split: option.splits sum.splits prod.splits)
  show "keeps cfg I may Dashboard" "keeps cfg I may Me"
    by (rule keepsI, auto simp: Dashboard_def Me_def Let_def intro: c split: option.splits sum.splits prod.splits)+
  show "keeps cfg I may Login"
    by (rule keepsI, auto simp: Login_def Let_def split: sum.splits prod.splits)
  show "keeps cfg I may Logout"
    by (rule keepsI, auto simp: Logout_def RevokeSession_def drop_keeps split: option.splits prod.splits if_splits)
qed

lemma keeps_backchannel: "keeps cfg I may BackchannelLogoutHandler"
proof (rule keepsI)
  fix env r and ap :: app
  assume a: "I (app_db ap)"
  have b: "I d'" if "BackchannelLogout e au tok d = (a', d', err)" "I d" for e au tok d a' d' err
    using that both_logins [of d]
    by (auto simp: BackchannelLogout_def Let_def split: if_splits option.splits prod.splits)
  show "I (app_db (fst (BackchannelLogoutHandler env r ap)))"
    using a by (auto simp: BackchannelLogoutHandler_def Let_def intro: b split: option.splits list.splits prod.splits)
qed

lemma keeps_pages: "keeps cfg I may (Redirect t)" "keeps cfg I may (Preview t)" "keeps cfg I may (ShowForm t)"
  "keeps cfg I may (Verify t)"
proof -
  have p: "I (app_db (fst (page code body env r ap)))" if "rely I env" "I (app_db ap)" for code body env r ap
    using that by (rule page_keeps)
  show "keeps cfg I may (Redirect t)"
  proof (rule keepsI)
    fix env r and ap :: app
    assume a: "I (app_db ap)" "rely I env"
    obtain s' res where rs: "LinkService_Resolve (en_link env) (request_domain r (app_cfg ap)) t (ap_svc ap) = (s', res)"
      by (metis prod.collapse)
    have "I (ls_db s')" using Resolve_db [OF rs] a(1) by (simp add: app_db_def)
    then show "I (app_db (fst (Redirect t env r ap)))" using a rs
      by (auto simp: Redirect_def not_found_def expired_page_def missing_page_def Let_def app_db_def [of "ap_clicks_update _ _"]
          intro!: p split: option.splits prod.splits)
  qed
  show "keeps cfg I may (Preview t)" "keeps cfg I may (ShowForm t)"
    by (rule keepsI, auto simp: Preview_def ShowForm_def not_found_def expired_page_def missing_page_def intro!: p split: sum.splits)+
  have v: "app_db (ap\<lparr>ap_guard := g\<rparr>) = app_db ap" "app_db (ap\<lparr>ap_guard := g, ap_clicks := c\<rparr>) = app_db ap" for ap g c
    by (simp_all add: app_db_def)
  show "keeps cfg I may (Verify t)"
    by (rule keepsI, auto simp: Verify_def not_found_def expired_page_def missing_page_def v intro!: p
        split: sum.splits prod.splits bool.splits)
qed

lemma callback_keeps:
  assumes "rely I env" and "I (app_db ap)"
    and "\<And>s old. snd (HandleCallback (en_auth env) (ap_auth ap) r (app_db ap)) = Inr s \<Longrightarrow>
      old \<in> {us_Username s, us_Email s} \<Longrightarrow> old \<noteq> [] \<Longrightarrow> old \<noteq> us_UserID s \<Longrightarrow> adopts (us_UserID s) old"
  shows "I (app_db (fst (Callback env r ap)))"
proof -
  let ?d = "ae_Meanwhile (en_auth env) (app_db ap)"
  have m: "I ?d" using assms(1,2) by (simp add: rely_def)
  have "I d" if h: "HandleCallback (en_auth env) (ap_auth ap) r (app_db ap) = (d, res)" for d res
    using HandleCallback_cases [OF h]
  proof (elim disjE exE conjE)
    fix s sid tok d1 e
    assume "saveOIDCSession (en_auth env) (ap_auth ap) s sid tok ?d = (d1, Inl e)" "d = d1"
    then show "I d" using m saveOIDCSession_keeps by blast
  next
    fix s sid tok d1 s2
    assume d1: "saveOIDCSession (en_auth env) (ap_auth ap) s sid tok ?d = (d1, Inr s2)"
      "d = adoptLegacyOwner (en_auth env) (ap_auth ap) s2 d1" "res = Inr s2"
    have ok: "adopts (us_UserID s2) old" if "old \<in> {us_Username s2, us_Email s2}" "old \<noteq> []" "old \<noteq> us_UserID s2" for old
      using assms(3) [OF _ that] h d1(3) by simp
    have ad: "adopts (us_UserID s2) old" if "(old, t) \<in> set (List.product
        (filter (\<lambda>old. old \<noteq> [] \<and> old \<noteq> us_UserID s2) [us_Username s2, us_Email s2]) ts)" for old t ts
    proof -
      have "old \<in> set (filter (\<lambda>old. old \<noteq> [] \<and> old \<noteq> us_UserID s2) [us_Username s2, us_Email s2])"
        using that by (simp only: set_product mem_Sigma_iff)
      then have "old \<in> {us_Username s2, us_Email s2} \<and> old \<noteq> [] \<and> old \<noteq> us_UserID s2"
        by (simp only: set_filter mem_Collect_eq list.set simp_thms)
      then show ?thesis using ok [of old] by blast
    qed
    have d: "I d1" using d1(1) m by (rule saveOIDCSession_keeps)
    have "I (adopt_from flt (us_UserID s2) (List.product
        (filter (\<lambda>old. old \<noteq> [] \<and> old \<noteq> us_UserID s2) [us_Username s2, us_Email s2]) ts) d1)" for flt ts
      by (rule adopt_keeps [OF d ad])
    with d show "I d" unfolding d1(2) adoptLegacyOwner_def by (simp only: if_split simp_thms)
  qed (use m assms(2) in simp_all)
  then show ?thesis by (auto simp: Callback_def split: prod.splits sum.splits option.splits)
qed

lemma handler_keeps:
  assumes "app_cfg ap = cfg" and "I (app_db ap)" and "rely I env" and "caller_may may env r ap"
    and "\<And>s old. e = E_callback \<Longrightarrow> snd (HandleCallback (en_auth env) (ap_auth ap) r (app_db ap)) = Inr s \<Longrightarrow>
      old \<in> {us_Username s, us_Email s} \<Longrightarrow> old \<noteq> [] \<Longrightarrow> old \<noteq> us_UserID s \<Longrightarrow> adopts (us_UserID s) old"
  shows "I (app_db (fst (handler_of miss version e p env r ap)))"
proof (cases "e \<in> {E_callback, E_auth_other, E_api_other}")
  case True
  then show ?thesis using callback_keeps [OF assms(3,2), of r] assms(2,5) by (auto simp: handler_of_def)
next
  case False
  then have "keeps cfg I may (handler_of miss version e p)"
    by (cases e) (simp_all add: handler_of_def keeps_links keeps_tables keeps_forms keeps_create_form keeps_readers
        keeps_backchannel keeps_pages)
  then show ?thesis using assms(1-4) by (simp add: keeps_def)
qed

text \<open>The whole request: the middleware asks for the caller first, and the handler asks again.\<close>

lemma serve_http_keeps:
  assumes "app_cfg ap = cfg" and "I (app_db ap)" and "rely I env"
    and "\<And>ap1. ap1 \<in> {ap, fst (getAuthSession env r ap)} \<Longrightarrow> caller_may may env r ap1"
    and "\<And>vals s old. mux route_table (rq_Method r) (segments (rq_Path r)) = Some (E_callback, vals) \<Longrightarrow>
      snd (HandleCallback (en_auth env) (ap_auth ap) r (app_db ap)) = Inr s \<Longrightarrow>
      old \<in> {us_Username s, us_Email s} \<Longrightarrow> old \<noteq> [] \<Longrightarrow> old \<noteq> us_UserID s \<Longrightarrow> adopts (us_UserID s) old"
  shows "I (app_db (fst (serve_http mux miss version env r ap)))"
proof (cases "mux route_table (rq_Method r) (segments (rq_Path r))")
  case None
  then show ?thesis using assms(2) by (simp add: serve_http_def)
next
  case (Some q)
  obtain e vals where q: "q = (e, vals)" by (cases q)
  let ?h = "handler_of miss version e (concat vals)"
  have direct: "I (app_db (fst (?h env r ap)))"
    using assms Some q by (intro handler_keeps) auto
  obtain ap1 so where g: "getAuthSession env r ap = (ap1, so)" by (metis prod.collapse)
  have ap1: "app_cfg ap1 = cfg" "I (app_db ap1)" "caller_may may env r ap1"
    using getAuthSession_cfg [of env r ap] getAuthSession_keeps [OF assms(3,2), of r] assms(1,4) g by auto
  have behind: "I (app_db (fst (WriteRateLimit ?h env r ap)))" if e: "e \<noteq> E_callback"
  proof -
    have "I (app_db (fst (?h env r ap1)))" using ap1 assms(3) e by (intro handler_keeps) auto
    moreover have "I (app_db (fst (?h env r (ap1\<lparr>ap_bucket := b\<rparr>))))" for b
      using ap1 assms(3) e by (intro handler_keeps) (auto simp: caller_may_bucket)
    ultimately show ?thesis using direct g ap1(2)
      by (auto simp: WriteRateLimit_def split: option.splits prod.splits bool.splits)
  qed
  have "I (app_db (fst (limited miss version e (concat vals) env r ap)))"
    using direct behind by (cases "e = E_callback") (auto simp: limited_def is_api_def is_form_def)
  then show ?thesis using Some q
    by (cases "limited miss version e (concat vals) env r ap") (simp add: serve_http_def)
qed

end

section \<open>What each operation writes\<close>

lemma create_writes:
  assumes "LinkService_Create c env req u s = (t, res)"
  shows "ls_db t = ls_db s \<or> (\<exists>l stripped. prepare_link c env req u (ls_db s) = Inr (l, stripped) \<and>
    links_ok (db_links (ls_db s) @ [l]) \<and> ls_db t = (ls_db s)\<lparr>db_links := db_links (ls_db s) @ [l]\<rparr>)"
proof -
  obtain r evs where res: "res = (r, evs)" by (cases res)
  show ?thesis
  proof (cases r)
    case (Inl e)
    then show ?thesis using Create_refused assms res by blast
  next
    case (Inr p)
    obtain l stripped where "p = (l, stripped)" by (cases p)
    then show ?thesis using CreateD [of c env req u s t l stripped evs] assms res Inr by auto
  qed
qed

lemma update_writes:
  assumes "LinkService_Update c env i req u adm s = (t, res)" and "links_ok (db_links (ls_db s))"
  shows "ls_db t = ls_db s \<or> (\<exists>l. res = Inr l \<and> (\<exists>x\<in>set (db_links (ls_db s)). l_ID x = i \<and> (adm \<or> l_CreatedBy x = u)) \<and>
    ls_db t = (ls_db s)\<lparr>db_links := update_rows (\<lambda>r. l_ID r = i) (write_columns l) (db_links (ls_db s))\<rparr>)"
proof (cases res)
  case (Inl e)
  then show ?thesis using Update_error [of c env i req u adm s e] assms(1) by simp
next
  case (Inr l)
  then show ?thesis using UpdateD [OF assms(2), of c env i req u adm t l] assms(1) by auto
qed

lemma delete_writes:
  assumes "LinkService_Delete c env i u adm s = (t, res)" and "links_ok (db_links (ls_db s))"
  shows "ls_db t = ls_db s \<or> ((\<exists>x\<in>set (db_links (ls_db s)). l_ID x = i \<and> (adm \<or> l_CreatedBy x = u)) \<and>
    ls_db t = (ls_db s)\<lparr>db_links := delete_rows (\<lambda>r. l_ID r = i) (db_links (ls_db s))\<rparr>)"
  using assms by (auto simp: LinkService_Delete_def GetByID_Inr split: sum.splits if_splits)

lemma folder_create_writes:
  assumes "FolderService_Create ff now uuid n c u d = (d', res)"
  shows "d' = d \<or> (\<exists>f. res = Inr f \<and> f_CreatedBy f = u \<and> distinct (map f_ID (db_folders d @ [f])) \<and> d' = d\<lparr>db_folders := db_folders d @ [f]\<rparr>)"
  using assms by (auto simp: FolderService_Create_def Let_def insert_row_Some split: if_splits option.splits)

lemma folder_update_writes:
  assumes "FolderService_Update ff i req u adm d = (d', res)"
  shows "d' = d \<or> (\<exists>g :: folder. (\<exists>f\<in>set (db_folders d). f_ID f = f_ID g \<and> (adm \<or> f_CreatedBy f = u)) \<and>
    d' = d\<lparr>db_folders := update_rows (\<lambda>r. f_ID r = f_ID g) (\<lambda>r. r\<lparr>f_Name := f_Name g, f_Color := f_Color g\<rparr>) (db_folders d)\<rparr>)"
proof (cases res)
  case (Inl e)
  then show ?thesis using Folder_Update_error assms by blast
next
  case (Inr h)
  with assms Folder_Update_done obtain f g where f: "find (\<lambda>f. f_ID f = i) (db_folders d) = Some f"
    "adm \<or> f_CreatedBy f = u" "renamed req f = Inr g" "h = recoloured req g"
    "d' = d\<lparr>db_folders := update_rows (\<lambda>r. f_ID r = f_ID h) (\<lambda>r. r\<lparr>f_Name := f_Name h, f_Color := f_Color h\<rparr>) (db_folders d)\<rparr>"
    by blast
  then have "f_ID f = f_ID h" "f \<in> set (db_folders d)" using renamed_same [OF f(3)] find_Some_in [OF f(1)] by auto
  with f(2) have "\<exists>f\<in>set (db_folders d). f_ID f = f_ID h \<and> (adm \<or> f_CreatedBy f = u)" by blast
  from conjI [OF this f(5)] show ?thesis by (intro disjI2) (rule exI [of _ h])
qed

lemma folder_delete_writes:
  assumes "FolderService_Delete ff i u adm d = (d', res)" and "distinct (map f_ID (db_folders d))"
  shows "d' = d \<or> ((\<exists>f\<in>set (db_folders d). f_ID f = i \<and> (adm \<or> f_CreatedBy f = u)) \<and>
    d' = release_links i (d\<lparr>db_folders := delete_rows (\<lambda>r. f_ID r = i) (db_folders d)\<rparr>))"
  using assms owned_delete_Some [OF assms(2)]
  by (fastforce simp: FolderService_Delete_def may_touch_def split: if_splits option.splits)

lemma domain_create_writes:
  assumes "DomainService_Create df now uuid n u d = (d', res)"
  shows "d' = d \<or> (\<exists>c. res = Inr c \<and> cd_CreatedBy c = u \<and> distinct (map cd_ID (db_custom_domains d @ [c])) \<and>
    distinct (map cd_Domain (db_custom_domains d @ [c])) \<and> d' = d\<lparr>db_custom_domains := db_custom_domains d @ [c]\<rparr>)"
  using assms by (auto simp: DomainService_Create_def Let_def insert_row_Some split: if_splits option.splits)

lemma domain_delete_writes:
  assumes "DomainService_Delete df i u adm d = (d', res)" and "distinct (map cd_ID (db_custom_domains d))"
  shows "d' = d \<or> ((\<exists>c\<in>set (db_custom_domains d). cd_ID c = i \<and> (adm \<or> cd_CreatedBy c = u)) \<and>
    d' = d\<lparr>db_custom_domains := delete_rows (\<lambda>r. cd_ID r = i) (db_custom_domains d)\<rparr>)"
  using assms owned_delete_Some [OF assms(2)]
  by (fastforce simp: DomainService_Delete_def may_touch_def split: if_splits option.splits)

lemma key_create_writes:
  assumes "APIKey_create kf sha now uuid rnd n u oidc d = (d', res)"
  shows "d' = d \<or> (\<exists>k raw. res = Inr (k, raw) \<and> ak_UserID k = u \<and> distinct (map ak_ID (db_api_keys d @ [k])) \<and> d' = d\<lparr>db_api_keys := db_api_keys d @ [k]\<rparr>)"
  using assms by (auto simp: APIKey_create_def Let_def insert_row_Some split: if_splits option.splits)

lemma key_delete_writes:
  assumes "APIKeyService_Delete kf i u adm d = (d', res)" and "distinct (map ak_ID (db_api_keys d))"
  shows "d' = d \<or> ((\<exists>k\<in>set (db_api_keys d). ak_ID k = i \<and> (adm \<or> ak_UserID k = u)) \<and>
    d' = d\<lparr>db_api_keys := delete_rows (\<lambda>r. ak_ID r = i) (db_api_keys d)\<rparr>)"
  using assms owned_delete_Some [OF assms(2)]
  by (fastforce simp: APIKeyService_Delete_def may_touch_def split: if_splits option.splits)

lemma key_use_writes:
  assumes "ValidateKey kf sha f now tok d = (d', res)"
  shows "d' = d \<or> (\<exists>i t. d' = d\<lparr>db_api_keys := update_rows (\<lambda>r. ak_ID r = i) (\<lambda>r. r\<lparr>ak_LastUsedAt := Some t\<rparr>) (db_api_keys d)\<rparr>)"
  using assms by (fastforce simp: ValidateKey_def Let_def split: if_splits sum.splits sql_error.splits)

lemma webhook_create_writes:
  assumes "WebhookService_Create whf rslv now uuid sec req u d = (d', res)"
  shows "d' = d \<or> (\<exists>w. res = Inr w \<and> wh_UserID w = u \<and> distinct (map wh_ID (db_webhooks d @ [w])) \<and> d' = d\<lparr>db_webhooks := db_webhooks d @ [w]\<rparr>)"
  using assms by (auto simp: WebhookService_Create_def Let_def insert_row_Some split: if_splits option.splits sum.splits)

lemma webhook_delete_writes:
  assumes "WebhookService_Delete whf i u adm d = (d', res)" and "distinct (map wh_ID (db_webhooks d))"
  shows "d' = d \<or> ((\<exists>w\<in>set (db_webhooks d). wh_ID w = i \<and> (adm \<or> wh_UserID w = u)) \<and>
    d' = d\<lparr>db_webhooks := delete_rows (\<lambda>r. wh_ID r = i) (db_webhooks d)\<rparr>)"
  using assms owned_delete_Some [OF assms(2)]
  by (fastforce simp: WebhookService_Delete_def may_touch_def split: if_splits option.splits)

section \<open>The tables are well-typed\<close>

text \<open>The keys of the tables a request may write.\<close>

definition tables_ok :: "db \<Rightarrow> bool" where
  "tables_ok d \<longleftrightarrow> links_ok (db_links d) \<and> distinct (map f_ID (db_folders d)) \<and>
     distinct (map cd_ID (db_custom_domains d)) \<and> distinct (map cd_Domain (db_custom_domains d)) \<and>
     distinct (map ak_ID (db_api_keys d)) \<and> distinct (map wh_ID (db_webhooks d))"

text \<open>A destination the cleaner produced, under the policy of the instance.\<close>

definition cleaned :: "config \<Rightarrow> string \<Rightarrow> bool" where
  "cleaned cfg u \<longleftrightarrow> (\<exists>raw stripped. CleanURL (cfg_AllowPrivateTargets cfg) (cfg_PublicHost cfg) raw = Inr (u, stripped))"

definition typed_link :: "config \<Rightarrow> link \<Rightarrow> bool" where
  "typed_link cfg l \<longleftrightarrow> ValidateCustomSlug (l_Slug l) = None \<and> l_RedirectType l \<in> {301, 302} \<and>
     cleaned cfg (l_TargetURL l) \<and> (l_IOSURL l = [] \<or> cleaned cfg (l_IOSURL l)) \<and>
     (l_AndroidURL l = [] \<or> cleaned cfg (l_AndroidURL l)) \<and> 0 \<le> l_ClickCount l"

definition typed_db :: "config \<Rightarrow> db \<Rightarrow> bool" where
  "typed_db cfg d \<longleftrightarrow> tables_ok d \<and> (\<forall>l\<in>set (db_links d). typed_link cfg l)"

lemma cleanedI: "CleanURL (ls_allowPrivate (link_cfg_of cfg)) (ls_ownHost (link_cfg_of cfg)) raw = Inr (u, st) \<Longrightarrow> cleaned cfg u"
  by (auto simp: cleaned_def link_cfg_of_def)

lemma set_update_cases: "x \<in> set (update_rows p f rs) \<Longrightarrow> \<exists>r\<in>set rs. x = r \<or> p r \<and> x = f r"
  using update_rows_img [of x p f rs] by (auto split: if_splits)

lemma typed_same:
  "l_Slug l' = l_Slug l \<Longrightarrow> l_RedirectType l' = l_RedirectType l \<Longrightarrow> l_TargetURL l' = l_TargetURL l \<Longrightarrow>
   l_IOSURL l' = l_IOSURL l \<Longrightarrow> l_AndroidURL l' = l_AndroidURL l \<Longrightarrow> l_ClickCount l \<le> l_ClickCount l' \<Longrightarrow>
   typed_link cfg l \<Longrightarrow> typed_link cfg l'"
  by (auto simp: typed_link_def)

lemma new_link_typed:
  assumes "prepare_link (link_cfg_of cfg) env req u d = Inr (l, stripped)"
  shows "typed_link cfg l"
proof -
  obtain slug target pin where p:
    "CleanURL (cfg_AllowPrivateTargets cfg) (cfg_PublicHost cfg) (cr_URL req) = Inr (target, stripped)"
    "choose_slug env (to_lower (trim_space (cr_Domain req))) (cr_CustomSlug req) d = Inr slug"
    "l = new_link (link_cfg_of cfg) env req u target slug pin"
    using prepare_linkD [OF assms] by (metis link_cfg.select_convs(1,2) link_cfg_of_def)
  have "clean_optional (link_cfg_of cfg) raw = [] \<or> cleaned cfg (clean_optional (link_cfg_of cfg) raw)" for raw
    by (auto simp: clean_optional_def cleaned_def link_cfg_of_def split: sum.splits)
  then show ?thesis using p choose_slug_valid [OF p(2)]
    by (auto simp: typed_link_def new_link_def Let_def cleaned_def)
qed

lemma untyped_edits:
  assumes "f \<in> {edit_title req, edit_folder env d req who adm, edit_tags req, edit_pin env req, edit_expiry now req,
      edit_budget req, edit_active req, edit_routing req}" and "f x = Inr y"
  shows "l_Slug y = l_Slug x \<and> l_RedirectType y = l_RedirectType x \<and> l_TargetURL y = l_TargetURL x \<and>
    l_IOSURL y = l_IOSURL x \<and> l_AndroidURL y = l_AndroidURL x \<and> l_ClickCount y = l_ClickCount x"
  using assms
  by (auto simp: edit_title_def edit_folder_def edit_tags_def edit_pin_def edit_expiry_def edit_budget_def
      edit_active_def edit_routing_def Let_def split: option.splits if_splits sum.splits)

lemma typed_edits:
  assumes "f \<in> {edit_target (link_cfg_of cfg) env d req, edit_redirect req, edit_ios (link_cfg_of cfg) req,
      edit_android (link_cfg_of cfg) req}" and "f x = Inr y" and "typed_link cfg x"
  shows "typed_link cfg y"
proof -
  have dev: "u = [] \<or> cleaned cfg u" if "device_target (link_cfg_of cfg) err raw = Inr u" for err raw u
    using that by (auto simp: device_target_def Let_def dest!: cleanedI split: if_splits sum.splits)
  from assms(1) consider "f = edit_target (link_cfg_of cfg) env d req" | "f = edit_redirect req"
    | "f = edit_ios (link_cfg_of cfg) req" | "f = edit_android (link_cfg_of cfg) req" by blast
  then show ?thesis
  proof cases
    case 1
    with assms(2,3) show ?thesis
      by (auto simp: edit_target_def typed_link_def dest!: cleanedI split: option.splits sum.splits)
  next
    case 2
    with assms(2,3) show ?thesis by (auto simp: edit_redirect_def typed_link_def split: option.splits if_splits)
  next
    case 3
    with assms(2,3) show ?thesis
      by (auto simp: edit_ios_def typed_link_def dest!: dev split: option.splits sum.splits)
  next
    case 4
    with assms(2,3) show ?thesis
      by (auto simp: edit_android_def typed_link_def dest!: dev split: option.splits sum.splits)
  qed
qed

lemma edits_typed:
  assumes "f \<in> set (edits (link_cfg_of cfg) env d req who adm)" and "f x = Inr y" and "typed_link cfg x"
  shows "typed_link cfg y"
proof (cases "f \<in> {edit_target (link_cfg_of cfg) env d req, edit_redirect req, edit_ios (link_cfg_of cfg) req,
      edit_android (link_cfg_of cfg) req}")
  case True
  then show ?thesis using assms(2,3) by (rule typed_edits)
next
  case False
  then have "f \<in> {edit_title req, edit_folder env d req who adm, edit_tags req, edit_pin env req,
      edit_expiry (le_now env) req, edit_budget req, edit_active req, edit_routing req}"
    using assms(1) by (auto simp: edits_def)
  from untyped_edits [OF this assms(2)] show ?thesis
    by (intro typed_same [OF _ _ _ _ _ _ assms(3)]) simp_all
qed

lemma Update_typed:
  assumes u: "LinkService_Update (link_cfg_of cfg) env i req who adm s = (s', Inr l)"
    and ok: "typed_db cfg (ls_db s)"
  shows "typed_link cfg l"
proof -
  have links: "links_ok (db_links (ls_db s))" using ok by (simp add: typed_db_def tables_ok_def)
  obtain l0 l1 where l: "GetByID env i (ls_db s) = Inr l0" "l = l1\<lparr>l_UpdatedAt := unix (le_now env)\<rparr>"
    "run_edits (edits (link_cfg_of cfg) env (ls_db s) req who adm) l0 = Inr l1"
    using u by (auto simp: LinkService_Update_def Let_def split: sum.splits if_splits)
  obtain x where x: "x \<in> set (db_links (ls_db s))" "l0 = scan_link x" using l(1) links by (auto simp: GetByID_Inr)
  have "typed_link cfg x" using ok x(1) by (simp add: typed_db_def)
  then have "typed_link cfg l0" by (rule typed_same [rotated -1]) (simp_all add: x(2) scan_link_def)
  then have "typed_link cfg l1"
    using run_edits_rel [OF l(3), of "\<lambda>x y. typed_link cfg x \<longrightarrow> typed_link cfg y"] edits_typed by blast
  then show ?thesis by (rule typed_same [rotated -1]) (simp_all add: l(2))
qed

lemma tables_ok_simps: "tables_ok (d\<lparr>db_links := rs\<rparr>) \<longleftrightarrow> links_ok rs \<and> tables_ok (d\<lparr>db_links := []\<rparr>)"
  "tables_ok (d\<lparr>db_links := []\<rparr>) \<longleftrightarrow> distinct (map f_ID (db_folders d)) \<and>
     distinct (map cd_ID (db_custom_domains d)) \<and> distinct (map cd_Domain (db_custom_domains d)) \<and>
     distinct (map ak_ID (db_api_keys d)) \<and> distinct (map wh_ID (db_webhooks d))"
  by (auto simp: tables_ok_def links_ok_def)

lemma map_update_key: "(\<And>r. g (f r) = g r) \<Longrightarrow> map g (update_rows p f rs) = map g rs"
  by (rule map_update_rows_inv)

lemma typed_row_update:
  assumes "typed_db cfg d" and "\<And>l. l_ID (f l) = l_ID l \<and> link_key (f l) = link_key l"
    and "\<And>l. typed_link cfg l \<Longrightarrow> typed_link cfg (f l)"
  shows "typed_db cfg (d\<lparr>db_links := update_rows p f (db_links d)\<rparr>)"
proof -
  have "links_ok (update_rows p f (db_links d))" using assms(1,2) by (simp add: typed_db_def tables_ok_def links_ok_update)
  moreover have "typed_link cfg l" if "l \<in> set (update_rows p f (db_links d))" for l
    using set_update_cases [OF that] assms(1,3) by (auto simp: typed_db_def)
  ultimately show ?thesis using assms(1) by (simp add: typed_db_def tables_ok_def)
qed

interpretation typing: db_contract cfg "typed_db cfg" "\<lambda>u adm. True" "\<lambda>new old. True" for cfg
proof
  fix env req u s t res adm
  assume a: "LinkService_Create (link_cfg_of cfg) env req u s = (t, res)" "typed_db cfg (ls_db s)"
  show "typed_db cfg (ls_db t)"
    using create_writes [OF a(1)] a(2) new_link_typed
    by (auto simp: typed_db_def tables_ok_def)
next
  fix env i ureq u adm s t ures
  assume a: "LinkService_Update (link_cfg_of cfg) env i ureq u adm s = (t, ures)" "typed_db cfg (ls_db s)"
  have links: "links_ok (db_links (ls_db s))" using a(2) by (simp add: typed_db_def tables_ok_def)
  show "typed_db cfg (ls_db t)"
    using update_writes [OF a(1) links]
  proof (elim disjE exE conjE)
    fix l assume l: "ures = Inr l"
      "ls_db t = (ls_db s)\<lparr>db_links := update_rows (\<lambda>r. l_ID r = i) (write_columns l) (db_links (ls_db s))\<rparr>"
    have "typed_link cfg l" using Update_typed a l(1) by blast
    then have "typed_link cfg x \<Longrightarrow> typed_link cfg (write_columns l x)" for x
      by (simp add: typed_link_def write_columns_def)
    then show ?thesis unfolding l(2) using a(2) by (intro typed_row_update) simp_all
  qed (use a(2) in simp)
next
  fix env i u adm s t dres
  assume a: "LinkService_Delete (link_cfg_of cfg) env i u adm s = (t, dres)" "typed_db cfg (ls_db s)"
  have links: "links_ok (db_links (ls_db s))" using a(2) by (simp add: typed_db_def tables_ok_def)
  show "typed_db cfg (ls_db t)"
    using delete_writes [OF a(1) links] a(2) links_ok_delete [OF links]
    by (auto simp: typed_db_def tables_ok_def set_delete_rows)
next
  fix env i dm slug v s t evs
  assume a: "RecordClick (link_cfg_of cfg) env i dm slug v s = (t, evs)" "typed_db cfg (ls_db s)"
  have links: "links_ok (db_links (ls_db s))" using a(2) by (simp add: typed_db_def tables_ok_def)
  obtain f where f: "harmless f" "owner_kept f"
    "ls_db t = (ls_db s)\<lparr>db_links := update_rows (\<lambda>r. l_ID r = i) f (db_links (ls_db s))\<rparr>"
    using RecordClick_shape [OF links a(1)] by blast
  have "typed_link cfg (f l)" if "typed_link cfg l" for l
  proof -
    have u: "uncounted (scan_link l) = uncounted (scan_link (f l))" using f(1) by (simp add: harmless_def serves_as_def)
    show ?thesis using that f(2) arg_cong [OF u, of l_Slug] arg_cong [OF u, of l_RedirectType]
        arg_cong [OF u, of l_TargetURL] arg_cong [OF u, of l_IOSURL] arg_cong [OF u, of l_AndroidURL]
      by (intro typed_same [of "f l" l]) (simp_all add: uncounted_def scan_link_def owner_kept_def)
  qed
  then show "typed_db cfg (ls_db t)" unfolding f(3) using a(2) f(1)
    by (intro typed_row_update) (auto simp: harmless_def)
next
  fix ff i u adm d d' ferr
  assume a: "FolderService_Delete ff i u adm d = (d', ferr)" "typed_db cfg d"
  have "distinct (map f_ID (db_folders d))" using a(2) by (simp add: typed_db_def tables_ok_def)
  from folder_delete_writes [OF a(1) this] show "typed_db cfg d'"
  proof (elim disjE conjE)
    assume d': "d' = release_links i (d\<lparr>db_folders := delete_rows (\<lambda>r. f_ID r = i) (db_folders d)\<rparr>)"
    have "typed_db cfg (d\<lparr>db_folders := delete_rows (\<lambda>r. f_ID r = i) (db_folders d)\<rparr>)"
      using a(2) by (auto simp: typed_db_def tables_ok_def)
    then show ?thesis unfolding d' release_links_def
      by (rule typed_row_update) (simp_all add: link_key_def typed_link_def)
  qed (use a(2) in simp)
next
  fix df i u adm d d' derr
  assume a: "DomainService_Delete df i u adm d = (d', derr)" "typed_db cfg d"
  show "typed_db cfg d'" using domain_delete_writes [OF a(1)] a(2) by (auto simp: typed_db_def tables_ok_def)
next
  fix kf i u adm d d' kerr
  assume a: "APIKeyService_Delete kf i u adm d = (d', kerr)" "typed_db cfg d"
  show "typed_db cfg d'" using key_delete_writes [OF a(1)] a(2) by (auto simp: typed_db_def tables_ok_def)
next
  fix whf i u adm d d' werr
  assume a: "WebhookService_Delete whf i u adm d = (d', werr)" "typed_db cfg d"
  show "typed_db cfg d'" using webhook_delete_writes [OF a(1)] a(2) by (auto simp: typed_db_def tables_ok_def)
next
  fix d new old tab
  assume a: "typed_db cfg d"
  show "typed_db cfg (adopt_table tab new old d)"
  proof (cases tab)
    case Adopt_links
    then show ?thesis unfolding adopt_table_def using typed_row_update [OF a]
      by (simp add: link_key_def typed_link_def)
  qed (use a in \<open>simp_all add: adopt_table_def typed_db_def tables_ok_def map_update_key\<close>)
qed (auto simp: typed_db_def tables_ok_def map_update_key
    dest!: folder_create_writes folder_update_writes domain_create_writes key_create_writes key_use_writes webhook_create_writes)

section \<open>The program running\<close>

text \<open>No handler touches the configuration.\<close>

definition steady :: "handler \<Rightarrow> bool" where
  "steady h \<longleftrightarrow> (\<forall>env r ap. app_cfg (fst (h env r ap)) = app_cfg ap)"

lemma steadyI: "(\<And>env r ap. app_cfg (fst (h env r ap)) = app_cfg ap) \<Longrightarrow> steady h"
  by (simp add: steady_def)

lemma app_cfg_updates [simp]: "app_cfg (ap\<lparr>ap_clicks := c\<rparr>) = app_cfg ap" "app_cfg (ap\<lparr>ap_guard := g\<rparr>) = app_cfg ap"
  "app_cfg (ap\<lparr>ap_events := es\<rparr>) = app_cfg ap" "app_cfg (ap\<lparr>ap_auth := a\<rparr>) = au_cfg a"
  by (simp_all add: app_cfg_def)

lemma steady_session: "(\<And>s. steady (k s)) \<Longrightarrow> steady (with_session k)"
proof (rule steadyI)
  fix env r ap
  assume "\<And>s. steady (k s)"
  then show "app_cfg (fst (with_session k env r ap)) = app_cfg ap"
    using getAuthSession_cfg [of env r ap]
    by (cases "getAuthSession env r ap") (auto simp: with_session_def steady_def split: option.splits)
qed

lemma steady_cookie: "(\<And>s. steady (k s)) \<Longrightarrow> steady (with_cookie k)"
proof (rule steadyI)
  fix env r ap
  assume "\<And>s. steady (k s)"
  then show "app_cfg (fst (with_cookie k env r ap)) = app_cfg ap"
    using cookie_caller_cfg [of env r ap]
    by (cases "cookie_caller env r ap") (auto simp: with_cookie_def steady_def split: option.splits)
qed

lemma page_cfg [simp]: "app_cfg (fst (page code body env r ap)) = app_cfg ap"
  using getAuthSession_cfg [of env r ap]
  by (cases "getAuthSession env r ap") (auto simp: page_def cabecera_def split: option.splits)

lemma steady_api: "steady CreateLink" "steady ListLinks" "steady (GetLink i)" "steady (UpdateLink i)"
  "steady (DeleteLink i)" "steady BulkImport" "steady (LinkQR i)" "steady ListKeys" "steady CreateKey"
  "steady (DeleteKey i)" "steady ListDomains" "steady CreateDomain" "steady (DeleteDomain i)" "steady ListFolders"
  "steady CreateFolder" "steady (UpdateFolder i)" "steady (DeleteFolder i)" "steady ListWebhooks" "steady CreateWebhook"
  "steady (DeleteWebhook i)"
  unfolding CreateLink_def ListLinks_def GetLink_def UpdateLink_def DeleteLink_def BulkImport_def LinkQR_def
    ListKeys_def CreateKey_def DeleteKey_def ListDomains_def CreateDomain_def DeleteDomain_def
    ListFolders_def CreateFolder_def UpdateFolder_def DeleteFolder_def ListWebhooks_def CreateWebhook_def
    DeleteWebhook_def Let_def
  by (rule steady_session, rule steadyI, simp split: option.splits sum.splits prod.splits)+

lemma steady_forms: "steady ShowSettings" "steady CreateAPIKeyForm" "steady CreateDomainForm" "steady CreateWebhookForm"
  "steady HandleCreateForm"
  unfolding ShowSettings_def CreateAPIKeyForm_def CreateDomainForm_def CreateWebhookForm_def HandleCreateForm_def Let_def
  by (rule steady_cookie, rule steadyI, simp split: option.splits sum.splits prod.splits)+

lemma steady_others: "steady CleanPreview" "steady healthz" "steady health" "steady (static_file version)" "steady Callback"
  "steady Logout" "steady (Redirect t)" "steady (Preview t)" "steady (ShowForm t)" "steady (Verify t)"
  by (rule steadyI, simp add: CleanPreview_def healthz_def health_def static_file_def Callback_def Logout_def
      Redirect_def Preview_def ShowForm_def Verify_def not_found_def expired_page_def missing_page_def Let_def
      split: option.splits sum.splits prod.splits bool.splits if_splits)+

lemma steady_callers: "steady ExportLinks" "steady Dashboard" "steady Me" "steady Login" "steady BackchannelLogoutHandler"
proof -
  have g: "app_cfg a = app_cfg ap" if "getAuthSession env r ap = (a, so)" for env r ap a so
    using getAuthSession_cfg [of env r ap] that by simp
  show "steady ExportLinks"
    by (rule steadyI) (auto simp: ExportLinks_def dest: g split: option.splits sum.splits prod.splits)
  have c: "app_cfg a = app_cfg ap" if "cookie_caller env r ap = (a, so)" for env r ap a so
    using cookie_caller_cfg [of env r ap] that by simp
  show "steady Dashboard" "steady Me"
    by (rule steadyI, auto simp: Dashboard_def Me_def Let_def dest: c split: option.splits prod.splits)+
  show "steady Login"
    by (rule steadyI) (auto simp: Login_def Let_def GetAuthURL_def app_cfg_def dest: reinit_cfg
        split: option.splits sum.splits prod.splits if_splits)
  show "steady BackchannelLogoutHandler"
    by (rule steadyI) (auto simp: BackchannelLogoutHandler_def BackchannelLogout_def app_cfg_def Let_def dest: provider_cfg
        split: option.splits list.splits sum.splits prod.splits if_splits)
qed

lemma serve_http_cfg: "app_cfg (fst (serve_http mux miss version env r ap)) = app_cfg ap"
proof (cases "mux route_table (rq_Method r) (segments (rq_Path r))")
  case (Some q)
  obtain e vals where q: "q = (e, vals)" by (cases q)
  have h: "app_cfg (fst (handler_of miss version e (concat vals) env r ap)) = app_cfg ap" for ap
  proof (cases "e = E_auth_other \<or> e = E_api_other")
    case False
    then have "steady (handler_of miss version e (concat vals))"
      by (cases e) (simp_all add: handler_of_def steady_api steady_forms steady_others steady_callers)
    then show ?thesis by (simp add: steady_def)
  qed (auto simp: handler_of_def)
  obtain ap1 so where g: "getAuthSession env r ap = (ap1, so)" by (metis prod.collapse)
  have "app_cfg (fst (limited miss version e (concat vals) env r ap)) = app_cfg ap"
    using h getAuthSession_cfg [of env r ap] g
    by (simp add: limited_def WriteRateLimit_def split: option.splits prod.splits bool.splits)
  then show ?thesis using Some q
    by (cases "limited miss version e (concat vals) env r ap") (simp add: serve_http_def)
qed (simp add: serve_http_def)

text \<open>
  The program from a state on: requests are served, the goroutines of the clicks run, and the
  queued events are delivered, in any order. \<open>others\<close> bounds what the rest of the world does to
  the database while a request waits for the identity provider.
\<close>

inductive app_run :: "mux \<Rightarrow> miss \<Rightarrow> string \<Rightarrow> ((db \<Rightarrow> db) \<Rightarrow> bool) \<Rightarrow> app \<Rightarrow> app \<Rightarrow> bool"
  for mux miss version others a0 where
  started: "app_run mux miss version others a0 a0"
| request: "app_run mux miss version others a0 a \<Longrightarrow> others (ae_Meanwhile (en_auth env)) \<Longrightarrow>
    serve_http mux miss version env r a = (b, rs) \<Longrightarrow> app_run mux miss version others a0 b"
| clicked: "app_run mux miss version others a0 a \<Longrightarrow> (i, dm, slug, v) \<in> set (ap_clicks a) \<Longrightarrow>
    RecordClick (link_cfg_of (app_cfg a)) env i dm slug v (ap_svc a) = (svc, evs) \<Longrightarrow>
    app_run mux miss version others a0 (a\<lparr>ap_svc := svc, ap_clicks := remove1 (i, dm, slug, v) (ap_clicks a),
      ap_events := ap_events a @ evs\<rparr>)"
| delivered: "app_run mux miss version others a0 a \<Longrightarrow> ev \<in> set (ap_events a) \<Longrightarrow>
    app_run mux miss version others a0 (a\<lparr>ap_events := remove1 ev (ap_events a)\<rparr>)"

inductive_cases app_run_startedE: "app_run mux miss version others a a"

text \<open>
  Claim C7. What the database holds, in every state the program reaches from a well-typed
  database: ids are unique, so is each slug in its domain; every stored slug satisfies the rules
  of a custom slug, every redirect is a 301 or a 302, every target (and every iOS or Android
  target) is a URL the cleaner of this instance produced, and no counter of clicks is negative.
\<close>

theorem stored_links_are_typed:
  assumes "app_run mux miss version others (main_app rnd env0 cfg d0) ap" and "typed_db cfg d0"
    and "\<And>f d. others f \<Longrightarrow> typed_db cfg d \<Longrightarrow> typed_db cfg (f d)"
  shows "typed_db cfg (app_db ap)"
proof -
  from assms(1) have "app_cfg ap = cfg \<and> typed_db cfg (app_db ap)"
  proof induction
    case (request a env r b rs)
    have "rely (typed_db cfg) env" using request.hyps(2) assms(3) by (simp add: rely_def)
    then show ?case using request.IH request.hyps(3) serve_http_cfg [of mux miss version env r a]
        typing.serve_http_keeps [of a cfg env r mux miss version] by (simp add: caller_may_def)
  next
    case (clicked a i dm slug v env svc evs)
    then show ?case using typing.link_click [of cfg env i dm slug v "ap_svc a" svc evs]
      by (simp add: app_db_def app_cfg_def)
  qed (use assms(2) in simp_all)
  then show ?thesis by simp
qed

theorem stored_links_are_typed_witness:
  "typed_db example_oidc (app_db (fst (serve_http example_mux (\<lambda>r. http_error 404 R_empty) ''v1'' example_request_env
     signed_in (main_app (\<lambda>x. x) example_auth example_oidc login_db))))"
proof -
  let ?a0 = "main_app (\<lambda>x. x) example_auth example_oidc login_db"
  have "ae_Meanwhile (en_auth example_request_env) = (\<lambda>d. d)" by (simp add: example_request_env_def example_auth_def)
  then have "app_run example_mux (\<lambda>r. http_error 404 R_empty) ''v1'' (\<lambda>f. f = (\<lambda>d. d)) ?a0
      (fst (serve_http example_mux (\<lambda>r. http_error 404 R_empty) ''v1'' example_request_env signed_in ?a0))"
    by (intro app_run.request [OF app_run.started, where env = example_request_env and r = signed_in]) (auto simp: prod_eq_iff)
  moreover have "typed_db example_oidc login_db"
    by (simp add: typed_db_def tables_ok_def links_ok_def login_db_def)
  ultimately show ?thesis by (rule stored_links_are_typed) simp
qed

end
