(* ===== verification/Tenancy.thy ===== *)
theory Tenancy
  imports Requests
begin

text \<open>
  Who may do what: no request changes the rows of another owner, the API shows a caller its own
  rows only and never a secret, and without a caller the API and the forms do nothing.
\<close>

section \<open>The rows of an owner\<close>

text \<open>A link up to the counters of clicks and its folder, which other people's visits and the deletion
  of the folder change; a key up to the time of its last use.\<close>

definition own_part :: "link \<Rightarrow> link" where
  "own_part l = (uncounted (scan_link l))\<lparr>l_CreatedBy := l_CreatedBy l\<rparr>"

definition unused_key :: "api_key \<Rightarrow> api_key" where "unused_key k = k\<lparr>ak_LastUsedAt := None\<rparr>"

definition rows_of ::
  "string \<Rightarrow> db \<Rightarrow> link set \<times> folder set \<times> custom_domain set \<times> api_key set \<times> webhook set" where
  "rows_of v d =
     (own_part ` {l \<in> set (db_links d). l_CreatedBy l = v}, {f \<in> set (db_folders d). f_CreatedBy f = v},
      {c \<in> set (db_custom_domains d). cd_CreatedBy c = v}, unused_key ` {k \<in> set (db_api_keys d). ak_UserID k = v},
      {w \<in> set (db_webhooks d). wh_UserID w = v})"

definition holds_rows :: "string \<Rightarrow> db \<Rightarrow> db \<Rightarrow> bool" where
  "holds_rows v d0 d \<longleftrightarrow> tables_ok d \<and> rows_of v d = rows_of v d0"

lemma owned_update:
  assumes "\<And>r. r \<in> set rs \<Longrightarrow> p r \<Longrightarrow> owner r \<noteq> v \<and> owner (f r) \<noteq> v"
  shows "{r \<in> set (update_rows p f rs). owner r = v} = {r \<in> set rs. owner r = v}"
  using assms by (auto simp: set_update_rows)

lemma owned_delete_rows:
  assumes "\<And>r. r \<in> set rs \<Longrightarrow> p r \<Longrightarrow> owner r \<noteq> v"
  shows "{r \<in> set (delete_rows p rs). owner r = v} = {r \<in> set rs. owner r = v}"
  using assms by (auto simp: set_delete_rows)

lemma owned_image:
  assumes "\<And>r. owner (f r) = owner r" and "\<And>r. g (f r) = g r"
  shows "g ` {r \<in> set (update_rows p f rs). owner r = v} = g ` {r \<in> set rs. owner r = v}"
proof -
  have "{r \<in> set (update_rows p f rs). owner r = v} = (\<lambda>r. if p r then f r else r) ` {r \<in> set rs. owner r = v}"
    using assms(1) by (auto simp: update_rows_def)
  moreover have "g (if p r then f r else r) = g r" for r using assms(2) by simp
  ultimately show ?thesis by (simp only: image_image)
qed

lemma unique_row:
  assumes "distinct (map g rs)" and "x \<in> set rs" and "g x = i" and "r \<in> set rs" and "g r = i"
  shows "r = x"
  using distinct_map_inj [OF assms(1,4,2)] assms(3,5) by simp

text \<open>Statements on the row of a key, when that row is not the owner's.\<close>

lemma owned_delete_key:
  assumes "distinct (map g rs)" and "x \<in> set rs" and "g x = i" and "owner x \<noteq> v"
  shows "{r \<in> set (delete_rows (\<lambda>r. g r = i) rs). owner r = v} = {r \<in> set rs. owner r = v}"
  using unique_row [OF assms(1-3)] assms(4) by (intro owned_delete_rows) auto

lemma owned_update_key:
  assumes "distinct (map g rs)" and "x \<in> set rs" and "g x = i" and "owner x \<noteq> v" and "\<And>r. owner (f r) = owner r"
  shows "{r \<in> set (update_rows (\<lambda>r. g r = i) f rs). owner r = v} = {r \<in> set rs. owner r = v}"
  using unique_row [OF assms(1-3)] assms(4,5) by (intro owned_update) auto

lemma own_part_harmless:
  assumes "harmless f" and "owner_kept f"
  shows "own_part (f l) = own_part l"
proof -
  have "uncounted (scan_link (f l)) = uncounted (scan_link l)" using assms(1) by (simp add: harmless_def serves_as_def)
  then show ?thesis using assms(2) by (simp add: own_part_def owner_kept_def)
qed

lemma holds_links:
  assumes "holds_rows v d0 d" and "links_ok rs"
    and "own_part ` {l \<in> set rs. l_CreatedBy l = v} = own_part ` {l \<in> set (db_links d). l_CreatedBy l = v}"
  shows "holds_rows v d0 (d\<lparr>db_links := rs\<rparr>)"
  using assms by (simp add: holds_rows_def tables_ok_def rows_of_def)

lemma holds_links_update:
  assumes "holds_rows v d0 d" and "\<And>l. l_ID (f l) = l_ID l \<and> link_key (f l) = link_key l"
    and "\<And>l. l_CreatedBy (f l) = l_CreatedBy l" and "\<And>l. own_part (f l) = own_part l"
  shows "holds_rows v d0 (d\<lparr>db_links := update_rows p f (db_links d)\<rparr>)"
  using assms by (intro holds_links owned_image links_ok_update) (auto simp: holds_rows_def tables_ok_def)

interpretation tenancy: db_contract cfg "holds_rows v d0" "\<lambda>u adm. u \<noteq> v \<and> \<not> adm" "\<lambda>new old. new \<noteq> v \<and> old \<noteq> v"
  for cfg v d0
proof
  fix env req u s t res and adm :: bool
  assume a: "LinkService_Create (link_cfg_of cfg) env req u s = (t, res)" "holds_rows v d0 (ls_db s)" "u \<noteq> v \<and> \<not> adm"
  from create_writes [OF a(1)] show "holds_rows v d0 (ls_db t)"
  proof (elim disjE exE conjE)
    fix l stripped
    assume l: "prepare_link (link_cfg_of cfg) env req u (ls_db s) = Inr (l, stripped)"
      "links_ok (db_links (ls_db s) @ [l])" "ls_db t = (ls_db s)\<lparr>db_links := db_links (ls_db s) @ [l]\<rparr>"
    have "l_CreatedBy l = u" using prepare_linkD [OF l(1)] by (metis new_link_simps(5))
    then have "{x \<in> set (db_links (ls_db s) @ [l]). l_CreatedBy x = v} = {x \<in> set (db_links (ls_db s)). l_CreatedBy x = v}"
      using a(3) by auto
    then show ?thesis unfolding l(3) using a(2) l(2) by (intro holds_links) simp_all
  qed (use a(2) in simp)
next
  fix env i ureq u and adm :: bool and s t ures
  assume a: "LinkService_Update (link_cfg_of cfg) env i ureq u adm s = (t, ures)" "holds_rows v d0 (ls_db s)"
    "u \<noteq> v \<and> \<not> adm"
  have links: "links_ok (db_links (ls_db s))" and ids: "distinct (map l_ID (db_links (ls_db s)))"
    using a(2) by (simp_all add: holds_rows_def tables_ok_def links_ok_def)
  from update_writes [OF a(1) links] show "holds_rows v d0 (ls_db t)"
  proof (elim disjE [where P = "ls_db t = ls_db s"] exE conjE bexE)
    fix l x assume x: "x \<in> set (db_links (ls_db s))" "l_ID x = i" "adm \<or> l_CreatedBy x = u"
      and t: "ls_db t = (ls_db s)\<lparr>db_links := update_rows (\<lambda>r. l_ID r = i) (write_columns l) (db_links (ls_db s))\<rparr>"
    have "l_CreatedBy x \<noteq> v" using x(3) a(3) by auto
    from owned_update_key [where owner = l_CreatedBy and f = "write_columns l", OF ids x(1,2) this]
    show ?thesis unfolding t using a(2) links by (intro holds_links links_ok_update) simp_all
  qed (use a(2) in simp)
next
  fix env i u and adm :: bool and s t dres
  assume a: "LinkService_Delete (link_cfg_of cfg) env i u adm s = (t, dres)" "holds_rows v d0 (ls_db s)" "u \<noteq> v \<and> \<not> adm"
  have links: "links_ok (db_links (ls_db s))" and ids: "distinct (map l_ID (db_links (ls_db s)))"
    using a(2) by (simp_all add: holds_rows_def tables_ok_def links_ok_def)
  from delete_writes [OF a(1) links] show "holds_rows v d0 (ls_db t)"
  proof (elim disjE [where P = "ls_db t = ls_db s"] exE conjE bexE)
    fix x assume x: "x \<in> set (db_links (ls_db s))" "l_ID x = i" "adm \<or> l_CreatedBy x = u"
      and t: "ls_db t = (ls_db s)\<lparr>db_links := delete_rows (\<lambda>r. l_ID r = i) (db_links (ls_db s))\<rparr>"
    have "l_CreatedBy x \<noteq> v" using x(3) a(3) by auto
    from owned_delete_key [where owner = l_CreatedBy, OF ids x(1,2) this]
    show ?thesis unfolding t using a(2) links by (intro holds_links links_ok_delete) simp_all
  qed (use a(2) in simp)
next
  fix env i dm slug n s t evs
  assume a: "RecordClick (link_cfg_of cfg) env i dm slug n s = (t, evs)" "holds_rows v d0 (ls_db s)"
  have links: "links_ok (db_links (ls_db s))" using a(2) by (simp add: holds_rows_def tables_ok_def)
  obtain f where f: "harmless f" "owner_kept f"
    "ls_db t = (ls_db s)\<lparr>db_links := update_rows (\<lambda>r. l_ID r = i) f (db_links (ls_db s))\<rparr>"
    using RecordClick_shape [OF links a(1)] by blast
  then show "holds_rows v d0 (ls_db t)" unfolding f(3) using a(2) own_part_harmless [OF f(1,2)]
    by (intro holds_links_update) (auto simp: harmless_def owner_kept_def)
next
  fix ff now uuid n c u d d' fres and adm :: bool
  assume a: "FolderService_Create ff now uuid n c u d = (d', fres)" "holds_rows v d0 d" "u \<noteq> v \<and> \<not> adm"
  then show "holds_rows v d0 d'" using folder_create_writes [OF a(1)]
    by (auto simp: holds_rows_def tables_ok_def rows_of_def)
next
  fix ff i freq u and adm :: bool and d d' fres
  assume a: "FolderService_Update ff i freq u adm d = (d', fres)" "holds_rows v d0 d" "u \<noteq> v \<and> \<not> adm"
  from folder_update_writes [OF a(1)] show "holds_rows v d0 d'"
  proof (elim disjE [where P = "d' = d"] exE conjE bexE)
    fix g :: folder and x assume x: "x \<in> set (db_folders d)" "f_ID x = f_ID g" "adm \<or> f_CreatedBy x = u"
      and d': "d' = d\<lparr>db_folders := update_rows (\<lambda>r. f_ID r = f_ID g) (\<lambda>r. r\<lparr>f_Name := f_Name g, f_Color := f_Color g\<rparr>) (db_folders d)\<rparr>"
    have "f_CreatedBy x \<noteq> v" "distinct (map f_ID (db_folders d))"
      using x(3) a(2,3) by (auto simp: holds_rows_def tables_ok_def)
    from owned_update_key [where owner = f_CreatedBy and f = "\<lambda>r. r\<lparr>f_Name := f_Name g, f_Color := f_Color g\<rparr>",
        OF this(2) x(1,2) this(1)]
    show ?thesis unfolding d' using a(2) by (simp add: holds_rows_def tables_ok_def rows_of_def map_update_key)
  qed (use a(2) in simp)
next
  fix ff i u and adm :: bool and d d' ferr
  assume a: "FolderService_Delete ff i u adm d = (d', ferr)" "holds_rows v d0 d" "u \<noteq> v \<and> \<not> adm"
  have ids: "distinct (map f_ID (db_folders d))" using a(2) by (simp add: holds_rows_def tables_ok_def)
  from folder_delete_writes [OF a(1) ids] show "holds_rows v d0 d'"
  proof (elim disjE [where P = "d' = d"] exE conjE bexE)
    fix x assume x: "x \<in> set (db_folders d)" "f_ID x = i" "adm \<or> f_CreatedBy x = u"
      and d': "d' = release_links i (d\<lparr>db_folders := delete_rows (\<lambda>r. f_ID r = i) (db_folders d)\<rparr>)"
    have "f_CreatedBy x \<noteq> v" using x(3) a(3) by auto
    from owned_delete_key [where owner = f_CreatedBy, OF ids x(1,2) this]
    have "holds_rows v d0 (d\<lparr>db_folders := delete_rows (\<lambda>r. f_ID r = i) (db_folders d)\<rparr>)"
      using a(2) by (auto simp: holds_rows_def tables_ok_def rows_of_def)
    then show ?thesis unfolding d' release_links_def
      by (rule holds_links_update) (simp_all add: link_key_def own_part_def uncounted_def scan_link_def)
  qed (use a(2) in simp)
next
  fix df now uuid n u d d' dmres and adm :: bool
  assume a: "DomainService_Create df now uuid n u d = (d', dmres)" "holds_rows v d0 d" "u \<noteq> v \<and> \<not> adm"
  then show "holds_rows v d0 d'" using domain_create_writes [OF a(1)]
    by (auto simp: holds_rows_def tables_ok_def rows_of_def)
next
  fix df i u and adm :: bool and d d' derr
  assume a: "DomainService_Delete df i u adm d = (d', derr)" "holds_rows v d0 d" "u \<noteq> v \<and> \<not> adm"
  have ids: "distinct (map cd_ID (db_custom_domains d))" using a(2) by (simp add: holds_rows_def tables_ok_def)
  from domain_delete_writes [OF a(1) ids] show "holds_rows v d0 d'"
  proof (elim disjE [where P = "d' = d"] exE conjE bexE)
    fix x assume x: "x \<in> set (db_custom_domains d)" "cd_ID x = i" "adm \<or> cd_CreatedBy x = u"
      and d': "d' = d\<lparr>db_custom_domains := delete_rows (\<lambda>r. cd_ID r = i) (db_custom_domains d)\<rparr>"
    have "cd_CreatedBy x \<noteq> v" using x(3) a(3) by auto
    from owned_delete_key [where owner = cd_CreatedBy, OF ids x(1,2) this]
    show ?thesis unfolding d' using a(2) by (auto simp: holds_rows_def tables_ok_def rows_of_def)
  qed (use a(2) in simp)
next
  fix kf sha now uuid rnd n u oidc d d' kres and adm :: bool
  assume a: "APIKey_create kf sha now uuid rnd n u oidc d = (d', kres)" "holds_rows v d0 d" "u \<noteq> v \<and> \<not> adm"
  from key_create_writes [OF a(1)] show "holds_rows v d0 d'"
  proof (elim disjE exE conjE)
    fix k assume k: "ak_UserID k = u" "distinct (map ak_ID (db_api_keys d @ [k]))"
      "d' = d\<lparr>db_api_keys := db_api_keys d @ [k]\<rparr>"
    have "{x \<in> set (db_api_keys d @ [k]). ak_UserID x = v} = {x \<in> set (db_api_keys d). ak_UserID x = v}"
      using k(1) a(3) by auto
    then show ?thesis unfolding k(3) using a(2) k(2) by (simp add: holds_rows_def tables_ok_def rows_of_def)
  qed (use a(2) in simp)
next
  fix kf i u and adm :: bool and d d' kerr
  assume a: "APIKeyService_Delete kf i u adm d = (d', kerr)" "holds_rows v d0 d" "u \<noteq> v \<and> \<not> adm"
  have ids: "distinct (map ak_ID (db_api_keys d))" using a(2) by (simp add: holds_rows_def tables_ok_def)
  from key_delete_writes [OF a(1) ids] show "holds_rows v d0 d'"
  proof (elim disjE [where P = "d' = d"] exE conjE bexE)
    fix x assume x: "x \<in> set (db_api_keys d)" "ak_ID x = i" "adm \<or> ak_UserID x = u"
      and d': "d' = d\<lparr>db_api_keys := delete_rows (\<lambda>r. ak_ID r = i) (db_api_keys d)\<rparr>"
    have "ak_UserID x \<noteq> v" using x(3) a(3) by auto
    from owned_delete_key [where owner = ak_UserID, OF ids x(1,2) this]
    show ?thesis unfolding d' using a(2) by (auto simp: holds_rows_def tables_ok_def rows_of_def)
  qed (use a(2) in simp)
next
  fix kf sha f now tok d d' vres
  assume a: "ValidateKey kf sha f now tok d = (d', vres)" "holds_rows v d0 d"
  from key_use_writes [OF a(1)] show "holds_rows v d0 d'"
  proof (elim disjE exE)
    fix i t assume d': "d' = d\<lparr>db_api_keys := update_rows (\<lambda>r. ak_ID r = i) (\<lambda>r. r\<lparr>ak_LastUsedAt := Some t\<rparr>) (db_api_keys d)\<rparr>"
    have "unused_key ` {r \<in> set (update_rows (\<lambda>r. ak_ID r = i) (\<lambda>r. r\<lparr>ak_LastUsedAt := Some t\<rparr>) (db_api_keys d)). ak_UserID r = v} =
        unused_key ` {r \<in> set (db_api_keys d). ak_UserID r = v}"
      by (rule owned_image) (simp_all add: unused_key_def)
    then show ?thesis unfolding d' using a(2) by (simp add: holds_rows_def tables_ok_def rows_of_def map_update_key)
  qed (use a(2) in simp)
next
  fix whf rslv now uuid sec wreq u d d' wres and adm :: bool
  assume a: "WebhookService_Create whf rslv now uuid sec wreq u d = (d', wres)" "holds_rows v d0 d" "u \<noteq> v \<and> \<not> adm"
  then show "holds_rows v d0 d'" using webhook_create_writes [OF a(1)]
    by (auto simp: holds_rows_def tables_ok_def rows_of_def)
next
  fix whf i u and adm :: bool and d d' werr
  assume a: "WebhookService_Delete whf i u adm d = (d', werr)" "holds_rows v d0 d" "u \<noteq> v \<and> \<not> adm"
  have ids: "distinct (map wh_ID (db_webhooks d))" using a(2) by (simp add: holds_rows_def tables_ok_def)
  from webhook_delete_writes [OF a(1) ids] show "holds_rows v d0 d'"
  proof (elim disjE [where P = "d' = d"] exE conjE bexE)
    fix x assume x: "x \<in> set (db_webhooks d)" "wh_ID x = i" "adm \<or> wh_UserID x = u"
      and d': "d' = d\<lparr>db_webhooks := delete_rows (\<lambda>r. wh_ID r = i) (db_webhooks d)\<rparr>"
    have "wh_UserID x \<noteq> v" using x(3) a(3) by auto
    from owned_delete_key [where owner = wh_UserID, OF ids x(1,2) this]
    show ?thesis unfolding d' using a(2) by (auto simp: holds_rows_def tables_ok_def rows_of_def)
  qed (use a(2) in simp)
next
  fix d ss js assume "holds_rows v d0 d"
  then show "holds_rows v d0 (d\<lparr>db_oidc_sessions := ss\<rparr>)" "holds_rows v d0 (d\<lparr>db_oidc_logout_jtis := js\<rparr>)"
    by (simp_all add: holds_rows_def tables_ok_def rows_of_def)
next
  fix d new old tab
  assume a: "holds_rows v d0 d" "new \<noteq> v \<and> old \<noteq> v"
  show "holds_rows v d0 (adopt_table tab new old d)"
  proof (cases tab)
    case Adopt_links
    have "{r \<in> set (update_rows (\<lambda>l. l_CreatedBy l = old) (\<lambda>l. l\<lparr>l_CreatedBy := new\<rparr>) (db_links d)). l_CreatedBy r = v} =
        {r \<in> set (db_links d). l_CreatedBy r = v}"
      using a(2) by (intro owned_update) auto
    then show ?thesis using a(1) unfolding Adopt_links adopt_table_def
      by (simp, intro holds_links links_ok_update) (simp_all add: link_key_def holds_rows_def tables_ok_def)
  next
    case Adopt_folders
    have "{r \<in> set (update_rows (\<lambda>l. f_CreatedBy l = old) (\<lambda>l. l\<lparr>f_CreatedBy := new\<rparr>) (db_folders d)). f_CreatedBy r = v} =
        {r \<in> set (db_folders d). f_CreatedBy r = v}"
      using a(2) by (intro owned_update) auto
    then show ?thesis using a(1) unfolding Adopt_folders adopt_table_def
      by (simp add: holds_rows_def tables_ok_def rows_of_def map_update_key)
  next
    case Adopt_domains
    have "{r \<in> set (update_rows (\<lambda>l. cd_CreatedBy l = old) (\<lambda>l. l\<lparr>cd_CreatedBy := new\<rparr>) (db_custom_domains d)). cd_CreatedBy r = v} =
        {r \<in> set (db_custom_domains d). cd_CreatedBy r = v}"
      using a(2) by (intro owned_update) auto
    then show ?thesis using a(1) unfolding Adopt_domains adopt_table_def
      by (simp add: holds_rows_def tables_ok_def rows_of_def map_update_key)
  next
    case Adopt_keys
    let ?p = "\<lambda>k. ak_UserID k = old \<and> \<not> has_prefix (to_lower (ak_ID k)) OIDCSubjectKeyPrefix"
    have "{r \<in> set (update_rows ?p (\<lambda>l. l\<lparr>ak_UserID := new\<rparr>) (db_api_keys d)). ak_UserID r = v} =
        {r \<in> set (db_api_keys d). ak_UserID r = v}"
      using a(2) by (intro owned_update) auto
    then show ?thesis using a(1) unfolding Adopt_keys adopt_table_def
      by (simp add: holds_rows_def tables_ok_def rows_of_def map_update_key)
  next
    case Adopt_webhooks
    have "{r \<in> set (update_rows (\<lambda>l. wh_UserID l = old) (\<lambda>l. l\<lparr>wh_UserID := new\<rparr>) (db_webhooks d)). wh_UserID r = v} =
        {r \<in> set (db_webhooks d). wh_UserID r = v}"
      using a(2) by (intro owned_update) auto
    then show ?thesis using a(1) unfolding Adopt_webhooks adopt_table_def
      by (simp add: holds_rows_def tables_ok_def rows_of_def map_update_key)
  qed
qed

text \<open>
  Claim C3. A request does not touch what belongs to somebody else. Whatever the route and the
  body, if none of the identities the request acts under is \<open>v\<close> or an administrator, the links,
  folders, domains, API keys and webhooks owned by \<open>v\<close> after the request are those before it,
  up to the folder of a link, counters and times of use: none is changed, deleted, created or
  taken over. A sign-in is held to the same, when none of its names is \<open>v\<close> (it adopts the rows
  owned by its names), and so are the other requests while it waits for the provider.
\<close>

theorem tenants_are_separated:
  assumes "tables_ok (app_db ap)"
    and "\<And>d. tables_ok d \<Longrightarrow> tables_ok (ae_Meanwhile (en_auth env) d) \<and> rows_of v (ae_Meanwhile (en_auth env) d) = rows_of v d"
    and "\<And>ap1 s. ap1 \<in> {ap, fst (getAuthSession env r ap)} \<Longrightarrow>
      snd (getAuthSession env r ap1) = Some s \<or> snd (cookie_caller env r ap1) = Some s \<Longrightarrow> us_UserID s \<noteq> v \<and> \<not> us_IsAdmin s"
    and "\<And>vals s. mux route_table (rq_Method r) (segments (rq_Path r)) = Some (E_callback, vals) \<Longrightarrow>
      snd (HandleCallback (en_auth env) (ap_auth ap) r (app_db ap)) = Inr s \<Longrightarrow> v \<notin> {us_UserID s, us_Username s, us_Email s}"
  shows "rows_of v (app_db (fst (serve_http mux miss version env r ap))) = rows_of v (app_db ap)"
proof -
  let ?I = "holds_rows v (app_db ap)"
  have rely: "rely ?I env" using assms(2) by (simp add: rely_def holds_rows_def)
  have may: "caller_may (\<lambda>u adm. u \<noteq> v \<and> \<not> adm) env r ap1" if "ap1 \<in> {ap, fst (getAuthSession env r ap)}" for ap1
    using assms(3) [OF that] by (auto simp: caller_may_def)
  have "?I (app_db (fst (serve_http mux miss version env r ap)))"
  proof (rule tenancy.serve_http_keeps [OF refl _ rely may])
    show "?I (app_db ap)" using assms(1) by (simp add: holds_rows_def)
  qed (use assms(4) in fastforce)+
  then show ?thesis by (simp add: holds_rows_def)
qed

definition example_app :: app where
  "example_app = (main_app (\<lambda>x. x) example_auth example_oidc (login_db\<lparr>db_links := [example_link]\<rparr>))\<lparr>ap_auth := example_svc\<rparr>"

definition delete_request :: request where
  "delete_request = signed_in\<lparr>rq_Method := ''DELETE'', rq_Path := ''/api/links/u1''\<rparr>"

lemma example_app_simps [simp]: "app_db example_app = login_db\<lparr>db_links := [example_link]\<rparr>" "ap_auth example_app = example_svc"
  by (simp_all add: example_app_def)

lemma example_caller:
  assumes "Cookie SessionCookieName r = Some (example_cookie ''s1'')" and "rq_Authorization r = []"
  shows "getAuthSession example_request_env r example_app =
      (example_app, Some (example_session ''s1''\<lparr>us_Groups := [''staff'']\<rparr>))"
    "cookie_caller example_request_env r example_app =
      (example_app, Some (example_session ''s1''\<lparr>us_Groups := [''staff'']\<rparr>))"
proof -
  have g: "GetSession example_auth example_svc r (login_db\<lparr>db_links := [example_link]\<rparr>) =
      (example_svc, login_db\<lparr>db_links := [example_link]\<rparr>, Inr (example_session ''s1''\<lparr>us_Groups := [''staff'']\<rparr>))"
    using assms(1) by (intro example_get_session_any) (simp_all add: login_db_def)
  have e: "en_auth example_request_env = example_auth" by (simp add: example_request_env_def)
  have b: "bearer_session example_request_env r example_app = None"
    by (simp add: bearer_session_def assms(2) has_prefix_def)
  have same: "set_app_db (login_db\<lparr>db_links := [example_link]\<rparr>) (example_app\<lparr>ap_auth := example_svc\<rparr>) = example_app"
    by (simp add: example_app_def set_app_db_def main_app_def)
  show "getAuthSession example_request_env r example_app =
      (example_app, Some (example_session ''s1''\<lparr>us_Groups := [''staff'']\<rparr>))"
    by (simp add: getAuthSession_def b e g same)
  show "cookie_caller example_request_env r example_app =
      (example_app, Some (example_session ''s1''\<lparr>us_Groups := [''staff'']\<rparr>))"
    by (simp add: cookie_caller_def e g same)
qed

theorem tenants_are_separated_witness:
  "rows_of ''ana'' (app_db (fst (serve_http example_mux (\<lambda>r. http_error 404 R_empty) ''v1'' example_request_env
     delete_request example_app))) = ({own_part example_link}, {}, {}, {}, {})"
proof -
  have c: "Cookie SessionCookieName delete_request = Some (example_cookie ''s1'')" "rq_Authorization delete_request = []"
    using signed_in_cookie by (simp_all add: delete_request_def Cookie_def signed_in_def blank_request_def)
  have m: "ae_Meanwhile (en_auth example_request_env) d = d" for d by (simp add: example_request_env_def example_auth_def)
  have r: "example_mux route_table (rq_Method delete_request) (segments (rq_Path delete_request)) = Some (E_delete_link, [''u1''])"
    unfolding delete_request_def signed_in_def by code_simp
  have "rows_of ''ana'' (app_db (fst (serve_http example_mux (\<lambda>r. http_error 404 R_empty) ''v1'' example_request_env
      delete_request example_app))) = rows_of ''ana'' (app_db example_app)"
    by (rule tenants_are_separated)
      (auto simp: m r example_caller [OF c] tables_ok_def links_ok_def login_db_def example_session_def empty_session_def)
  also have "\<dots> = ({own_part example_link}, {}, {}, {}, {})"
    by (simp add: rows_of_def login_db_def) (auto simp: login_db_def)
  finally show ?thesis .
qed

section \<open>What the API shows\<close>

text \<open>
  A response of the API that shows rows of \<open>u\<close> only, without the hash of a PIN or of a key nor the
  secret of a webhook. The list and the export of the links are those of the database of the state
  \<open>ap\<close> that \<open>u\<close> owns, all of them and no other; a file is the QR code of the short URL of one of them.
\<close>

definition own_rows :: "string \<Rightarrow> app \<Rightarrow> link list" where
  "own_rows u ap = map scan_link (filter (\<lambda>x. l_CreatedBy x = u) (db_links (app_db ap)))"

fun shows_only :: "app_env \<Rightarrow> app \<Rightarrow> string \<Rightarrow> reply \<Rightarrow> bool" where
  "shows_only env ap u (R_link l) = (l_CreatedBy l = u \<and> l_PinHash l = [])"
| "shows_only env ap u (R_created l url stripped) = (l_CreatedBy l = u \<and> l_PinHash l = [])"
| "shows_only env ap u (R_links ls) = (mset ls = mset (map json_link (own_rows u ap)) \<and>
     (\<forall>l\<in>set ls. l_CreatedBy l = u \<and> l_PinHash l = []))"
| "shows_only env ap u (R_keys ks) = (\<forall>k\<in>set ks. ak_UserID k = u \<and> ak_KeyHash k = [])"
| "shows_only env ap u (R_key k secret) = (ak_UserID k = u \<and> ak_KeyHash k = [])"
| "shows_only env ap u (R_domains ds) = (\<forall>d\<in>set ds. cd_CreatedBy d = u)"
| "shows_only env ap u (R_domain d) = (cd_CreatedBy d = u)"
| "shows_only env ap u (R_folders fs) = (\<forall>f\<in>set fs. f_CreatedBy f = u)"
| "shows_only env ap u (R_folder f) = (f_CreatedBy f = u)"
| "shows_only env ap u (R_webhooks ws) = (\<forall>w\<in>set ws. wh_UserID w = u \<and> wh_Secret w = [])"
| "shows_only env ap u (R_webhook w) = (wh_UserID w = u \<and> wh_Secret w = [])"
| "shows_only env ap u (R_table t) = (\<exists>ls. mset ls = mset (own_rows u ap) \<and>
     t = export_header # map (export_row (en_rfc3339 env) (le_now (en_link env))) ls)"
| "shows_only env ap u (R_file f) = (\<exists>l\<in>set (own_rows u ap).
     PNGDeQR (en_png env) (short_url (app_cfg ap) l) 512 = Inr f \<or> SVGDeQR (en_qr env) (short_url (app_cfg ap) l) = Inr f)"
| "shows_only env ap u (R_session s) = False"
| "shows_only env ap u (P_dashboard d) = False"
| "shows_only env ap u (P_settings d) = False"
| "shows_only env ap u _ = True"

definition discreet :: "string \<Rightarrow> handler \<Rightarrow> bool" where
  "discreet u h \<longleftrightarrow> (\<forall>env r ap. (\<forall>s. snd (getAuthSession env r ap) = Some s \<longrightarrow> us_UserID s = u \<and> \<not> us_IsAdmin s) \<longrightarrow>
     shows_only env (fst (h env r ap)) u (rs_Body (snd (h env r ap))))"

lemma body_makers [simp]: "rs_Body (sendJSON c b) = b" "rs_Body (status_only c b) = b" "rs_Body (http_error c b) = b"
  "rs_Body unauthorized = R_error ''Unauthorized''"
  by (simp_all add: sendJSON_def status_only_def http_error_def unauthorized_def)

lemma discreet_session:
  assumes "\<And>s env r ap. us_UserID s = u \<Longrightarrow> \<not> us_IsAdmin s \<Longrightarrow>
    shows_only env (fst (k s env r ap)) u (rs_Body (snd (k s env r ap)))"
  shows "discreet u (with_session k)"
  unfolding discreet_def
proof (intro allI impI)
  fix env r ap
  assume a: "\<forall>s. snd (getAuthSession env r ap) = Some s \<longrightarrow> us_UserID s = u \<and> \<not> us_IsAdmin s"
  obtain ap1 so where g: "getAuthSession env r ap = (ap1, so)" by (metis prod.collapse)
  show "shows_only env (fst (with_session k env r ap)) u (rs_Body (snd (with_session k env r ap)))"
    using a g assms by (auto simp: with_session_def split: option.splits)
qed

lemma ListByUser_own: "ListByUser env u False (app_db ap) = Inr ls \<Longrightarrow> mset ls = mset (own_rows u ap)"
  by (auto simp: ListByUser_def own_rows_def order_desc_mset split: if_splits)

lemma own_rows_owner: "l \<in> set (own_rows u ap) \<Longrightarrow> l_CreatedBy l = u"
  by (auto simp: own_rows_def scan_link_def)

lemma own_link_row: "us_UserID s = u \<Longrightarrow> \<not> us_IsAdmin s \<Longrightarrow> own_link i s env ap = Inr l \<Longrightarrow> l \<in> set (own_rows u ap)"
  by (auto simp: own_link_def GetByID_def scan_row_Inr own_rows_def by_id_def dest!: find_Some_in split: sum.splits if_splits)

lemma own_link_error: "own_link i s env ap = Inl rs \<Longrightarrow> \<exists>c t. rs = sendJSON c (R_error t)"
  by (auto simp: own_link_def split: sum.splits if_splits)

lemma Update_owner: "LinkService_Update c env i req u False s = (t, Inr l) \<Longrightarrow> l_CreatedBy l = u"
  by (auto simp: LinkService_Update_def Let_def same_identity_def dest!: run_edits_identity split: sum.splits if_splits)

lemma Create_owner: "LinkService_Create c env req u s = (t, Inr (l, stripped), evs) \<Longrightarrow> l_CreatedBy l = u"
  using CreateD [of c env req u s t l stripped evs] by (metis prepare_linkD new_link_simps(5))

lemma create_key_owner: "create_key env c n u d = (d', Inr (k, raw)) \<Longrightarrow> ak_UserID k = u"
  by (auto simp: create_key_def APIKeyService_Create_def APIKeyService_CreateOIDC_def dest: APIKey_create_Inr split: if_splits)

lemma json_parts [simp]: "l_CreatedBy (json_link l) = l_CreatedBy l" "l_PinHash (json_link l) = []"
  "ak_UserID (json_key k) = ak_UserID k" "ak_KeyHash (json_key k) = []"
  "wh_UserID (json_webhook w) = wh_UserID w" "wh_Secret (json_webhook w) = []"
  by (simp_all add: json_link_def json_key_def json_webhook_def)

lemma discreet_links: "discreet u CreateLink" "discreet u (GetLink i)" "discreet u (UpdateLink i)"
  "discreet u (DeleteLink i)" "discreet u BulkImport"
  unfolding CreateLink_def GetLink_def UpdateLink_def DeleteLink_def BulkImport_def own_link_def Let_def
  by (rule discreet_session, auto dest: Update_owner Create_owner split: option.splits sum.splits prod.splits)+

lemma discreet_list: "discreet u ListLinks"
  unfolding ListLinks_def
proof (rule discreet_session)
  fix s env r ap assume s: "us_UserID s = u" "\<not> us_IsAdmin s"
  show "shows_only env (fst (case ListByUser (en_link env) (us_UserID s) (us_IsAdmin s) (app_db ap) of
      Inl e \<Rightarrow> (ap, sendJSON 500 (R_error ''Failed to fetch links'')) | Inr links \<Rightarrow> (ap, sendJSON 200 (R_links (map json_link links))))) u
    (rs_Body (snd (case ListByUser (en_link env) (us_UserID s) (us_IsAdmin s) (app_db ap) of
      Inl e \<Rightarrow> (ap, sendJSON 500 (R_error ''Failed to fetch links'')) | Inr links \<Rightarrow> (ap, sendJSON 200 (R_links (map json_link links))))))"
  proof (cases "ListByUser (en_link env) u False (app_db ap)")
    case (Inr ls)
    from ListByUser_own [OF this] have "mset ls = mset (own_rows u ap)" .
    then show ?thesis using s Inr own_rows_owner [of _ u ap] mset_eq_setD [of ls "own_rows u ap"] by simp
  qed (simp add: s)
qed

lemma discreet_qr: "discreet u (LinkQR i)"
  unfolding LinkQR_def Let_def
  by (rule discreet_session)
    (auto split: sum.splits dest: own_link_row [OF refl] own_link_error)

lemma discreet_tables: "discreet u ListKeys" "discreet u CreateKey" "discreet u (DeleteKey i)" "discreet u ListDomains"
  "discreet u CreateDomain" "discreet u (DeleteDomain i)" "discreet u ListFolders" "discreet u CreateFolder"
  "discreet u (UpdateFolder i)" "discreet u (DeleteFolder i)" "discreet u ListWebhooks" "discreet u CreateWebhook"
  "discreet u (DeleteWebhook i)"
proof -
  have dc: "cd_CreatedBy c = u" if "DomainService_Create df now uuid n u d = (d', Inr c)" for df now uuid n u d d' c
    using that by (auto simp: DomainService_Create_def Let_def split: if_splits option.splits)
  have fc: "f_CreatedBy f = u" if "FolderService_Create ff now uuid n c u d = (d', Inr f)" for ff now uuid n c u d d' f
    using that by (auto simp: FolderService_Create_def Let_def split: if_splits option.splits)
  have fu: "f_CreatedBy f = u" if "FolderService_Update ff i req u False d = (d', Inr f)" for ff i req u d d' f
    using Folder_Update_done [OF that] renamed_same by auto
  have wc: "wh_UserID w = u" if "WebhookService_Create whf rslv now uuid sec req u d = (d', Inr w)"
    for whf rslv now uuid sec req u d d' w
    using that by (auto simp: WebhookService_Create_def Let_def split: if_splits option.splits sum.splits)
  show "discreet u ListKeys" "discreet u CreateKey" "discreet u (DeleteKey i)" "discreet u ListDomains"
    "discreet u CreateDomain" "discreet u (DeleteDomain i)" "discreet u ListFolders" "discreet u CreateFolder"
    "discreet u (UpdateFolder i)" "discreet u (DeleteFolder i)" "discreet u ListWebhooks" "discreet u CreateWebhook"
    "discreet u (DeleteWebhook i)"
    unfolding ListKeys_def CreateKey_def DeleteKey_def ListDomains_def CreateDomain_def DeleteDomain_def
      ListFolders_def CreateFolder_def UpdateFolder_def DeleteFolder_def ListWebhooks_def CreateWebhook_def DeleteWebhook_def
    by (rule discreet_session, auto dest: create_key_owner dc fc fu wc api_keys.lst_own domains.lst_own folders.lst_own
        webhooks.lst_own split: option.splits sum.splits prod.splits)+
qed

lemma discreet_others: "discreet u CleanPreview" "discreet u ExportLinks"
proof -
  show "discreet u CleanPreview"
    by (auto simp: discreet_def CleanPreview_def split: option.splits sum.splits)
  show "discreet u ExportLinks"
    unfolding discreet_def
  proof (intro allI impI)
    fix env r ap
    assume a: "\<forall>s. snd (getAuthSession env r ap) = Some s \<longrightarrow> us_UserID s = u \<and> \<not> us_IsAdmin s"
    obtain ap1 so where g: "getAuthSession env r ap = (ap1, so)" by (metis prod.collapse)
    have "shows_only env ap1 u (R_table t)" if "ExportCSV (en_rfc3339 env) (en_link env) u False (app_db ap1) = Inr t" for t
      using that by (auto simp: ExportCSV_def dest: ListByUser_own split: sum.splits)
    then show "shows_only env (fst (ExportLinks env r ap)) u (rs_Body (snd (ExportLinks env r ap)))"
      using a g by (auto simp del: shows_only.simps(12) simp: ExportLinks_def split: option.splits sum.splits)
  qed
qed

text \<open>
  Claim C14. What the API shows: to a caller who is not an administrator, the responses of the
  endpoints under \<open>/api\<close> (other than the fallback, which answers 404) show rows of that caller only. A
  link, key, domain, folder or webhook that is returned is the caller's; the list of links and the
  exported table have exactly the links of the database that the caller owns; the QR code is that of
  the short URL of one of those. In no response is the hash of a PIN, the hash of a key or the
  secret of a webhook.
\<close>

theorem api_shows_own_rows:
  assumes "mux route_table (rq_Method r) (segments (rq_Path r)) = Some (e, vals)" and "is_api e" and "e \<noteq> E_api_other"
    and "\<And>ap1 s. ap1 \<in> {ap, fst (getAuthSession env r ap)} \<Longrightarrow> snd (getAuthSession env r ap1) = Some s \<Longrightarrow>
      us_UserID s = u \<and> \<not> us_IsAdmin s"
    and "serve_http mux miss version env r ap = (ap', rs)"
  shows "shows_only env ap' u (rs_Body rs)"
proof -
  let ?h = "handler_of miss version e (concat vals)"
  have d: "discreet u ?h"
    using assms(2,3) by (auto simp: is_api_def handler_of_def discreet_links discreet_list discreet_qr discreet_tables discreet_others)
  have b: "snd (getAuthSession env r (a\<lparr>ap_bucket := c\<rparr>)) = snd (getAuthSession env r a)" for a c
    by (simp add: getAuthSession_def bearer_session_def split: option.splits prod.splits sum.splits)
  obtain ap1 so where g: "getAuthSession env r ap = (ap1, so)" by (metis prod.collapse)
  have "shows_only env (fst (?h env r a)) u (rs_Body (snd (?h env r a)))" if "a \<in> {ap, ap1} \<or> (\<exists>c. a = ap1\<lparr>ap_bucket := c\<rparr>)" for a
  proof -
    have "\<forall>s. snd (getAuthSession env r a) = Some s \<longrightarrow> us_UserID s = u \<and> \<not> us_IsAdmin s"
      using that assms(4) [of ap] assms(4) [of ap1] g by (auto simp: b)
    then show ?thesis using d by (simp add: discreet_def)
  qed
  then have "shows_only env (fst (limited miss version e (concat vals) env r ap)) u
      (rs_Body (snd (limited miss version e (concat vals) env r ap)))"
    using assms(2) g by (auto simp: limited_def WriteRateLimit_def split: option.splits prod.splits bool.splits)
  then show ?thesis using assms(1,5)
    by (cases "limited miss version e (concat vals) env r ap") (auto simp: serve_http_def SecurityHeaders_def)
qed

text \<open>
  Claim C15. Without a valid session or API key nothing happens: every endpoint of the API but
  the preview of the cleaner answers 401, and every form sends the browser to the sign-in page; the
  only change of state is that of looking for the caller (a session the provider revoked is
  dropped), at most twice.
\<close>

theorem no_caller_no_effect:
  assumes "mux route_table (rq_Method r) (segments (rq_Path r)) = Some (e, vals)"
    and "is_api e \<and> e \<noteq> E_api_other \<and> e \<noteq> E_clean_preview \<or> is_form e"
    and "serve_http mux miss version env r ap = (ap', rs)"
    and "\<And>ap1. ap1 \<in> {ap, fst (getAuthSession env r ap)} \<Longrightarrow>
      snd (getAuthSession env r ap1) = None \<and> snd (cookie_caller env r ap1) = None"
  shows "(if is_form e then rs_Status rs = 303 \<and> rs_Redirect rs = Some ''/auth/login'' else rs_Status rs = 401) \<and>
    (\<exists>looks. length looks \<le> 2 \<and> set looks \<subseteq> {\<lambda>a. fst (getAuthSession env r a), \<lambda>a. fst (cookie_caller env r a)} \<and>
       ap' = fold (\<lambda>look a. look a) looks ap)"
proof -
  let ?h = "handler_of miss version e (concat vals)"
  let ?g = "\<lambda>a. fst (getAuthSession env r a)" and ?c = "\<lambda>a. fst (cookie_caller env r a)"
  have h: "(if is_form e then rs_Status (snd (?h env r a)) = 303 \<and> rs_Redirect (snd (?h env r a)) = Some ''/auth/login''
      else rs_Status (snd (?h env r a)) = 401) \<and> (fst (?h env r a) = ?g a \<or> fst (?h env r a) = ?c a)"
    if a: "a \<in> {ap, ?g ap}" for a
  proof -
    obtain a1 a2 where n: "getAuthSession env r a = (a1, None)" "cookie_caller env r a = (a2, None)"
      using assms(4) [OF a] by (metis prod.collapse)
    have s: "with_session k env r a = (a1, unauthorized)" "with_cookie k env r a = (a2, redirect_to ''/auth/login'' 303)" for k
      using n by (simp_all add: with_session_def with_cookie_def)
    show ?thesis using assms(2) n
      by (auto simp: is_api_def is_form_def handler_of_def s CreateLink_def ListLinks_def GetLink_def UpdateLink_def
          DeleteLink_def BulkImport_def LinkQR_def ListKeys_def CreateKey_def DeleteKey_def ListDomains_def
          CreateDomain_def DeleteDomain_def ListFolders_def CreateFolder_def UpdateFolder_def DeleteFolder_def
          ListWebhooks_def CreateWebhook_def DeleteWebhook_def ExportLinks_def CreateAPIKeyForm_def CreateDomainForm_def
          CreateWebhookForm_def HandleCreateForm_def unauthorized_def redirect_to_def sendJSON_def http_error_def status_only_def)
  qed
  obtain ap1 where g: "getAuthSession env r ap = (ap1, None)" using assms(4) [of ap] by (metis insertI1 prod.collapse)
  have l: "limited miss version e (concat vals) env r ap \<in> {?h env r ap, ?h env r ap1}"
    using assms(2) g by (auto simp: limited_def WriteRateLimit_def)
  have rs: "ap' = fst (limited miss version e (concat vals) env r ap)"
    "rs_Status rs = rs_Status (snd (limited miss version e (concat vals) env r ap))"
    "rs_Redirect rs = rs_Redirect (snd (limited miss version e (concat vals) env r ap))"
    using assms(1,3) by (auto simp: serve_http_def SecurityHeaders_def split: prod.splits)
  from l show ?thesis
  proof (elim insertE emptyE)
    assume "limited miss version e (concat vals) env r ap = ?h env r ap"
    with h [of ap] rs show ?thesis
      by (auto intro: exI [of _ "[?g]"] exI [of _ "[?c]"])
  next
    assume "limited miss version e (concat vals) env r ap = ?h env r ap1"
    with h [of ap1] rs g show ?thesis
      by (auto intro: exI [of _ "[?g, ?g]"] exI [of _ "[?g, ?c]"])
  qed
qed

definition list_request :: request where
  "list_request = signed_in\<lparr>rq_Path := ''/api/links''\<rparr>"

lemma list_request_route:
  "example_mux route_table (rq_Method list_request) (segments (rq_Path list_request)) = Some (E_list_links, [])"
  unfolding list_request_def signed_in_def by code_simp

theorem api_shows_own_rows_witness:
  "case serve_http example_mux (\<lambda>r. http_error 404 R_empty) ''v1'' example_request_env list_request example_app of
     (ap', rs) \<Rightarrow> shows_only example_request_env ap' ''u1'' (rs_Body rs)"
proof -
  have c: "Cookie SessionCookieName list_request = Some (example_cookie ''s1'')" "rq_Authorization list_request = []"
    using signed_in_cookie by (simp_all add: list_request_def Cookie_def signed_in_def blank_request_def)
  obtain ap' rs where s: "serve_http example_mux (\<lambda>r. http_error 404 R_empty) ''v1'' example_request_env list_request example_app =
      (ap', rs)" by (metis prod.collapse)
  have "shows_only example_request_env ap' ''u1'' (rs_Body rs)"
    by (rule api_shows_own_rows [where mux = example_mux and r = list_request, OF list_request_route _ _ _ s])
      (auto simp: is_api_def example_caller [OF c] example_session_def empty_session_def)
  then show ?thesis by (simp add: s)
qed

definition anonymous_request :: request where
  "anonymous_request = blank_request\<lparr>rq_Method := ''DELETE'', rq_Path := ''/api/links/u1''\<rparr>"

theorem no_caller_no_effect_witness:
  "rs_Status (snd (serve_http example_mux (\<lambda>r. http_error 404 R_empty) ''v1'' example_request_env
     anonymous_request example_app)) = 401"
proof -
  let ?s = "serve_http example_mux (\<lambda>r. http_error 404 R_empty) ''v1'' example_request_env anonymous_request example_app"
  have r: "example_mux route_table (rq_Method anonymous_request) (segments (rq_Path anonymous_request)) =
      Some (E_delete_link, [''u1''])"
    unfolding anonymous_request_def blank_request_def by code_simp
  have e: "en_auth example_request_env = example_auth" by (simp add: example_request_env_def)
  have g: "GetSession example_auth example_svc anonymous_request d = (example_svc, d, Inl AE_NoCookie)" for d
    by (simp add: GetSession_def Let_def Cookie_def anonymous_request_def blank_request_def example_svc_def example_oidc_def)
  have b: "bearer_session example_request_env anonymous_request example_app = None"
    by (simp add: bearer_session_def anonymous_request_def blank_request_def has_prefix_def)
  have same: "set_app_db (login_db\<lparr>db_links := [example_link]\<rparr>) (example_app\<lparr>ap_auth := example_svc\<rparr>) = example_app"
    by (simp add: example_app_def set_app_db_def main_app_def)
  have n: "getAuthSession example_request_env anonymous_request example_app = (example_app, None)"
    "cookie_caller example_request_env anonymous_request example_app = (example_app, None)"
    by (simp_all add: getAuthSession_def cookie_caller_def b e g same)
  have "(if is_form E_delete_link then rs_Status (snd ?s) = 303 \<and> rs_Redirect (snd ?s) = Some ''/auth/login''
      else rs_Status (snd ?s) = 401) \<and>
    (\<exists>looks. length looks \<le> 2 \<and> set looks \<subseteq> {\<lambda>a. fst (getAuthSession example_request_env anonymous_request a),
       \<lambda>a. fst (cookie_caller example_request_env anonymous_request a)} \<and> fst ?s = fold (\<lambda>look a. look a) looks example_app)"
    by (rule no_caller_no_effect [where mux = example_mux and r = anonymous_request, OF r]) (auto simp: is_api_def n)
  then show ?thesis by (simp add: is_form_def)
qed

end
