(* ===== verification/Program_Run.thy ===== *)
theory Program_Run
  imports Requests
begin

text \<open>
  The program runs the link service of \<open>Serving\<close>: every request, with its middleware, its look at
  the caller and whatever the provider lets happen meanwhile, is a sequence of steps of the
  relation \<open>serve\<close>, and so is the goroutine of a click. What \<open>Serving\<close> proves of its reachable states
  holds of the program's.
\<close>

section \<open>States that correspond\<close>

definition behind :: "app \<Rightarrow> serving \<Rightarrow> bool" where
  "behind ap s \<longleftrightarrow> ap_svc ap = sv_svc s \<and> sv_readers s = [] \<and> mset (ap_clicks ap) = mset (sv_clicks s)"

text \<open>From \<open>ap\<close> to \<open>ap'\<close> the link service takes steps, and draws no identifiers but those of \<open>N\<close>.\<close>

definition runs :: "link_cfg \<Rightarrow> string set \<Rightarrow> app \<Rightarrow> app \<Rightarrow> bool" where
  "runs cfg N ap ap' \<longleftrightarrow> (\<forall>s. behind ap s \<longrightarrow> N \<inter> sv_used s = {} \<longrightarrow>
     (\<exists>s'. (serve cfg)\<^sup>*\<^sup>* s s' \<and> behind ap' s' \<and> sv_used s' \<subseteq> sv_used s \<union> N))"

lemma runsI:
  assumes "\<And>s. behind ap s \<Longrightarrow> N \<inter> sv_used s = {} \<Longrightarrow> \<exists>s'. (serve cfg)\<^sup>*\<^sup>* s s' \<and> behind ap' s' \<and> sv_used s' \<subseteq> sv_used s \<union> N"
  shows "runs cfg N ap ap'"
  using assms by (simp add: runs_def)

lemma runs_refl: "runs cfg N ap ap"
  by (auto simp: runs_def)

lemma runs_more: "runs cfg {} ap ap' \<Longrightarrow> runs cfg N ap ap'"
  unfolding runs_def by fastforce

lemma runs_trans:
  assumes "runs cfg N a b" and "runs cfg M b c" and "N \<inter> M = {}"
  shows "runs cfg (N \<union> M) a c"
proof (rule runsI)
  fix s assume s: "behind a s" "(N \<union> M) \<inter> sv_used s = {}"
  then have "N \<inter> sv_used s = {}" by blast
  then obtain s1 where s1: "(serve cfg)\<^sup>*\<^sup>* s s1" "behind b s1" "sv_used s1 \<subseteq> sv_used s \<union> N"
    using assms(1) s(1) unfolding runs_def by blast
  then have "M \<inter> sv_used s1 = {}" using s(2) assms(3) by blast
  then obtain s2 where "(serve cfg)\<^sup>*\<^sup>* s1 s2" "behind c s2" "sv_used s2 \<subseteq> sv_used s1 \<union> M"
    using assms(2) s1(2) unfolding runs_def by blast
  moreover from this(3) s1(3) have "sv_used s2 \<subseteq> sv_used s \<union> (N \<union> M)" by blast
  ultimately show "\<exists>s'. (serve cfg)\<^sup>*\<^sup>* s s' \<and> behind c s' \<and> sv_used s' \<subseteq> sv_used s \<union> (N \<union> M)"
    using rtranclp_trans [OF s1(1)] by blast
qed

lemma runs_after: "runs cfg {} a b \<Longrightarrow> runs cfg N b c \<Longrightarrow> runs cfg N a c"
  using runs_trans [of cfg "{}" a b N c] by simp

lemma runs_before: "runs cfg N a b \<Longrightarrow> runs cfg {} b c \<Longrightarrow> runs cfg N a c"
  using runs_trans [of cfg N a b "{}" c] by simp

lemma runs_same: "ap_svc ap' = ap_svc ap \<Longrightarrow> ap_clicks ap' = ap_clicks ap \<Longrightarrow> runs cfg N ap ap'"
  by (auto simp: runs_def behind_def)

lemma runs_cong: "runs cfg N a b \<Longrightarrow> ap_svc c = ap_svc b \<Longrightarrow> ap_clicks c = ap_clicks b \<Longrightarrow> runs cfg N a c"
  by (simp add: runs_def behind_def)

section \<open>Writes outside the link service\<close>

definition db_moves :: "link_cfg \<Rightarrow> db \<Rightarrow> db \<Rightarrow> bool" where
  "db_moves cfg d d' \<longleftrightarrow> (\<forall>s. ls_db (sv_svc s) = d \<longrightarrow> (serve cfg)\<^sup>*\<^sup>* s (set_db d' s))"

lemma db_moves_links: "db_links d' = db_links d \<Longrightarrow> db_moves cfg d d'"
  by (auto simp: db_moves_def intro!: r_into_rtranclp serve.elsewhere)

lemma db_moves_trans:
  assumes "db_moves cfg a b" and "db_moves cfg b c"
  shows "db_moves cfg a c"
proof -
  have "(serve cfg)\<^sup>*\<^sup>* s (set_db c s)" if "ls_db (sv_svc s) = a" for s
  proof -
    have "(serve cfg)\<^sup>*\<^sup>* s (set_db b s)" using assms(1) that by (simp add: db_moves_def)
    also have "(serve cfg)\<^sup>*\<^sup>* (set_db b s) (set_db c (set_db b s))" using assms(2) by (simp add: db_moves_def)
    also have "set_db c (set_db b s) = set_db c s" by (simp add: set_db_def)
    finally show ?thesis .
  qed
  then show ?thesis by (simp add: db_moves_def)
qed

lemma db_moves_folder: "FolderService_Delete flt i who adm d = (d', e) \<Longrightarrow> db_moves cfg d d'"
  by (auto simp: db_moves_def intro!: r_into_rtranclp serve.folder_delete)

lemma db_moves_adopt_table: "db_moves cfg d (adopt_table t new old d)"
proof (cases t)
  case Adopt_links
  then have "adopt_table t new old d = adopt_links new old d" by (simp add: adopt_table_def adopt_links_def)
  then show ?thesis by (auto simp: db_moves_def intro!: r_into_rtranclp serve.adopt)
qed (auto simp: adopt_table_def intro!: db_moves_links)

lemma db_moves_adopt_from: "db_moves cfg d (adopt_from flt new qs d)"
proof (induction flt new qs d rule: adopt_from.induct)
  case (2 flt new old t qs d)
  then show ?case using db_moves_trans [OF db_moves_adopt_table] by (auto intro: db_moves_links)
qed (simp add: db_moves_links)

lemma db_moves_adopt: "db_moves cfg d (adoptLegacyOwner env a s d)"
  by (simp add: adoptLegacyOwner_def db_moves_adopt_from db_moves_links)

lemma runs_db:
  assumes "db_moves cfg (app_db ap) (app_db ap')" and "ls_cache (ap_svc ap') = ls_cache (ap_svc ap)"
    and "ap_clicks ap' = ap_clicks ap"
  shows "runs cfg N ap ap'"
proof (rule runsI)
  fix s assume "behind ap s"
  with assms have "(serve cfg)\<^sup>*\<^sup>* s (set_db (app_db ap') s)" "behind ap' (set_db (app_db ap') s)"
    by (auto simp: db_moves_def behind_def app_db_def set_db_def)
  then show "\<exists>s'. (serve cfg)\<^sup>*\<^sup>* s s' \<and> behind ap' s' \<and> sv_used s' \<subseteq> sv_used s \<union> N"
    by (intro exI [of _ "set_db (app_db ap') s"]) auto
qed

section \<open>The steps of the link service\<close>

lemma runs_svc:
  assumes "\<And>s. ap_svc ap = sv_svc s \<Longrightarrow> sv_readers s = [] \<Longrightarrow> N \<inter> sv_used s = {} \<Longrightarrow> serve cfg s (s\<lparr>sv_svc := t, sv_used := sv_used s \<union> N\<rparr>)"
    and "ap_svc ap' = t" and "ap_clicks ap' = ap_clicks ap"
  shows "runs cfg N ap ap'"
proof (rule runsI)
  fix s assume "behind ap s" "N \<inter> sv_used s = {}"
  with assms show "\<exists>s'. (serve cfg)\<^sup>*\<^sup>* s s' \<and> behind ap' s' \<and> sv_used s' \<subseteq> sv_used s \<union> N"
    by (intro exI [of _ "s\<lparr>sv_svc := t, sv_used := sv_used s \<union> N\<rparr>"]) (auto simp: behind_def)
qed

lemma runs_create:
  assumes "LinkService_Create cfg env req who (ap_svc ap) = (t, res, evs)" and "hash_ok env"
    and "ap_svc ap' = t" and "ap_clicks ap' = ap_clicks ap"
  shows "runs cfg {le_uuid env} ap ap'"
  using assms serve.create [of _ env cfg req who t res evs] by (intro runs_svc) auto

lemma runs_update:
  assumes "LinkService_Update cfg env i req who adm (ap_svc ap) = (t, res)" and "hash_ok env"
    and "ap_svc ap' = t" and "ap_clicks ap' = ap_clicks ap"
  shows "runs cfg {} ap ap'"
  using assms serve.update [of _ env cfg i req who adm t res] by (intro runs_svc) auto

lemma runs_delete:
  assumes "LinkService_Delete cfg env i who adm (ap_svc ap) = (t, err, evs)"
    and "ap_svc ap' = t" and "ap_clicks ap' = ap_clicks ap"
  shows "runs cfg {} ap ap'"
  using assms serve.delete [of _ cfg env i who adm t err evs] by (intro runs_svc) auto

text \<open>An import draws the identifiers of its rows, each once.\<close>

lemma runs_jobs:
  assumes "run_jobs cfg envs who jobs (ap_svc ap, b) = (t, b')" and "\<forall>n. hash_ok (envs n)"
    and "inj (\<lambda>n. le_uuid (envs n))" and "distinct (map fst jobs)" and "ap_svc ap' = t" and "ap_clicks ap' = ap_clicks ap"
  shows "runs cfg ((\<lambda>n. le_uuid (envs n)) ` fst ` set jobs) ap ap'"
  using assms
proof (induction jobs arbitrary: ap b)
  case Nil
  then show ?case by (simp add: runs_same)
next
  case (Cons j jobs)
  obtain n req where j: "j = (n, req)" by (cases j)
  obtain t1 res evs where c: "LinkService_Create cfg (envs n) req who (ap_svc ap) = (t1, res, evs)" by (metis prod.collapse)
  let ?ap = "ap\<lparr>ap_svc := t1\<rparr>"
  have "runs cfg {le_uuid (envs n)} ap ?ap" using Cons.prems(2) by (intro runs_create [OF c]) simp_all
  moreover have "runs cfg ((\<lambda>n. le_uuid (envs n)) ` fst ` set jobs) ?ap ap'"
    using Cons.prems c by (intro Cons.IH [of _ "count_job b n res"]) (simp_all add: j)
  moreover have "{le_uuid (envs n)} \<inter> (\<lambda>n. le_uuid (envs n)) ` fst ` set jobs = {}"
    using Cons.prems(3,4) by (auto simp: j dest: injD)
  ultimately show ?case using runs_trans by (fastforce simp: j)
qed

text \<open>A lookup, and the click it leads to.\<close>

text \<open>A lookup, as steps of the service: one that schedules no click, and one that does.\<close>

lemma serve_published:
  assumes "sv_readers s = []"
  shows "serve cfg ((set_cache c s)\<lparr>sv_readers := Publish l # sv_readers s, sv_clicks := qs\<rparr>)
    (s\<lparr>sv_svc := (sv_svc s)\<lparr>ls_cache := LinkCache_Set now (l_Domain l) (l_Slug l) (Some l) c\<rparr>, sv_clicks := qs\<rparr>)"
  using serve.publish [of l "(set_cache c s)\<lparr>sv_readers := [Publish l], sv_clicks := qs\<rparr>" cfg now] assms
  by (cases s) (simp add: set_cache_def)

lemma serve_dropped:
  assumes "sv_readers s = []"
  shows "serve cfg ((set_cache c s)\<lparr>sv_readers := Drop dm slug # sv_readers s\<rparr>)
    (s\<lparr>sv_svc := (sv_svc s)\<lparr>ls_cache := LinkCache_Delete dm slug c\<rparr>\<rparr>)"
  using serve.drop [of dm slug "(set_cache c s)\<lparr>sv_readers := [Drop dm slug]\<rparr>" cfg] assms
  by (cases s) (simp add: set_cache_def)

lemma serve_resolve_plain:
  assumes r: "LinkService_Resolve env dm slug (sv_svc s) = (t, found, err)" and e: "sv_readers s = []"
  shows "(serve cfg)\<^sup>*\<^sup>* s (s\<lparr>sv_svc := t\<rparr>)"
proof -
  obtain c res where g: "LinkCache_Get (le_now env) dm slug (ls_cache (sv_svc s)) = (c, res)" by (metis prod.collapse)
  consider l where "res = Some l" "IsExpired (le_now env) l" | l where "res = Some l" "\<not> IsExpired (le_now env) l"
    | l where "res = None" "lookup_link env dm slug (ls_db (sv_svc s)) = Inr l" "\<not> IsExpired (le_now env) l"
    | "res = None" "\<nexists>l. lookup_link env dm slug (ls_db (sv_svc s)) = Inr l \<and> \<not> IsExpired (le_now env) l"
    by (cases res) blast+
  then show ?thesis
  proof cases
    case (1 l)
    then have "t = (sv_svc s)\<lparr>ls_cache := LinkCache_Delete dm slug c\<rparr>" using r g by (auto simp: LinkService_Resolve_def)
    with serve.hit_expired [OF g [unfolded 1(1)] 1(2), of cfg] serve_dropped [OF e, where cfg = cfg and c = c and dm = dm and slug = slug] show ?thesis by simp
  next
    case (2 l)
    then have "t = (sv_svc s)\<lparr>ls_cache := c\<rparr>" using r g by (auto simp: LinkService_Resolve_def)
    with serve.hit [OF g [unfolded 2(1)] 2(2), of cfg] show ?thesis by (simp add: set_cache_def)
  next
    case (3 l)
    then have t: "t = (sv_svc s)\<lparr>ls_cache := LinkCache_Set (le_now env) (l_Domain l) (l_Slug l) (Some l) c\<rparr>"
      using r g by (auto simp: LinkService_Resolve_def)
    have "(set_cache c s)\<lparr>sv_readers := Publish l # sv_readers s, sv_clicks := sv_clicks s\<rparr> =
        (set_cache c s)\<lparr>sv_readers := Publish l # sv_readers s\<rparr>"
      "s\<lparr>sv_svc := t, sv_clicks := sv_clicks s\<rparr> = s\<lparr>sv_svc := t\<rparr>" by (simp_all add: set_cache_def)
    with serve.miss [OF g [unfolded 3(1)] 3(2,3), of cfg]
      serve_published [OF e, where cfg = cfg and c = c and l = l and qs = "sv_clicks s" and now = "le_now env", folded t] show ?thesis by simp
  next
    case 4
    then have "t = (sv_svc s)\<lparr>ls_cache := c\<rparr>" using r g by (auto simp: LinkService_Resolve_def split: sum.splits if_splits)
    with serve.miss_gone [OF g [unfolded 4(1)], of cfg] show ?thesis by (simp add: set_cache_def)
  qed
qed

lemma serve_resolve_visit:
  assumes r: "LinkService_Resolve env dm slug (sv_svc s) = (t, Some l, None)" and cf: "colon_free dm" and e: "sv_readers s = []"
    and pin: "\<not> l_HasPIN l"
  shows "(serve cfg)\<^sup>*\<^sup>* s (s\<lparr>sv_svc := t, sv_clicks := (l_ID l, l_Domain l, slug, v) # sv_clicks s\<rparr>)"
proof -
  obtain c res where g: "LinkCache_Get (le_now env) dm slug (ls_cache (sv_svc s)) = (c, res)" by (metis prod.collapse)
  show ?thesis
  proof (cases res)
    case (Some k)
    then have "k = l" "\<not> IsExpired (le_now env) l" "t = (sv_svc s)\<lparr>ls_cache := c\<rparr>"
      using r g by (auto simp: LinkService_Resolve_def split: if_splits)
    with serve.hit_visit [OF cf g [unfolded Some], of cfg v] pin show ?thesis by (simp add: set_cache_def)
  next
    case None
    then have l: "lookup_link env dm slug (ls_db (sv_svc s)) = Inr l" "\<not> IsExpired (le_now env) l"
      and t: "t = (sv_svc s)\<lparr>ls_cache := LinkCache_Set (le_now env) (l_Domain l) (l_Slug l) (Some l) c\<rparr>"
      using r g by (auto simp: LinkService_Resolve_def split: sum.splits if_splits)
    from serve.miss_visit [OF g [unfolded None] l pin, of cfg v]
      serve_published [OF e, where cfg = cfg and c = c and l = l and
        qs = "(l_ID l, l_Domain l, slug, v) # sv_clicks s" and now = "le_now env", folded t]
    show ?thesis by simp
  qed
qed

lemma runs_resolve:
  assumes r: "LinkService_Resolve env dm slug (ap_svc ap) = (t, found, err)" and cf: "colon_free dm" and t: "ap_svc ap' = t"
    and cl: "ap_clicks ap' = ap_clicks ap \<or>
      (\<exists>l v. found = Some l \<and> err = None \<and> \<not> l_HasPIN l \<and> ap_clicks ap' = ap_clicks ap @ [(l_ID l, l_Domain l, slug, v)])"
  shows "runs cfg {} ap ap'"
proof (rule runsI)
  fix s assume s: "behind ap s"
  then have sv: "ap_svc ap = sv_svc s" "sv_readers s = []" "mset (ap_clicks ap) = mset (sv_clicks s)" by (simp_all add: behind_def)
  show "\<exists>s'. (serve cfg)\<^sup>*\<^sup>* s s' \<and> behind ap' s' \<and> sv_used s' \<subseteq> sv_used s \<union> {}"
    using cl
  proof (elim disjE exE conjE)
    assume "ap_clicks ap' = ap_clicks ap"
    with serve_resolve_plain [OF r [unfolded sv(1)] sv(2), of cfg] sv t show ?thesis
      by (intro exI [of _ "s\<lparr>sv_svc := t\<rparr>"]) (simp add: behind_def)
  next
    fix l v assume v: "found = Some l" "err = None" "\<not> l_HasPIN l" "ap_clicks ap' = ap_clicks ap @ [(l_ID l, l_Domain l, slug, v)]"
    from serve_resolve_visit [OF r [unfolded sv(1) v(1,2)] cf sv(2) v(3), of cfg v] sv t v(4) show ?thesis
      by (intro exI [of _ "s\<lparr>sv_svc := t, sv_clicks := (l_ID l, l_Domain l, slug, v) # sv_clicks s\<rparr>"]) (simp add: behind_def)
  qed
qed

lemma runs_pin_visit:
  assumes "GetBySlugRaw env dm slug (app_db ap) = Inr l" and "\<not> IsExpired (le_now env) l"
    and "ap_svc ap' = ap_svc ap" and "ap_clicks ap' = ap_clicks ap @ [(l_ID l, l_Domain l, slug, [])]"
  shows "runs cfg {} ap ap'"
proof (rule runsI)
  fix s assume s: "behind ap s"
  then have "serve cfg s (s\<lparr>sv_clicks := (l_ID l, l_Domain l, slug, []) # sv_clicks s\<rparr>)"
    using assms(1,2) by (intro serve.pin_visit) (simp_all add: behind_def app_db_def)
  then show "\<exists>s'. (serve cfg)\<^sup>*\<^sup>* s s' \<and> behind ap' s' \<and> sv_used s' \<subseteq> sv_used s \<union> {}"
    using s assms(3,4) by (intro exI [of _ "s\<lparr>sv_clicks := (l_ID l, l_Domain l, slug, []) # sv_clicks s\<rparr>"]) (auto simp: behind_def)
qed

lemma runs_click:
  assumes "(i, dm, slug, v) \<in> set (ap_clicks ap)" and "RecordClick cfg env i dm slug v (ap_svc ap) = (t, evs)"
    and "ap_svc ap' = t" and "ap_clicks ap' = remove1 (i, dm, slug, v) (ap_clicks ap)"
  shows "runs cfg {} ap ap'"
proof (rule runsI)
  fix s assume s: "behind ap s"
  let ?s = "s\<lparr>sv_svc := t, sv_clicks := remove1 (i, dm, slug, v) (sv_clicks s)\<rparr>"
  have b: "sv_readers s = []" "ap_svc ap = sv_svc s" "mset (ap_clicks ap) = mset (sv_clicks s)"
    using s by (simp_all add: behind_def)
  have q: "(i, dm, slug, v) \<in> set (sv_clicks s)"
    using mset_eq_setD [OF b(3)] assms(1) by simp
  have "serve cfg s ?s" by (rule serve.click [OF b(1) q assms(2) [unfolded b(2)]])
  then show "\<exists>s'. (serve cfg)\<^sup>*\<^sup>* s s' \<and> behind ap' s' \<and> sv_used s' \<subseteq> sv_used s \<union> {}"
    using s assms(3,4) by (intro exI [of _ ?s] conjI r_into_rtranclp) (simp_all add: behind_def)
qed

section \<open>Requests\<close>

text \<open>
  The surroundings of a request under which the steps are those of \<open>Serving\<close>: bcrypt gives no empty
  hash, what other requests do while the provider answers is steps too, and the goroutines of an
  import run each row once, under an identifier of its own.
\<close>

definition careful :: "link_cfg \<Rightarrow> app_env \<Rightarrow> bool" where
  "careful cfg env \<longleftrightarrow> hash_ok (en_link env) \<and> (\<forall>n. hash_ok (en_imports env n)) \<and>
     (\<forall>d. db_moves cfg d (ae_Meanwhile (en_auth env) d)) \<and> inj (\<lambda>n. le_uuid (en_imports env n)) \<and>
     (\<forall>js. mset (en_sched env js) = mset js)"

definition drawn :: "app_env \<Rightarrow> string set" where
  "drawn env = insert (le_uuid (en_link env)) (range (\<lambda>n. le_uuid (en_imports env n)))"

definition follows :: "link_cfg \<Rightarrow> handler \<Rightarrow> bool" where
  "follows cfg h \<longleftrightarrow> (\<forall>env r ap. careful cfg env \<longrightarrow> link_cfg_of (app_cfg ap) = cfg \<longrightarrow> runs cfg (drawn env) ap (fst (h env r ap)))"

lemma followsI:
  "(\<And>env r ap. careful cfg env \<Longrightarrow> link_cfg_of (app_cfg ap) = cfg \<Longrightarrow> runs cfg (drawn env) ap (fst (h env r ap))) \<Longrightarrow> follows cfg h"
  by (simp add: follows_def)

lemma db_moves_authorize:
  assumes "\<And>d. db_moves cfg d (ae_Meanwhile env d)" and "authorizeSession env a s d = (a', d', res)"
  shows "db_moves cfg d d'"
proof -
  have "d' = d \<or> d' = ae_Meanwhile env d \<or> (\<exists>i. d' = drop_session i (ae_Meanwhile env d))"
    using assms(2) by (auto simp: authorizeSession_def Let_def split: if_splits option.splits prod.splits sum.splits)
  moreover have "db_moves cfg e (drop_session i e)" for e i by (rule db_moves_links) (simp add: drop_session_def)
  ultimately show ?thesis using assms(1) [of d] db_moves_trans [OF assms(1) [of d]] db_moves_links [OF refl, of cfg d] by metis
qed

lemma db_moves_session:
  assumes "\<And>d. db_moves cfg d (ae_Meanwhile env d)" and "GetSession env a r d = (a', d', res)"
  shows "db_moves cfg d d'"
  using assms(2) by (auto simp: GetSession_def Let_def dest!: db_moves_authorize [OF assms(1)] intro: db_moves_links
      split: list.splits if_splits option.splits prod.splits)

lemma db_moves_key:
  assumes "\<And>d. db_moves cfg d (ae_Meanwhile env d)" and "AuthorizeAPIKey env a s d = (a', d', res)"
  shows "db_moves cfg d d'"
  using assms(2) by (auto simp: AuthorizeAPIKey_def Let_def dest!: db_moves_authorize [OF assms(1)] intro: db_moves_links
      split: if_splits sum.splits prod.splits)

lemma bearer_links: "bearer_session env r ap = Some (d, s) \<Longrightarrow> db_links d = db_links (app_db ap)"
  using key_use_writes by (fastforce simp: bearer_session_def split: if_splits prod.splits sum.splits)

lemma runs_caller:
  assumes "careful cfg env"
  shows "runs cfg N ap (fst (getAuthSession env r ap))" and "runs cfg N ap (fst (cookie_caller env r ap))"
proof -
  have m: "\<And>d. db_moves cfg d (ae_Meanwhile (en_auth env) d)" using assms by (simp add: careful_def)
  have set: "runs cfg N ap (set_app_db d (ap\<lparr>ap_auth := a\<rparr>))" if "db_moves cfg (app_db ap) d" for d a
    using that by (intro runs_db) (simp_all add: set_app_db_def app_db_def)
  show "runs cfg N ap (fst (cookie_caller env r ap))"
    by (auto simp: cookie_caller_def intro: set dest: db_moves_session [OF m] split: prod.splits sum.splits)
  show "runs cfg N ap (fst (getAuthSession env r ap))"
  proof (cases "bearer_session env r ap")
    case None
    then show ?thesis by (auto simp: getAuthSession_def intro: set dest: db_moves_session [OF m] split: prod.splits sum.splits)
  next
    case (Some p)
    obtain d s where p: "p = (d, s)" by (cases p)
    have "db_moves cfg (app_db ap) d" using bearer_links Some p by (intro db_moves_links) blast
    then show ?thesis using db_moves_trans db_moves_key [OF m]
      by (auto simp: getAuthSession_def Some p intro!: set split: prod.splits sum.splits)
  qed
qed

lemma follows_session:
  assumes "\<And>s. follows cfg (k s)"
  shows "follows cfg (with_session k)"
proof (rule followsI)
  fix env r ap
  assume c: "careful cfg env" "link_cfg_of (app_cfg ap) = cfg"
  obtain ap1 so where g: "getAuthSession env r ap = (ap1, so)" by (metis prod.collapse)
  have "app_cfg ap1 = app_cfg ap" using getAuthSession_cfg [of env r ap] g by simp
  with assms c have "runs cfg (drawn env) ap1 (fst (k s env r ap1))" for s by (simp add: follows_def)
  then have k: "runs cfg (drawn env) ap (fst (k s env r ap1))" for s
    using runs_after runs_caller(1) [OF c(1), of "{}" ap r] g by (metis fst_conv)
  show "runs cfg (drawn env) ap (fst (with_session k env r ap))"
    using k runs_caller(1) [OF c(1), of "drawn env" ap r] g by (cases so) (simp_all add: with_session_def)
qed

lemma follows_cookie:
  assumes "\<And>s. follows cfg (k s)"
  shows "follows cfg (with_cookie k)"
proof (rule followsI)
  fix env r ap
  assume c: "careful cfg env" "link_cfg_of (app_cfg ap) = cfg"
  obtain ap1 so where g: "cookie_caller env r ap = (ap1, so)" by (metis prod.collapse)
  have "app_cfg ap1 = app_cfg ap" using cookie_caller_cfg [of env r ap] g by simp
  with assms c have "runs cfg (drawn env) ap1 (fst (k s env r ap1))" for s by (simp add: follows_def)
  then have k: "runs cfg (drawn env) ap (fst (k s env r ap1))" for s
    using runs_after runs_caller(2) [OF c(1), of "{}" ap r] g by (metis fst_conv)
  show "runs cfg (drawn env) ap (fst (with_cookie k env r ap))"
    using k runs_caller(2) [OF c(1), of "drawn env" ap r] g by (cases so) (simp_all add: with_cookie_def)
qed

text \<open>The handlers that read, and those that write tables other than the links.\<close>

lemma runs_table: "db_links d = db_links (app_db ap) \<Longrightarrow> runs cfg N ap (set_app_db d ap)"
  by (rule runs_db) (simp_all add: db_moves_links set_app_db_def app_db_def)

lemma table_links:
  "DomainService_Delete df i u adm d = (d', e1) \<Longrightarrow> db_links d' = db_links d"
  "APIKeyService_Delete kf i u adm d = (d', e2) \<Longrightarrow> db_links d' = db_links d"
  "WebhookService_Delete whf i u adm d = (d', e3) \<Longrightarrow> db_links d' = db_links d"
  "DomainService_Create df now uuid n u d = (d', e4) \<Longrightarrow> db_links d' = db_links d"
  "FolderService_Create ff now uuid n c u d = (d', e5) \<Longrightarrow> db_links d' = db_links d"
  "FolderService_Update ff i freq u adm d = (d', e6) \<Longrightarrow> db_links d' = db_links d"
  "WebhookService_Create whf rslv now uuid sec wreq u d = (d', e7) \<Longrightarrow> db_links d' = db_links d"
  "create_key env cf n u d = (d', e8) \<Longrightarrow> db_links d' = db_links d"
  by (auto simp: DomainService_Delete_def APIKeyService_Delete_def WebhookService_Delete_def split: if_splits option.splits)
    (auto simp: create_key_def APIKeyService_Create_def APIKeyService_CreateOIDC_def split: if_splits
      dest!: folder_create_writes folder_update_writes domain_create_writes key_create_writes webhook_create_writes)

lemma follows_tables: "follows cfg ListLinks" "follows cfg (GetLink i)" "follows cfg (LinkQR i)" "follows cfg ListKeys"
  "follows cfg CreateKey" "follows cfg (DeleteKey i)" "follows cfg ListDomains" "follows cfg CreateDomain"
  "follows cfg (DeleteDomain i)" "follows cfg ListFolders" "follows cfg CreateFolder" "follows cfg (UpdateFolder i)"
  "follows cfg ListWebhooks" "follows cfg CreateWebhook" "follows cfg (DeleteWebhook i)"
  unfolding ListLinks_def GetLink_def LinkQR_def ListKeys_def CreateKey_def DeleteKey_def ListDomains_def CreateDomain_def
    DeleteDomain_def ListFolders_def CreateFolder_def UpdateFolder_def ListWebhooks_def CreateWebhook_def
    DeleteWebhook_def Let_def
  by (rule follows_session, rule followsI, auto intro!: runs_table runs_refl dest: table_links
      split: option.splits sum.splits prod.splits)+

lemma follows_forms: "follows cfg ShowSettings" "follows cfg CreateAPIKeyForm" "follows cfg CreateDomainForm" "follows cfg CreateWebhookForm"
  unfolding ShowSettings_def CreateAPIKeyForm_def CreateDomainForm_def CreateWebhookForm_def Let_def
  by (rule follows_cookie, rule followsI, auto intro!: runs_table runs_refl dest: table_links
      split: option.splits sum.splits prod.splits)+

lemma follows_folder: "follows cfg (DeleteFolder i)"
  unfolding DeleteFolder_def
  by (rule follows_session, rule followsI)
    (auto intro!: runs_db dest!: db_moves_folder simp: set_app_db_def app_db_def split: option.splits prod.splits)

text \<open>The handlers of links.\<close>

lemma runs_drawn: "runs cfg {le_uuid (en_link env)} a b \<Longrightarrow> runs cfg (drawn env) a b"
proof (rule runsI)
  fix s assume r: "runs cfg {le_uuid (en_link env)} a b" and s: "behind a s" "drawn env \<inter> sv_used s = {}"
  then have "{le_uuid (en_link env)} \<inter> sv_used s = {}" by (auto simp: drawn_def)
  with r s(1) obtain s' where "(serve cfg)\<^sup>*\<^sup>* s s'" "behind b s'" "sv_used s' \<subseteq> sv_used s \<union> {le_uuid (en_link env)}"
    unfolding runs_def by blast
  then show "\<exists>s'. (serve cfg)\<^sup>*\<^sup>* s s' \<and> behind b s' \<and> sv_used s' \<subseteq> sv_used s \<union> drawn env"
    by (intro exI [of _ s']) (auto simp: drawn_def)
qed

lemma follows_create: "follows cfg CreateLink" "follows cfg HandleCreateForm"
proof -
  have c: "runs cf (drawn env) ap ap'"
    if "careful cf env" "LinkService_Create cf (en_link env) req u (ap_svc ap) = (t, res, evs)"
      "ap_svc ap' = t" "ap_clicks ap' = ap_clicks ap" for cf env req u ap t res evs ap'
    using that by (intro runs_drawn runs_create) (auto simp: careful_def)
  show "follows cfg CreateLink" unfolding CreateLink_def
    by (rule follows_session, rule followsI) (auto intro!: runs_refl intro: c split: option.splits prod.splits sum.splits)
  show "follows cfg HandleCreateForm" unfolding HandleCreateForm_def
    by (rule follows_cookie, rule followsI) (auto intro!: runs_refl intro: c split: prod.splits sum.splits)
qed

lemma follows_edit: "follows cfg (UpdateLink i)" "follows cfg (DeleteLink i)"
proof -
  have u: "runs cf N ap ap'"
    if "careful cf env" "LinkService_Update cf (en_link env) i req who adm (ap_svc ap) = (t, res)"
      "ap_svc ap' = t" "ap_clicks ap' = ap_clicks ap" for cf N env req who adm ap t res ap'
    using that by (intro runs_more [OF runs_update]) (auto simp: careful_def)
  have d: "runs cf N ap ap'"
    if "LinkService_Delete cf (en_link env) i who adm (ap_svc ap) = (t, err, evs)"
      "ap_svc ap' = t" "ap_clicks ap' = ap_clicks ap" for cf N env who adm ap t err evs ap'
    using that by (intro runs_more [OF runs_delete])
  show "follows cfg (UpdateLink i)" unfolding UpdateLink_def
    by (rule follows_session, rule followsI) (auto intro!: runs_refl intro: u split: option.splits prod.splits sum.splits)
  show "follows cfg (DeleteLink i)" unfolding DeleteLink_def
    by (rule follows_session, rule followsI) (auto intro: d split: option.splits prod.splits)
qed

lemma runs_subset:
  assumes "runs cfg N a b" and "N \<subseteq> M"
  shows "runs cfg M a b"
proof (rule runsI)
  fix s assume s: "behind a s" "M \<inter> sv_used s = {}"
  then have "N \<inter> sv_used s = {}" using assms(2) by blast
  with assms(1) s(1) obtain s' where "(serve cfg)\<^sup>*\<^sup>* s s'" "behind b s'" "sv_used s' \<subseteq> sv_used s \<union> N"
    unfolding runs_def by blast
  then show "\<exists>s'. (serve cfg)\<^sup>*\<^sup>* s s' \<and> behind b s' \<and> sv_used s' \<subseteq> sv_used s \<union> M"
    using assms(2) by blast
qed

lemma import_jobs_rows: "distinct (map fst (import_jobs hs u rows))"
proof -
  have e: "map fst (List.map_filter (\<lambda>(i, row). map_option (Pair (i + 2)) (import_request hs u row)) xs) =
      map (\<lambda>p. fst p + 2) (filter (\<lambda>p. import_request hs u (snd p) \<noteq> None) xs)" for xs :: "(nat \<times> string list) list"
    by (induction xs) (auto simp: List.map_filter_simps split: option.splits)
  have "map (\<lambda>p. fst p + 2) (zip [0..<length rows] rows) = map (\<lambda>i. i + 2) [0..<length rows]"
    by (rule nth_equalityI) simp_all
  then have "distinct (map (\<lambda>p. fst p + 2) (zip [0..<length rows] rows))" by (simp add: distinct_map inj_on_def)
  then show ?thesis unfolding import_jobs_def e by (rule distinct_map_filter)
qed

lemma follows_import: "follows cfg BulkImport"
proof -
  have c: "runs cf (drawn env) ap ap'"
    if h: "careful cf env" "ImportCSV cf (en_imports env) (en_sched env) records who (ap_svc ap) = (t, res)"
      "ap_svc ap' = t" "ap_clicks ap' = ap_clicks ap" for cf env records who ap t res ap'
  proof (cases "t = ap_svc ap")
    case True
    then show ?thesis using h by (intro runs_same) simp_all
  next
    case False
    then obtain hs u rows b b' where j:
      "run_jobs cf (en_imports env) who (en_sched env (import_jobs hs u rows)) (ap_svc ap, b) = (t, b')"
      using h(2) by (auto simp: ImportCSV_def split: option.splits list.splits prod.splits)
    have "mset (map fst (en_sched env (import_jobs hs u rows))) = mset (map fst (import_jobs hs u rows))"
      using h(1) by (simp add: careful_def)
    then have "distinct (map fst (en_sched env (import_jobs hs u rows)))"
      using import_jobs_rows by (metis mset_eq_imp_distinct_iff)
    with h j show ?thesis
      by (intro runs_subset [OF runs_jobs [OF j]]) (auto simp: careful_def drawn_def)
  qed
  show ?thesis unfolding BulkImport_def
    by (rule follows_session, rule followsI) (auto intro!: runs_refl intro: c split: option.splits prod.splits sum.splits)
qed

text \<open>The pages.\<close>

lemma page_state: "fst (page code body env r ap) = fst (getAuthSession env r ap)"
  by (cases "getAuthSession env r ap") (auto simp: page_def cabecera_def split: option.splits)

lemma runs_page: "careful cfg env \<Longrightarrow> runs cfg N ap (fst (page code body env r ap))"
  by (simp add: page_state runs_caller(1))

text \<open>The domain of a request is a host name without its port.\<close>

lemma request_domain_free: "colon_free (request_domain r cfg)"
  using before_char_notin by (auto simp: request_domain_def extractDomain_def colon_free_def Let_def)

lemma follows_redirect: "follows cfg (Redirect slug)"
proof (rule followsI)
  fix env r ap
  assume c: "careful cfg env"
  note cf = request_domain_free [of r "app_cfg ap"]
  obtain t found err where q: "LinkService_Resolve (en_link env) (request_domain r (app_cfg ap)) slug (ap_svc ap) = (t, found, err)"
    by (metis prod.collapse)
  have stay: "runs cfg {} ap (ap\<lparr>ap_svc := t\<rparr>)" by (rule runs_resolve [OF q cf]) simp_all
  have page: "runs cfg N ap (fst (page code body env r (ap\<lparr>ap_svc := t\<rparr>)))" for N code body
    using runs_page [OF c] runs_after [OF stay] by blast
  have go: "runs cfg N ap (ap\<lparr>ap_svc := t, ap_clicks := ap_clicks ap @ [(l_ID l, l_Domain l, slug, v)]\<rparr>)"
    if "found = Some l" "err = None" "\<not> l_HasPIN l" for N l v
    using that by (intro runs_more [OF runs_resolve [OF q cf]]) auto
  show "runs cfg (drawn env) ap (fst (Redirect slug env r ap))"
    by (auto simp: Redirect_def not_found_def q Let_def expired_page_def missing_page_def split: option.splits
        intro: runs_refl page go runs_more [OF stay])
qed

lemma follows_verify: "follows cfg (Verify slug)"
proof (rule followsI)
  fix env r ap
  assume c: "careful cfg env"
  note page = runs_page [OF c]
  have bad: "runs cfg N ap (fst (page code body env r (ap\<lparr>ap_guard := g\<rparr>)))" for N code body g
    by (rule runs_after [OF runs_same page]) simp_all
  show "runs cfg (drawn env) ap (fst (Verify slug env r ap))"
    by (auto simp: Verify_def not_found_def expired_page_def missing_page_def split: sum.splits prod.splits bool.splits
        intro: runs_refl page bad runs_more [OF runs_pin_visit])
qed

lemma follows_shown: "follows cfg (Preview slug)" "follows cfg (ShowForm slug)" "follows cfg CleanPreview" "follows cfg healthz"
  "follows cfg health" "follows cfg (static_file version)"
  by (rule followsI, auto simp: Preview_def ShowForm_def not_found_def expired_page_def missing_page_def CleanPreview_def healthz_def health_def
      static_file_def split: sum.splits option.splits intro!: runs_refl runs_page)+

lemma follows_callers: "follows cfg ExportLinks" "follows cfg Dashboard" "follows cfg Me"
proof -
  show "follows cfg ExportLinks"
  proof (rule followsI)
    fix env r ap assume "careful cfg env"
    from runs_caller(1) [OF this, of "drawn env" ap r] show "runs cfg (drawn env) ap (fst (ExportLinks env r ap))"
      by (cases "getAuthSession env r ap") (auto simp: ExportLinks_def split: option.splits)
  qed
  have "runs cfg (drawn env) ap (fst (Dashboard env r ap)) \<and> runs cfg (drawn env) ap (fst (Me env r ap))"
    if "careful cfg env" for env r ap
    using runs_caller(2) [OF that, of "drawn env" ap r]
    by (cases "cookie_caller env r ap") (auto simp: Dashboard_def Me_def Let_def split: option.splits)
  then show "follows cfg Dashboard" "follows cfg Me" by (simp_all add: follows_def)
qed

text \<open>Signing in and out.\<close>

lemma db_moves_save:
  assumes "saveOIDCSession e a s sid tok d = (d', res)"
  shows "db_moves cfg d d'"
  using assms by (intro db_moves_links) (auto simp: saveOIDCSession_def Let_def insert_row_Some split: if_splits option.splits prod.splits)

lemma db_moves_callback:
  assumes "\<And>d. db_moves cfg d (ae_Meanwhile e d)" and "HandleCallback e a r d = (d', res)"
  shows "db_moves cfg d d'"
  using HandleCallback_cases [OF assms(2)] assms(1)
  by (metis db_moves_trans db_moves_save db_moves_adopt db_moves_links)

lemma follows_signs: "follows cfg Callback" "follows cfg Logout" "follows cfg Login" "follows cfg BackchannelLogoutHandler"
proof -
  show "follows cfg Callback"
  proof (rule followsI)
    fix env r ap assume "careful cfg env"
    then have m: "\<And>d. db_moves cfg d (ae_Meanwhile (en_auth env) d)" by (simp add: careful_def)
    obtain d res where h: "HandleCallback (en_auth env) (ap_auth ap) r (app_db ap) = (d, res)" by (metis prod.collapse)
    have "runs cfg N ap (set_app_db d ap)" for N
      using db_moves_callback [OF m h] by (intro runs_db) (simp_all add: set_app_db_def app_db_def)
    then show "runs cfg (drawn env) ap (fst (Callback env r ap))"
      by (auto simp: Callback_def h split: sum.splits option.splits)
  qed
  show "follows cfg Logout"
    by (rule followsI) (auto simp: Logout_def RevokeSession_def drop_session_def intro!: runs_table
        split: option.splits prod.splits if_splits)
  show "follows cfg Login"
    by (rule followsI) (auto simp: Login_def Let_def intro!: runs_same split: option.splits sum.splits prod.splits)
  show "follows cfg BackchannelLogoutHandler"
  proof (rule followsI)
    fix env :: app_env and r ap
    have "db_links d' = db_links d" if "BackchannelLogout (en_auth env) a raw d = (a', d', e)" for a raw d a' d' e
      using that by (auto simp: BackchannelLogout_def Let_def insert_row_Some split: if_splits option.splits prod.splits)
    then have "runs cfg N ap (set_app_db d (ap\<lparr>ap_auth := a\<rparr>))"
      if "BackchannelLogout (en_auth env) (ap_auth ap) raw (app_db ap) = (a, d, e)" for N raw a d e
      using that by (intro runs_db db_moves_links) (auto simp: set_app_db_def app_db_def)
    then show "runs cfg (drawn env) ap (fst (BackchannelLogoutHandler env r ap))"
      by (auto simp: BackchannelLogoutHandler_def Let_def intro: runs_refl split: option.splits list.splits prod.splits)
  qed
qed

section \<open>The program\<close>

lemma follows_handler: "follows cfg (handler_of miss version e p)"
proof (cases "e = E_auth_other \<or> e = E_api_other")
  case True
  then show ?thesis by (auto simp: handler_of_def follows_def runs_refl)
next
  case False
  then show ?thesis
    by (cases e) (simp_all add: handler_of_def follows_tables follows_forms follows_folder follows_create
        follows_edit follows_import follows_redirect follows_verify follows_shown follows_callers follows_signs)
qed

lemma follows_limit:
  assumes "follows cfg h"
  shows "follows cfg (WriteRateLimit h)"
proof (rule followsI)
  fix env r ap
  assume c: "careful cfg env" "link_cfg_of (app_cfg ap) = cfg"
  obtain ap1 so where g: "getAuthSession env r ap = (ap1, so)" by (metis prod.collapse)
  have cfg1: "app_cfg ap1 = app_cfg ap" using getAuthSession_cfg [of env r ap] g by simp
  have ap1: "runs cfg N ap ap1" for N using runs_caller(1) [OF c(1), of N ap r] g by simp
  have b: "runs cfg N ap (ap1\<lparr>ap_bucket := x\<rparr>)" for N x by (rule runs_cong [OF ap1]) simp_all
  have x: "app_cfg (ap1\<lparr>ap_bucket := x\<rparr>) = app_cfg ap" for x using cfg1 by (simp add: app_cfg_def)
  have f: "runs cfg (drawn env) a (fst (h env r a))" if "app_cfg a = app_cfg ap" for a
    using assms c that by (simp add: follows_def)
  have h: "runs cfg (drawn env) ap (fst (h env r ap))" "runs cfg (drawn env) ap (fst (h env r ap1))"
    "runs cfg (drawn env) ap (fst (h env r (ap1\<lparr>ap_bucket := y\<rparr>)))" for y
    using f [of ap] runs_after [OF ap1 f [OF cfg1]] runs_after [OF b f [OF x]] by simp_all
  show "runs cfg (drawn env) ap (fst (WriteRateLimit h env r ap))"
    by (auto simp: WriteRateLimit_def g split: option.splits prod.splits bool.splits intro: h b)
qed

lemma follows_serve:
  assumes "careful cfg env" and "link_cfg_of (app_cfg ap) = cfg"
  shows "runs cfg (drawn env) ap (fst (serve_http mux miss version env r ap))"
proof (cases "mux route_table (rq_Method r) (segments (rq_Path r))")
  case None
  then show ?thesis by (simp add: serve_http_def runs_refl)
next
  case (Some q)
  obtain e vals where q: "q = (e, vals)" by (cases q)
  have "follows cfg (limited miss version e (concat vals))"
    using follows_handler follows_limit by (simp add: limited_def)
  then show ?thesis using assms(1,2)
    by (auto simp: serve_http_def Some q follows_def split: prod.splits) (metis fst_conv)
qed

text \<open>
  The states the program reaches, with the identifiers drawn so far: requests, the goroutines of
  clicks, and the delivery of events, in any order. The requests are any requests.
\<close>

inductive program_run :: "mux \<Rightarrow> miss \<Rightarrow> string \<Rightarrow> config \<Rightarrow> db \<Rightarrow> app \<Rightarrow> string set \<Rightarrow> bool"
  for mux miss version cfg d0 where
  started: "program_run mux miss version cfg d0 (main_app rnd env0 cfg d0) (l_ID ` set (db_links d0))"
| request: "program_run mux miss version cfg d0 a U \<Longrightarrow> careful (link_cfg_of cfg) env \<Longrightarrow> drawn env \<inter> U = {} \<Longrightarrow>
    serve_http mux miss version env r a = (b, rs) \<Longrightarrow> program_run mux miss version cfg d0 b (U \<union> drawn env)"
| clicked: "program_run mux miss version cfg d0 a U \<Longrightarrow> (i, dm, slug, v) \<in> set (ap_clicks a) \<Longrightarrow>
    RecordClick (link_cfg_of cfg) env i dm slug v (ap_svc a) = (svc, evs) \<Longrightarrow>
    program_run mux miss version cfg d0 (a\<lparr>ap_svc := svc, ap_clicks := remove1 (i, dm, slug, v) (ap_clicks a),
      ap_events := ap_events a @ evs\<rparr>) U"
| delivered: "program_run mux miss version cfg d0 a U \<Longrightarrow> ev \<in> set (ap_events a) \<Longrightarrow>
    program_run mux miss version cfg d0 (a\<lparr>ap_events := remove1 ev (ap_events a)\<rparr>) U"

lemma served_more: "(serve cfg)\<^sup>*\<^sup>* s t \<Longrightarrow> served cfg s0 s \<Longrightarrow> served cfg s0 t"
  by (induction rule: rtranclp_induct) (auto intro: served.more)

lemma program_behind:
  assumes "program_run mux miss version cfg d0 ap U"
  shows "\<exists>s. served (link_cfg_of cfg) (boot d0 10000 (15 * minute_ns)) s \<and> behind ap s \<and> sv_used s \<subseteq> U \<and> app_cfg ap = cfg"
  using assms
proof induction
  case (started rnd env0)
  show ?case
    by (intro exI [of _ "boot d0 10000 (15 * minute_ns)"]) (auto simp: behind_def boot_def main_app_def served.start app_cfg_def NewAuthService_def Let_def split: option.splits)
next
  case (request a U env r b rs)
  then obtain s where s: "served (link_cfg_of cfg) (boot d0 10000 (15 * minute_ns)) s" "behind a s" "sv_used s \<subseteq> U" "app_cfg a = cfg"
    by blast
  have b: "b = fst (serve_http mux miss version env r a)" using request.hyps by simp
  have "runs (link_cfg_of cfg) (drawn env) a b" unfolding b
    using request.hyps s(4) by (intro follows_serve) simp_all
  moreover have "drawn env \<inter> sv_used s = {}" using s(3) request.hyps by blast
  ultimately obtain s' where s': "(serve (link_cfg_of cfg))\<^sup>*\<^sup>* s s'" "behind b s'" "sv_used s' \<subseteq> sv_used s \<union> drawn env"
    using s(2) unfolding runs_def by blast
  have "app_cfg b = cfg" using s(4) by (simp add: b serve_http_cfg)
  then show ?case using s'(2,3) s(3) served_more [OF s'(1) s(1)] by blast
next
  case (clicked a U i dm slug v env svc evs)
  then obtain s where s: "served (link_cfg_of cfg) (boot d0 10000 (15 * minute_ns)) s" "behind a s" "sv_used s \<subseteq> U" "app_cfg a = cfg"
    by blast
  let ?b = "a\<lparr>ap_svc := svc, ap_clicks := remove1 (i, dm, slug, v) (ap_clicks a), ap_events := ap_events a @ evs\<rparr>"
  have "runs (link_cfg_of cfg) {} a ?b" using clicked.hyps by (intro runs_click) auto
  then obtain s' where s': "(serve (link_cfg_of cfg))\<^sup>*\<^sup>* s s'" "behind ?b s'" "sv_used s' \<subseteq> sv_used s"
    using s(2) unfolding runs_def by fastforce
  moreover have "app_cfg ?b = cfg" using s(4) by (simp add: app_cfg_def)
  ultimately show ?case using s(3) served_more [OF s'(1) s(1)] by blast
next
  case (delivered a U ev)
  then show ?case by (auto simp: app_cfg_def behind_def)
qed

text \<open>
  Claim C4. The program runs the link service: whatever requests it has served one after
  the other, to any path and with any slug, in whatever order with the goroutines that count clicks,
  the database and the cache are those of a reachable state of the concurrent link service started on the same database, and every click still to be
  counted is one that service has scheduled.
\<close>

theorem program_refines_serving:
  assumes "program_run mux miss version cfg d0 ap U"
  shows "\<exists>s. served (link_cfg_of cfg) (boot d0 10000 (15 * minute_ns)) s \<and> ap_svc ap = sv_svc s \<and>
    sv_readers s = [] \<and> mset (ap_clicks ap) \<subseteq># mset (sv_clicks s)"
  using program_behind [OF assms] by (auto simp: behind_def)

text \<open>A program whose database holds one link, and a visit to it.\<close>

definition program_env :: app_env where
  "program_env = example_request_env\<lparr>en_link := example_env\<lparr>le_uuid := ''u2''\<rparr>,
     en_imports := \<lambda>n. example_env\<lparr>le_uuid := replicate n CHR ''x''\<rparr>\<rparr>"

definition one_link :: db where "one_link = empty_db\<lparr>db_links := [example_link]\<rparr>"

definition first_app :: app where "first_app = main_app (\<lambda>x. x) example_auth example_oidc one_link"

definition visit_request :: request where "visit_request = blank_request\<lparr>rq_Path := ''/promo''\<rparr>"

lemma program_env_careful: "careful cfg program_env" "drawn program_env \<inter> {''u1''} = {}"
proof -
  have "inj (\<lambda>n. replicate n CHR ''x'')" by (rule injI) (metis length_replicate)
  then show "careful cfg program_env"
    by (simp add: careful_def program_env_def example_request_env_def hash_ok_def example_env_def example_hash_def
        db_moves_links example_auth_def)
  have "''u1'' \<noteq> replicate n CHR ''x''" for n by (cases n) auto
  then show "drawn program_env \<inter> {''u1''} = {}"
    by (auto simp: drawn_def program_env_def example_request_env_def)
qed

lemma program_visit:
  "program_run example_mux miss version example_oidc one_link
     (fst (serve_http example_mux miss version program_env visit_request first_app)) ({''u1''} \<union> drawn program_env)"
proof -
  have "program_run example_mux miss version example_oidc one_link first_app {''u1''}"
    using program_run.started [of example_mux miss version example_oidc one_link "\<lambda>x. x" example_auth]
    by (simp add: first_app_def one_link_def)
  then show ?thesis
  proof (rule program_run.request)
    show "careful (link_cfg_of example_oidc) program_env" "drawn program_env \<inter> {''u1''} = {}"
      by (rule program_env_careful)+
  qed (rule prod.collapse [symmetric])
qed

theorem program_refines_serving_witness:
  "\<exists>s. served (link_cfg_of example_oidc) (boot one_link 10000 (15 * minute_ns)) s \<and>
     ap_svc (fst (serve_http example_mux (\<lambda>r. http_error 404 R_empty) ''v1'' program_env visit_request first_app)) = sv_svc s"
  using program_refines_serving [OF program_visit] by blast

end
