(* ===== verification/Http_Location.thy ===== *)
theory Http_Location
  imports Http
begin

text \<open>
  The \<open>Location\<close> header \<open>http.Redirect\<close> makes of the address a handler gives it: an address with a scheme
  is sent as it is, another one is made absolute with the path of the request and cleaned as
  \<open>path.Clean\<close> does; the bytes that are not ASCII are escaped. The path of a request starts with
  a slash.
\<close>

text \<open>The segments of a rooted path, without empty ones, dots and what \<open>..\<close> takes back.\<close>

fun clean_segments :: "string list \<Rightarrow> string list \<Rightarrow> string list" where
  "clean_segments acc [] = rev acc"
| "clean_segments acc (s # ss) =
     (if s = [] \<or> s = ''.'' then clean_segments acc ss
      else if s = ''..'' then clean_segments (drop 1 acc) ss
      else clean_segments (s # acc) ss)"

definition path_Clean :: "string \<Rightarrow> string" where
  "path_Clean p = ''/'' @ join_with ''/'' (clean_segments [] (split_on CHR ''/'' p))"

definition path_dir :: "string \<Rightarrow> string" where
  "path_dir p = rev (dropWhile (\<lambda>c. c \<noteq> CHR ''/'') (rev p))"

definition lower_hex :: "nat \<Rightarrow> char" where
  "lower_hex n = char_of (if n < 10 then 48 + n else 87 + n)"

definition hexEscapeNonASCII :: "string \<Rightarrow> string" where
  "hexEscapeNonASCII s =
     concat (map (\<lambda>c. if byte c \<ge> 128 then [CHR ''%'', lower_hex (byte c div 16), lower_hex (byte c mod 16)] else [c]) s)"

definition absolute_path :: "string \<Rightarrow> string \<Rightarrow> string" where
  "absolute_path oldpath url =
     (let url = (if has_prefix url ''/'' then url else path_dir (if oldpath = [] then ''/'' else oldpath) @ url);
          p = takeWhile (\<lambda>c. c \<noteq> CHR ''?'') url; query = dropWhile (\<lambda>c. c \<noteq> CHR ''?'') url;
          c = path_Clean p
      in (if has_suffix p ''/'' \<and> \<not> has_suffix c ''/'' then c @ ''/'' else c) @ query)"

definition redirect_location :: "request \<Rightarrow> string \<Rightarrow> string" where
  "redirect_location r url =
     hexEscapeNonASCII (case Url_Parse url of
        None \<Rightarrow> url
      | Some u \<Rightarrow> if u_Scheme u = [] then absolute_path (rq_Path r) url else url)"

text \<open>The header of a response.\<close>

definition location :: "request \<Rightarrow> 'b response \<Rightarrow> string option" where
  "location r rs = map_option (redirect_location r) (rs_Redirect rs)"

definition ascii :: "string \<Rightarrow> bool" where "ascii s \<longleftrightarrow> list_all (\<lambda>c. byte c < 128) s"

lemma hexEscape_ascii: "ascii s \<Longrightarrow> hexEscapeNonASCII s = s"
  by (induction s) (auto simp: ascii_def hexEscapeNonASCII_def)

text \<open>A path of one or two plain segments is clean.\<close>

definition plain_segment :: "string \<Rightarrow> bool" where
  "plain_segment s \<longleftrightarrow> s \<noteq> [] \<and> s \<noteq> ''.'' \<and> s \<noteq> ''..'' \<and> CHR ''/'' \<notin> set s \<and> CHR ''?'' \<notin> set s \<and> ascii s"

lemma absolute_path_plain:
  assumes "plain_segment a" and "plain_segment b"
  shows "absolute_path oldpath (''/'' @ a @ ''/'' @ b) = ''/'' @ a @ ''/'' @ b"
proof -
  define u where "u = ''/'' @ a @ ''/'' @ b"
  have q: "CHR ''?'' \<notin> set u" using assms by (auto simp: plain_segment_def u_def)
  have cut: "takeWhile (\<lambda>c. c \<noteq> CHR ''?'') u = u" "dropWhile (\<lambda>c. c \<noteq> CHR ''?'') u = []"
    using q by (auto simp: takeWhile_eq_all_conv dropWhile_eq_Nil_conv)
  have "split_on CHR ''/'' u = [[], a, b]"
    using assms split_on_append [of "CHR ''/''" a b] by (simp add: plain_segment_def split_on_none u_def)
  then have c: "path_Clean u = u" using assms by (simp add: path_Clean_def plain_segment_def u_def)
  have "\<not> has_suffix u ''/''"
    using assms by (cases b rule: rev_cases) (auto simp: has_suffix_def has_prefix_def plain_segment_def u_def)
  moreover have "has_prefix u ''/''" by (simp add: has_prefix_def u_def)
  ultimately have "absolute_path oldpath u = u" by (simp add: absolute_path_def cut c)
  then show ?thesis by (simp add: u_def)
qed

lemma redirect_location_plain:
  assumes "plain_segment a" and "plain_segment b"
  shows "redirect_location r (''/'' @ a @ ''/'' @ b) = ''/'' @ a @ ''/'' @ b"
proof -
  have "ascii (''/'' @ a @ ''/'' @ b)" using assms by (auto simp: plain_segment_def ascii_def byte_def)
  then show ?thesis using absolute_path_plain [OF assms, of "rq_Path r"]
    by (auto simp: redirect_location_def hexEscape_ascii split: option.splits)
qed

lemma redirect_location_absolute:
  "Url_Parse url = Some u \<Longrightarrow> u_Scheme u \<noteq> [] \<Longrightarrow> ascii url \<Longrightarrow> redirect_location r url = url"
  by (simp add: redirect_location_def hexEscape_ascii)

end
