(* ===== verification/Visits.thy ===== *)
theory Visits
  imports Tenancy Program_Run Http_Location
begin

text \<open>
  Visitors, end to end: from the request of a visitor through the handlers of redirect.go and
  pin.go, the link service, its cache and the delayed click. What the pages of a protected link
  give away, and how many visitors a link with a click budget serves.
\<close>

section \<open>Pages\<close>

text \<open>A page sends nobody anywhere and queues no click; it may only look for the caller.\<close>

lemma getAuthSession_rest [simp]:
  "ap_clicks (fst (getAuthSession env r ap)) = ap_clicks ap" "ap_guard (fst (getAuthSession env r ap)) = ap_guard ap"
  "ls_cache (ap_svc (fst (getAuthSession env r ap))) = ls_cache (ap_svc ap)"
  by (auto simp: getAuthSession_def set_app_db_def split: option.splits prod.splits sum.splits)

lemma page_rest [simp]:
  "rs_Redirect (snd (page code body env r ap)) = None" "rs_Status (snd (page code body env r ap)) = code"
  "fst (page code body env r ap) = fst (getAuthSession env r ap)"
  "rs_Body (snd (page code body env r ap)) = body (snd (cabecera env r ap))"
  by (simp_all add: page_state) (auto simp: page_def status_only_def split: prod.splits)

section \<open>A link with a PIN\<close>

text \<open>The reachable states of the program, with the cache that goes with their database.\<close>

lemma program_coherent:
  assumes "program_run mux miss version cfg d0 ap U" and "links_ok (db_links d0)" and "slugs_ok (db_links d0)"
  obtains s where "coherent s" and "ap_svc ap = sv_svc s" and "app_cfg ap = cfg"
proof -
  obtain s where s: "served (link_cfg_of cfg) (boot d0 10000 (15 * minute_ns)) s" "behind ap s" "app_cfg ap = cfg"
    using program_behind [OF assms(1)] by blast
  with that [OF served_boot_coherent [OF s(1) assms(2,3)]] show thesis by (simp add: behind_def)
qed

text \<open>The three handlers, given what their lookups return.\<close>

lemma redirect_pin:
  assumes "Redirect slug env r ap = (ap', rs)"
    and "\<And>l t. LinkService_Resolve (en_link env) (request_domain r (app_cfg ap)) slug (ap_svc ap) = (t, Some l, None) \<Longrightarrow> l_HasPIN l"
  shows "rs_Redirect rs \<in> {None, Some (''/pin/'' @ slug)} \<and> ap_clicks ap' = ap_clicks ap"
proof -
  obtain t found err where q: "LinkService_Resolve (en_link env) (request_domain r (app_cfg ap)) slug (ap_svc ap) = (t, found, err)"
    by (metis prod.collapse)
  have page: "rs_Redirect rs = None \<and> ap_clicks ap' = ap_clicks ap"
    if "page code body env r (ap\<lparr>ap_svc := t\<rparr>) = (ap', rs)" for code body
    using page_rest [of code body env r "ap\<lparr>ap_svc := t\<rparr>"] that by simp
  show ?thesis
  proof (cases "slug = []")
    case True
    then show ?thesis using assms(1) by (auto simp: Redirect_def not_found_def http_error_def status_only_def)
  next
    case False
    note d = assms(1) [unfolded Redirect_def q Let_def expired_page_def missing_page_def, simplified False, simplified]
    show ?thesis
    proof (cases found)
      case None
      then show ?thesis using d by (auto dest!: page)
    next
      case (Some l)
      then show ?thesis using d assms(2) [of t l] q
        by (auto simp: redirect_to_def split: if_splits dest!: page)
    qed
  qed
qed

lemma preview_pin:
  assumes "Preview slug env r ap = (ap', rs)"
    and "\<And>l. GetBySlugRaw (en_link env) (request_domain r (app_cfg ap)) slug (app_db ap) = Inr l \<Longrightarrow> l_HasPIN l"
  shows "rs_Redirect rs \<in> {None, Some (''/pin/'' @ slug)} \<and> (\<forall>u p. rs_Body rs \<noteq> P_preview u p)"
proof -
  have rs: "rs = snd (Preview slug env r ap)" using assms(1) by simp
  show ?thesis using assms(2)
    by (auto simp: rs Preview_def missing_page_def error_of_def not_found_def http_error_def redirect_to_def status_only_def split: sum.splits)
qed

lemma verify_cases:
  assumes "Verify slug env r ap = (ap', rs)"
  shows "(\<forall>t. rs_Redirect rs = Some t \<longrightarrow> (\<exists>l. GetBySlugRaw (en_link env) (request_domain r (app_cfg ap)) slug (app_db ap) = Inr l \<and>
       t = l_TargetURL l \<and> \<not> IsExpired (le_now (en_link env)) l \<and>
       \<not> fst (PINGuard_Locked (en_now env) (l_ID l) (ap_guard ap)) \<and>
       VerifyPIN (en_compare env) (trim_space (FormValue r ''pin'')) (l_PinHash l)))"
    "rs_Status rs = 401 \<longrightarrow> (\<exists>l. GetBySlugRaw (en_link env) (request_domain r (app_cfg ap)) slug (app_db ap) = Inr l \<and>
       ap_guard ap' = PINGuard_Failed (en_now env) (l_ID l) (ap_guard ap))"
proof -
  have rs: "ap' = fst (Verify slug env r ap)" "rs = snd (Verify slug env r ap)" using assms by simp_all
  show "\<forall>t. rs_Redirect rs = Some t \<longrightarrow> (\<exists>l. GetBySlugRaw (en_link env) (request_domain r (app_cfg ap)) slug (app_db ap) = Inr l \<and>
       t = l_TargetURL l \<and> \<not> IsExpired (le_now (en_link env)) l \<and>
       \<not> fst (PINGuard_Locked (en_now env) (l_ID l) (ap_guard ap)) \<and>
       VerifyPIN (en_compare env) (trim_space (FormValue r ''pin'')) (l_PinHash l))"
    by (auto simp: rs Verify_def not_found_def http_error_def redirect_to_def expired_page_def missing_page_def status_only_def
        split: sum.splits prod.splits bool.splits)
  show "rs_Status rs = 401 \<longrightarrow> (\<exists>l. GetBySlugRaw (en_link env) (request_domain r (app_cfg ap)) slug (app_db ap) = Inr l \<and>
       ap_guard ap' = PINGuard_Failed (en_now env) (l_ID l) (ap_guard ap))"
    by (auto simp: rs Verify_def not_found_def http_error_def redirect_to_def expired_page_def missing_page_def status_only_def redirect_code_def
        split: sum.splits prod.splits bool.splits)
qed

text \<open>A guess against a link that is active and whose guard is open is refused by 401 and counted.\<close>

lemma verify_wrong:
  assumes "Verify slug env r ap = (ap', rs)" and "slug \<noteq> []"
    and "GetBySlugRaw (en_link env) (request_domain r (app_cfg ap)) slug (app_db ap) = Inr l"
    and "\<not> IsExpired (le_now (en_link env)) l" and "\<not> fst (PINGuard_Locked (en_now env) (l_ID l) (ap_guard ap))"
    and "\<not> VerifyPIN (en_compare env) (trim_space (FormValue r ''pin'')) (l_PinHash l)"
  shows "rs_Status rs = 401 \<and> rs_Redirect rs = None \<and> ap_clicks ap' = ap_clicks ap \<and>
    ap_guard ap' = PINGuard_Failed (en_now env) (l_ID l) (ap_guard ap)"
proof -
  obtain rest where "PINGuard_Locked (en_now env) (l_ID l) (ap_guard ap) = (False, rest)"
    using assms(5) by (cases "PINGuard_Locked (en_now env) (l_ID l) (ap_guard ap)") simp
  then have "Verify slug env r ap = page 401 (pin_of (app_cfg ap) slug (Some ''Incorrect PIN code. Please try again.'')) env r
      (ap\<lparr>ap_guard := PINGuard_Failed (en_now env) (l_ID l) (ap_guard ap)\<rparr>)"
    using assms(2-4,6) by (simp add: Verify_def)
  with assms(1) have "ap' = fst (page 401 (pin_of (app_cfg ap) slug (Some ''Incorrect PIN code. Please try again.'')) env r
      (ap\<lparr>ap_guard := PINGuard_Failed (en_now env) (l_ID l) (ap_guard ap)\<rparr>))"
    "rs = snd (page 401 (pin_of (app_cfg ap) slug (Some ''Incorrect PIN code. Please try again.'')) env r
      (ap\<lparr>ap_guard := PINGuard_Failed (en_now env) (l_ID l) (ap_guard ap)\<rparr>))" by simp_all
  then show ?thesis by simp
qed

definition meant :: "string \<Rightarrow> string \<Rightarrow> link list \<Rightarrow> link set" where
  "meant dm slug rs = {x \<in> set rs. l_Slug x = slug \<and> l_Domain x \<in> {dm, []}}"

text \<open>
  Claim C6. A PIN closes every door but one. In every state the program reaches, whatever was asked
  of it before, take a slug without a colon, as every slug the service accepts is. When the links a
  visitor may mean by it on this host carry a PIN, the redirection goes nowhere but to the PIN form
  and queues no click, the preview shows no link and goes nowhere but to that form, and the form
  itself sends the visitor on only to the target of such a link that is active and within its
  limits, whose guard is open and against whose hash the PIN given verifies. A wrong PIN for the
  link the database finds, while that link is active and its guard open, is answered by 401, without
  a redirection or a click, and counted by the guard against that link; no 401 goes uncounted.
  (By a slug with a colon an entry cached before the PIN was set may still be reached,
  see \<open>colon_slug_survives_delete\<close>.)
\<close>

theorem pin_closes_every_door:
  assumes "program_run mux miss version cfg d0 ap U" and "links_ok (db_links d0)" and "slugs_ok (db_links d0)"
    and "colon_free slug" and "\<forall>x\<in>meant (request_domain r cfg) slug (db_links (app_db ap)). l_PinHash x \<noteq> []"
    and "Redirect slug env r ap = (ap1, rs1)" and "Preview slug env r ap = (ap2, rs2)" and "Verify slug env r ap = (ap3, rs3)"
  shows "rs_Redirect rs1 \<in> {None, Some (''/pin/'' @ slug)} \<and> ap_clicks ap1 = ap_clicks ap \<and>
    rs_Redirect rs2 \<in> {None, Some (''/pin/'' @ slug)} \<and> (\<forall>u p. rs_Body rs2 \<noteq> P_preview u p) \<and>
    (\<forall>t. rs_Redirect rs3 = Some t \<longrightarrow> (\<exists>x\<in>meant (request_domain r cfg) slug (db_links (app_db ap)).
       t = l_TargetURL x \<and> \<not> IsExpired (le_now (en_link env)) x \<and>
       \<not> fst (PINGuard_Locked (en_now env) (l_ID x) (ap_guard ap)) \<and>
       VerifyPIN (en_compare env) (trim_space (FormValue r ''pin'')) (l_PinHash x))) \<and>
    (rs_Status rs3 = 401 \<longrightarrow> (\<exists>x\<in>meant (request_domain r cfg) slug (db_links (app_db ap)).
       ap_guard ap3 = PINGuard_Failed (en_now env) (l_ID x) (ap_guard ap))) \<and>
    (\<forall>l. slug \<noteq> [] \<and> GetBySlugRaw (en_link env) (request_domain r cfg) slug (app_db ap) = Inr l \<and>
       \<not> IsExpired (le_now (en_link env)) l \<and> \<not> fst (PINGuard_Locked (en_now env) (l_ID l) (ap_guard ap)) \<and>
       \<not> VerifyPIN (en_compare env) (trim_space (FormValue r ''pin'')) (l_PinHash l) \<longrightarrow>
       rs_Status rs3 = 401 \<and> rs_Redirect rs3 = None \<and> ap_clicks ap3 = ap_clicks ap \<and>
       ap_guard ap3 = PINGuard_Failed (en_now env) (l_ID l) (ap_guard ap))"
proof -
  let ?dm = "request_domain r cfg" and ?rs = "db_links (app_db ap)"
  obtain s where s: "coherent s" "ap_svc ap = sv_svc s" "app_cfg ap = cfg" using program_coherent [OF assms(1-3)] .
  have raw: "\<exists>x\<in>meant ?dm slug ?rs. l = scan_link x" if "GetBySlugRaw (en_link env) ?dm slug (app_db ap) = Inr l" for l
    using GetBySlugRaw_in [OF _ that] coherent_svcD(1) [OF s(1)] s(2) by (auto simp: meant_def app_db_def)
  have pin: "l_HasPIN l" if "LinkService_Resolve (en_link env) ?dm slug (ap_svc ap) = (t, Some l, None)" for l t
    using Resolve_stored [OF s(1) request_domain_free assms(4), of "en_link env" r cfg t l] that s(2) assms(5) serves_as_fields(6)
    by (force simp: meant_def scan_link_def app_db_def)
  have one: "rs_Redirect rs1 \<in> {None, Some (''/pin/'' @ slug)} \<and> ap_clicks ap1 = ap_clicks ap"
    by (rule redirect_pin [OF assms(6) pin [folded s(3)]]) (simp add: s(3))
  have two: "rs_Redirect rs2 \<in> {None, Some (''/pin/'' @ slug)} \<and> (\<forall>u p. rs_Body rs2 \<noteq> P_preview u p)"
  proof (rule preview_pin [OF assms(7), unfolded s(3)])
    fix l assume "GetBySlugRaw (en_link env) ?dm slug (app_db ap) = Inr l"
    from raw [OF this] assms(5) show "l_HasPIN l" by (auto simp: scan_link_def)
  qed
  have scan: "l_TargetURL (scan_link x) = l_TargetURL x" for x by (simp add: scan_link_def)
  have "\<forall>t. rs_Redirect rs3 = Some t \<longrightarrow> (\<exists>x\<in>meant ?dm slug ?rs.
       t = l_TargetURL x \<and> \<not> IsExpired (le_now (en_link env)) x \<and>
       \<not> fst (PINGuard_Locked (en_now env) (l_ID x) (ap_guard ap)) \<and>
       VerifyPIN (en_compare env) (trim_space (FormValue r ''pin'')) (l_PinHash x))"
    using verify_cases(1) [OF assms(8), unfolded s(3)] raw scan by (metis scan_link_simps(1,6,9))
  moreover have "rs_Status rs3 = 401 \<longrightarrow>
      (\<exists>x\<in>meant ?dm slug ?rs. ap_guard ap3 = PINGuard_Failed (en_now env) (l_ID x) (ap_guard ap))"
    using verify_cases(2) [OF assms(8), unfolded s(3)] raw by (metis scan_link_simps(1))
  ultimately show ?thesis using one two verify_wrong [OF assms(8), unfolded s(3)] by blast
qed

theorem pin_closes_every_door_witness:
  "rs_Redirect (snd (Redirect ''promo'' program_env visit_request first_app)) \<in> {None, Some ''/pin/promo''} \<and>
   ap_clicks (fst (Redirect ''promo'' program_env visit_request first_app)) = []"
proof -
  let ?e = program_env and ?r = visit_request
  have db: "db_links (app_db first_app) = [example_link]" and cl: "ap_clicks first_app = []"
    by (simp_all add: first_app_def one_link_def main_app_def app_db_def)
  have "program_run example_mux (\<lambda>r. http_error 404 R_empty) ''v1'' example_oidc one_link first_app (l_ID ` set (db_links one_link))"
    unfolding first_app_def by (rule program_run.started)
  moreover have "colon_free ''promo''" "links_ok (db_links one_link)" "slugs_ok (db_links one_link)"
    by (simp_all add: colon_free_def links_ok_def slugs_ok_def one_link_def)
  moreover have "\<forall>x\<in>meant (request_domain ?r example_oidc) ''promo'' (db_links (app_db first_app)). l_PinHash x \<noteq> []"
    by (auto simp: meant_def db)
  ultimately show ?thesis
    using pin_closes_every_door [OF _ _ _ _ _ prod.collapse [symmetric] prod.collapse [symmetric] prod.collapse [symmetric],
        of example_mux "\<lambda>r. http_error 404 R_empty" "''v1''" example_oidc one_link first_app _ "''promo''" ?r ?e] cl by simp
qed

section \<open>Following a link\<close>

lemma serves_as_urls:
  assumes "serves_as l r"
  shows "owner_urls l = owner_urls r"
proof -
  have u: "uncounted l = uncounted r" using assms by (simp add: serves_as_def)
  have "map (\<lambda>v. v\<lparr>av_ClickCount := 0\<rparr>) (l_ABVariants l) = map (\<lambda>v. v\<lparr>av_ClickCount := 0\<rparr>) (l_ABVariants r)"
    using arg_cong [OF u, of l_ABVariants] by (simp add: uncounted_def)
  from arg_cong [OF this, of "map av_TargetURL"] have "map av_TargetURL (l_ABVariants l) = map av_TargetURL (l_ABVariants r)"
    by (simp add: comp_def)
  then have "av_TargetURL ` set (l_ABVariants l) = av_TargetURL ` set (l_ABVariants r)" by (metis list.set_map)
  then show ?thesis
    using arg_cong [OF u, of l_TargetURL] arg_cong [OF u, of l_IOSURL] arg_cong [OF u, of l_AndroidURL]
      arg_cong [OF u, of l_LocaleRouting] by (simp add: owner_urls_def uncounted_def)
qed

lemma redirect_cases:
  assumes "Redirect slug env r ap = (ap', rs)" and "rs_Redirect rs = Some t"
  obtains svc l where "LinkService_Resolve (en_link env) (request_domain r (app_cfg ap)) slug (ap_svc ap) = (svc, Some l, None)"
    and "if l_HasPIN l then t = ''/pin/'' @ slug
      else rs_Status rs = redirect_code l \<and> t \<in> owner_urls l \<and>
        (\<exists>v. ap_clicks ap' = ap_clicks ap @ [(l_ID l, l_Domain l, slug, v)])"
proof -
  obtain svc found err where q: "LinkService_Resolve (en_link env) (request_domain r (app_cfg ap)) slug (ap_svc ap) = (svc, found, err)"
    by (metis prod.collapse)
  have no: "\<not> page code body env r a = (ap', rs)" for code body a
    using arg_cong [of _ _ "\<lambda>q. rs_Redirect (snd q)"] page_rest(1) assms(2) by (metis option.distinct(1) snd_conv)
  have "slug \<noteq> []" using assms by (auto simp: Redirect_def not_found_def http_error_def status_only_def)
  note d = assms(1) [unfolded Redirect_def q Let_def expired_page_def missing_page_def, simplified this, simplified]
  obtain l where l: "found = Some l" "err = None" using d no by (auto split: option.splits if_splits)
  have url: "url \<in> owner_urls l" if "ResolveDestination dr h l = Some (url, v)" for dr h url v
    using ResolveDestination_owner_urls [where draw = dr and r = h and l = l] that by simp
  show thesis
    by (rule that [OF q [unfolded l]])
      (use d no l assms(2) in \<open>auto simp: redirect_to_def status_only_def split: if_splits option.splits dest: url\<close>)
qed

lemma pin_location: "ValidateCustomSlug slug = None \<Longrightarrow> redirect_location r (''/pin/'' @ slug) = ''/pin/'' @ slug"
proof -
  assume v: "ValidateCustomSlug slug = None"
  have c: "slug_char c" if "c \<in> set slug" for c using that ValidateCustomSlug_chars [OF v] by blast
  have "2 \<le> length slug" using ValidateCustomSlug_chars [OF v] by simp
  have "list_all (\<lambda>c. \<not> slug_char c) ''./?''" by code_simp
  moreover have "byte c < 128" if "slug_char c" for c using that by (auto simp: slug_char_def char_class_defs)
  ultimately have "plain_segment slug" using c \<open>2 \<le> length slug\<close> by (auto simp: plain_segment_def ascii_def list_all_iff)
  moreover have "plain_segment ''pin''" by (simp add: plain_segment_def ascii_def byte_def)
  ultimately show ?thesis using redirect_location_plain [of "''pin''" slug r] by simp
qed

text \<open>
  Claim C2. A visitor goes where the owner sends them. In every state the program reaches, whatever
  was asked of it before (slugs with colons included), a redirection of a slug without a colon, as
  every slug the service accepts is, leads to the PIN form, and then a link the slug may mean on this host has a
  PIN, or to one of the URLs of such a link that is in the database at that moment, without a PIN,
  active and not past its time, with that link's redirect type; and then one click is queued, for
  that very link. The \<open>Location\<close> the browser gets is that path for every slug the service accepts,
  and that very URL when it is an absolute one in ASCII, whatever the path of the request.
\<close>

theorem redirect_follows_owner:
  assumes "program_run mux miss version cfg d0 ap U" and "links_ok (db_links d0)" and "slugs_ok (db_links d0)"
    and "colon_free slug" and "Redirect slug env r ap = (ap', rs)" and "rs_Redirect rs = Some t"
  shows "\<exists>x\<in>meant (request_domain r cfg) slug (db_links (app_db ap)).
    l_IsActive x \<and> \<not> time_over (le_now (en_link env)) x \<and>
    (if l_PinHash x \<noteq> [] then t = ''/pin/'' @ slug \<and> (ValidateCustomSlug slug = None \<longrightarrow> location r rs = Some t)
     else t \<in> owner_urls x \<and> rs_Status rs = redirect_code x \<and>
       (\<exists>v. ap_clicks ap' = ap_clicks ap @ [(l_ID x, l_Domain x, slug, v)]) \<and>
       (\<forall>u. Url_Parse t = Some u \<longrightarrow> u_Scheme u \<noteq> [] \<longrightarrow> ascii t \<longrightarrow> location r rs = Some t))"
proof -
  have loc: "location r rs = Some t" if "redirect_location r t = t" using assms(6) that by (simp add: location_def)
  obtain s where s: "coherent s" "ap_svc ap = sv_svc s" "app_cfg ap = cfg" using program_coherent [OF assms(1-3)] .
  obtain svc l where l: "LinkService_Resolve (en_link env) (request_domain r cfg) slug (ap_svc ap) = (svc, Some l, None)"
    "if l_HasPIN l then t = ''/pin/'' @ slug else rs_Status rs = redirect_code l \<and> t \<in> owner_urls l \<and>
      (\<exists>v. ap_clicks ap' = ap_clicks ap @ [(l_ID l, l_Domain l, slug, v)])"
    using redirect_cases [OF assms(5,6)] s(3) by metis
  obtain x where x: "x \<in> meant (request_domain r cfg) slug (db_links (app_db ap))" "serves_as l (scan_link x)"
    using Resolve_stored [OF s(1) request_domain_free assms(4)] l(1) s(2) by (fastforce simp: meant_def app_db_def)
  have "owner_urls l = owner_urls x" using serves_as_urls [OF x(2)] by (simp add: owner_urls_def scan_link_def)
  moreover have "l_IsActive x \<and> \<not> time_over (le_now (en_link env)) x"
    using Resolve_ok_cases [OF l(1)] serves_as_fields(7,8) [OF x(2)] by (simp add: IsExpired_iff time_over_def scan_link_def)
  moreover have "redirect_code l = redirect_code x"
    using serves_as_fields(10) [OF x(2)] by (simp add: redirect_code_def scan_link_def)
  ultimately show ?thesis using x l(2) serves_as_fields(1,3,6) [OF x(2)] loc pin_location redirect_location_absolute
    by (intro bexI [of _ x]) auto
qed

definition open_link :: link where
  "open_link = example_link\<lparr>l_PinHash := [], l_HasPIN := False\<rparr>"

definition open_app :: app where
  "open_app = (main_app (\<lambda>x. x) example_auth example_oidc (empty_db\<lparr>db_links := [open_link]\<rparr>))"

lemma open_link_simps:
  "l_PinHash open_link = []" "l_ABVariants open_link = []" "l_IsActive open_link"
  "l_MaxClicks open_link = Some 2" "l_ClickCount open_link = 0" "l_ExpiresAt open_link = None"
  "l_Slug open_link = ''promo''" "l_Domain open_link = []" "redirect_code open_link = 302"
  "l_TargetURL open_link = ''https://e.com/?id=7''"
  by (simp_all add: open_link_def redirect_code_def)
    (simp_all add: example_link_def new_link_def example_req_def empty_create_def Let_def)

lemma open_app_root: "request_domain blank_request (app_cfg open_app) = []" "request_domain visit_request (app_cfg open_app) = []"
  by (simp_all add: request_domain_def extractDomain_def visit_request_def blank_request_def open_app_def example_oidc_def
      to_lower_def Let_def before_char_def)

lemma open_visit: "rs_Redirect (snd (Redirect ''promo'' program_env visit_request open_app)) = Some ''https://e.com/?id=7''"
proof -
  have "LinkCache_Get t [] ''promo'' (NewLinkCache n ttl) = (NewLinkCache n ttl, None)" for t n ttl
    by (simp add: LinkCache_Get_def find_elem_def NewLinkCache_def FormatCacheKey_def Let_def)
  moreover have "lookup_link (en_link program_env) [] ''promo'' (empty_db\<lparr>db_links := [open_link]\<rparr>) = Inr open_link"
    by (simp add: lookup_link_def GetBySlugRaw_def scan_row_def query_row_def open_link_simps program_env_def example_env_def
        scan_link_def first_row_def) (simp add: open_link_def)
  moreover have "\<not> IsExpired (le_now (en_link program_env)) open_link" "\<not> l_HasPIN open_link"
    by (simp add: IsExpired_def time_over_def budget_spent_def open_link_simps) (simp add: open_link_def)
  moreover have "ls_db (ap_svc open_app) = empty_db\<lparr>db_links := [open_link]\<rparr>" "ls_cache (ap_svc open_app) = NewLinkCache 10000 (15 * minute_ns)"
    by (simp_all add: open_app_def main_app_def)
  moreover have "rq_UserAgent visit_request = []" "rq_AcceptLanguage visit_request = []"
    by (simp_all add: visit_request_def blank_request_def)
  ultimately show ?thesis
    by (simp add: Redirect_def open_app_root LinkService_Resolve_def ResolveDestination_def open_link_simps after_ab_def
        Let_def redirect_to_def status_only_def)
qed

theorem redirect_follows_owner_witness:
  "\<exists>x\<in>meant [] ''promo'' [open_link]. l_IsActive x \<and> ''https://e.com/?id=7'' \<in> owner_urls x"
proof -
  let ?d = "empty_db\<lparr>db_links := [open_link]\<rparr>"
  have run: "program_run example_mux (\<lambda>r. http_error 404 R_empty) ''v1'' example_oidc ?d open_app (l_ID ` set (db_links ?d))"
    unfolding open_app_def by (rule program_run.started)
  have ok: "links_ok (db_links ?d)" "slugs_ok (db_links ?d)" "colon_free ''promo''"
    by (simp_all add: links_ok_def slugs_ok_def open_link_simps colon_free_def)
  have db: "db_links (app_db open_app) = [open_link]" by (simp add: open_app_def)
  have root: "request_domain visit_request example_oidc = []" using open_app_root(2) by (simp add: open_app_def)
  from redirect_follows_owner [OF run ok prod.collapse [symmetric] open_visit]
  obtain x where x: "x \<in> meant [] ''promo'' [open_link]" "l_IsActive x"
    "if l_PinHash x \<noteq> [] then ''https://e.com/?id=7'' = ''/pin/promo'' else ''https://e.com/?id=7'' \<in> owner_urls x"
    unfolding db root by fastforce
  then show ?thesis by (auto simp: meant_def open_link_simps)
qed

section \<open>A link with a click budget\<close>

text \<open>One visitor, and the goroutine of the click if the redirection started one.\<close>

definition visit :: "string \<Rightarrow> app_env \<times> request \<times> link_env \<Rightarrow> app \<Rightarrow> app \<times> reply response" where
  "visit slug v ap =
     (case v of (env, r, late) \<Rightarrow>
        (case Redirect slug env r ap of (ap1, rs) \<Rightarrow>
           (case ap_clicks ap1 of
              [] \<Rightarrow> (ap1, rs)
            | (i, dm, s, n) # qs \<Rightarrow>
                (case RecordClick (link_cfg_of (app_cfg ap1)) late i dm s n (ap_svc ap1) of (svc, evs) \<Rightarrow>
                   (ap1\<lparr>ap_svc := svc, ap_clicks := qs, ap_events := ap_events ap1 @ evs\<rparr>, rs)))))"

primrec visits :: "string \<Rightarrow> (app_env \<times> request \<times> link_env) list \<Rightarrow> app \<Rightarrow> app \<times> reply response list" where
  "visits slug [] ap = (ap, [])"
| "visits slug (v # vs) ap =
     (case visit slug v ap of (ap1, rs) \<Rightarrow> case visits slug vs ap1 of (ap2, rss) \<Rightarrow> (ap2, rs # rss))"

text \<open>
  The row \<open>x\<close> is what \<open>slug\<close> means on the host \<open>dm\<close>, of the keys a lookup tries only its own may be
  cached, with its current version, and no click waits.
\<close>

definition ready :: "string \<Rightarrow> string \<Rightarrow> link \<Rightarrow> app \<Rightarrow> bool" where
  "ready dm slug x ap \<longleftrightarrow> links_ok (db_links (app_db ap)) \<and> best_match dm slug (db_links (app_db ap)) = Some x \<and>
     lc_inv (ls_cache (ap_svc ap)) \<and> ap_clicks ap = [] \<and>
     (\<forall>k l t. k \<in> {FormatCacheKey dm slug, slug} \<longrightarrow> lc_view (ls_cache (ap_svc ap)) k = Some (l, t) \<longrightarrow>
        k = FormatCacheKey (l_Domain x) slug \<and> l = scan_link x)"

definition faultless :: "link_env \<Rightarrow> bool" where "faultless env \<longleftrightarrow> (\<forall>q. \<not> le_fault env q)"

definition links_still :: "app_env \<Rightarrow> bool" where
  "links_still env \<longleftrightarrow> (\<forall>d. db_links (ae_Meanwhile (en_auth env) d) = db_links d)"

lemma authorizeSession_links:
  assumes "authorizeSession env a s d = (a', d', res)" and "\<And>d. db_links (ae_Meanwhile env d) = db_links d"
  shows "db_links d' = db_links d"
  using assms by (auto simp: authorizeSession_def Let_def drop_session_def split: if_splits option.splits prod.splits sum.splits)

lemma getAuthSession_links:
  assumes "links_still env"
  shows "db_links (app_db (fst (getAuthSession env r ap))) = db_links (app_db ap)"
proof -
  note m = assms [unfolded links_still_def, rule_format]
  have g: "db_links d' = db_links d" if "GetSession (en_auth env) a r d = (a', d', res)" for a d a' d' res
    using that m by (auto simp: GetSession_def Let_def dest!: authorizeSession_links split: list.splits if_splits option.splits prod.splits)
  have k: "db_links d' = db_links d" if "AuthorizeAPIKey (en_auth env) a s d = (a', d', res)" for a s d a' d' res
    using that m by (auto simp: AuthorizeAPIKey_def Let_def dest!: authorizeSession_links split: if_splits sum.splits prod.splits)
  have b: "db_links d = db_links (app_db ap)" if "bearer_session env r ap = Some (d, s)" for d s
    using that key_use_writes by (fastforce simp: bearer_session_def split: if_splits prod.splits sum.splits)
  show ?thesis
  proof (cases "bearer_session env r ap")
    case None
    then show ?thesis by (auto simp: getAuthSession_def dest: g split: prod.splits sum.splits)
  next
    case (Some p)
    obtain d s where p: "p = (d, s)" by (cases p)
    have "db_links (app_db (fst (getAuthSession env r ap))) = db_links d"
      by (auto simp: getAuthSession_def Some p dest: k split: prod.splits sum.splits)
    with b [of d s] Some p show ?thesis by simp
  qed
qed

lemma some_destination:
  assumes "l_ABVariants l \<noteq> [] \<longrightarrow> draw \<noteq> None"
  obtains u v where "ResolveDestination draw h l = Some (u, v)"
proof -
  have "ResolveDestination draw h l \<noteq> None"
    using assms by (auto simp: ResolveDestination_def EvaluateABTest_def Let_def split: option.splits)
  then obtain q where "ResolveDestination draw h l = Some q" by blast
  with that show thesis by (cases q) simp
qed

text \<open>A rewriting of the row a slug means is what the slug means then.\<close>

lemma best_match_update:
  assumes "\<And>r. link_key (f r) = link_key r"
  shows "best_match dm slug (update_rows p f rs) = map_option (\<lambda>r. if p r then f r else r) (best_match dm slug rs)"
proof -
  have "by_key d slug (update_rows p f rs) = map_option (\<lambda>r. if p r then f r else r) (by_key d slug rs)" for d
  proof (induction rs)
    case (Cons a rs)
    have "l_Slug (f a) = l_Slug a" "l_Domain (f a) = l_Domain a" using assms [of a] by (simp_all add: link_key_def)
    with Cons show ?case by (auto simp: by_key_def update_rows_def)
  qed (simp add: by_key_def update_rows_def)
  then show ?thesis by (simp add: best_match_def split: option.splits)
qed

text \<open>What a visitor's lookup does to a ready state, without faults.\<close>

lemma ready_entries:
  assumes "ready dm slug x ap" and "lc_inv c" and "ap_svc ap' = (ap_svc ap)\<lparr>ls_cache := c\<rparr>" and "ap_clicks ap' = []"
    and "\<And>k l t. lc_view c k = Some (l, t) \<Longrightarrow> k = FormatCacheKey (l_Domain x) slug \<and> l = scan_link x \<or>
      lc_view (ls_cache (ap_svc ap)) k = Some (l, t)"
  shows "ready dm slug x ap'"
  using assms(1-4) assms(5) unfolding ready_def app_db_def by auto blast+

lemma Resolve_ready:
  assumes "ready dm slug x ap" and "faultless env"
  obtains svc err where "LinkService_Resolve env dm slug (ap_svc ap) = (svc, Some (scan_link x), err)"
    and "ready dm slug x (ap\<lparr>ap_svc := svc\<rparr>)" and "err = None \<longleftrightarrow> \<not> IsExpired (le_now env) x"
proof -
  let ?c = "ls_cache (ap_svc ap)"
  have r: "links_ok (db_links (ls_db (ap_svc ap)))" "best_match dm slug (db_links (ls_db (ap_svc ap))) = Some x" "lc_inv ?c"
    "ap_clicks ap = []" using assms(1) by (auto simp: ready_def app_db_def)
  have only: "l = scan_link x" if "lc_view ?c k = Some (l, t)" "k = FormatCacheKey dm slug \<or> k = slug" for k l t
    using assms(1) that by (auto simp: ready_def)
  obtain c res where g: "LinkCache_Get (le_now env) dm slug ?c = (c, res)" by (metis prod.collapse)
  have c: "lc_inv c" using lc.get_inv [OF r(3), of "le_now env" dm slug] g by simp
  note old = get_view_cases [OF r(3) g]
  have hit: "l = scan_link x" if "res = Some l" for l
    using lc.get_hit [OF r(3), of "le_now env" dm slug l] only g that by auto
  have found: "lookup_link env dm slug (ls_db (ap_svc ap)) = Inr (scan_link x)"
    using lookup_link_eq [OF r(1), of env dm slug] assms(2) r(2) by (simp add: faultless_def)
  have x: "l_Slug x = slug" using best_match_in [OF r(1,2)] by simp
  define svc where "svc e = (ap_svc ap)\<lparr>ls_cache := e\<rparr>" for e
  define kept where "kept e \<longleftrightarrow> lc_inv e \<and> (\<forall>k l t. lc_view e k = Some (l, t) \<longrightarrow>
      k = FormatCacheKey (l_Domain x) slug \<and> l = scan_link x \<or> lc_view ?c k = Some (l, t))" for e
  have "kept c" using c old by (simp add: kept_def)
  moreover have "kept (LinkCache_Delete dm slug c)"
    using lc.del_inv [OF c] del_view_cases [OF c] old by (auto simp: kept_def)
  moreover have "kept (LinkCache_Set (le_now env) (l_Domain x) slug (Some (scan_link x)) c)"
    unfolding kept_def
  proof (intro conjI allI impI)
    fix k l t assume "lc_view (LinkCache_Set (le_now env) (l_Domain x) slug (Some (scan_link x)) c) k = Some (l, t)"
    from map_le_Some [OF lc.put_view [OF c] this]
    have "lc_view c k = Some (l, t) \<or> k = FormatCacheKey (l_Domain x) slug \<and> l = scan_link x" by (simp split: if_splits)
    with old show "k = FormatCacheKey (l_Domain x) slug \<and> l = scan_link x \<or> lc_view ?c k = Some (l, t)" by blast
  qed (simp add: lc.put_inv [OF c])
  moreover have "\<exists>e err. LinkService_Resolve env dm slug (ap_svc ap) = (svc e, Some (scan_link x), err) \<and>
      e \<in> {c, LinkCache_Delete dm slug c, LinkCache_Set (le_now env) (l_Domain x) slug (Some (scan_link x)) c} \<and>
      (err = None \<longleftrightarrow> \<not> IsExpired (le_now env) x)"
    using hit by (cases res; cases "IsExpired (le_now env) x") (simp_all add: LinkService_Resolve_def g found x svc_def, blast+)
  ultimately obtain e err where "LinkService_Resolve env dm slug (ap_svc ap) = (svc e, Some (scan_link x), err)" "lc_inv e"
    "\<And>k l t. lc_view e k = Some (l, t) \<Longrightarrow> k = FormatCacheKey (l_Domain x) slug \<and> l = scan_link x \<or> lc_view ?c k = Some (l, t)"
    "err = None \<longleftrightarrow> \<not> IsExpired (le_now env) x" unfolding kept_def by blast
  with that ready_entries [OF assms(1), of e "ap\<lparr>ap_svc := svc e\<rparr>"] r(4) show thesis by (simp add: svc_def)
qed

text \<open>What the count of the click does to it: the row it leaves differs in its counters.\<close>

lemma varied_same [simp]:
  "l_PinHash (varied h n env x) = l_PinHash x" "l_IsActive (varied h n env x) = l_IsActive x"
  "l_MaxClicks (varied h n env x) = l_MaxClicks x" "redirect_code (varied h n env x) = redirect_code x"
  "time_over now (varied h n env x) = time_over now x" "l_Domain (varied h n env x) = l_Domain x"
  "link_key (varied h n env x) = link_key x" "l_ID (varied h n env x) = l_ID x" "l_HasPIN (varied h n env x) = l_HasPIN x"
  by (simp_all add: varied_def clicked_def count_click_def redirect_code_def time_over_def link_key_def cong: option.case_cong)

lemma varied_variants [simp]: "l_ABVariants (varied h n env x) = [] \<longleftrightarrow> l_ABVariants x = []"
proof -
  have "bump_variant n vs = [] \<longleftrightarrow> vs = []" for vs by (cases vs) auto
  then show ?thesis by (simp add: varied_def clicked_def count_click_def)
qed

lemma RecordClick_ready:
  assumes "ready dm slug x ap" and "faultless env" and "RecordClick cfg env (l_ID x) (l_Domain x) slug n (ap_svc ap) = (svc, evs)"
  shows "ready dm slug (varied (n \<noteq> [] \<and> l_ABVariants x \<noteq> []) n env x) (ap\<lparr>ap_svc := svc, ap_clicks := [], ap_events := es\<rparr>)"
proof -
  let ?h = "n \<noteq> [] \<and> l_ABVariants x \<noteq> []"
  let ?rs = "db_links (ls_db (ap_svc ap))" and ?c = "ls_cache (ap_svc ap)" and ?y = "varied ?h n env x"
  let ?rs' = "update_rows (\<lambda>l. l_ID l = l_ID x) (varied ?h n env) ?rs" and ?key = "FormatCacheKey (l_Domain x) slug"
  have r: "links_ok ?rs" "best_match dm slug ?rs = Some x" "lc_inv ?c" using assms(1) by (auto simp: ready_def app_db_def)
  have x: "x \<in> set ?rs" "l_Slug x = slug" using best_match_in [OF r(1,2)] by simp_all
  have keep: "lc_view ?c k = Some (l, t) \<Longrightarrow> k = FormatCacheKey dm slug \<or> k = slug \<Longrightarrow> k = ?key" for k l t
    using assms(1) by (auto simp: ready_def)
  have "clicked env x \<in> set (update_rows (\<lambda>r. l_ID r = l_ID x) (clicked env) ?rs)"
    using update_rows_img' [OF x(1), of "\<lambda>r. l_ID r = l_ID x" "clicked env"] by simp
  moreover have "links_ok (update_rows (\<lambda>r. l_ID r = l_ID x) (clicked env) ?rs)"
    using r(1) clicked_harmless(1) [of env] by (simp add: links_ok_update harmless_def)
  moreover have "l_ID (clicked env x) = l_ID x" using clicked_harmless(1) [of env] by (simp add: harmless_def)
  ultimately have g: "GetByID env (l_ID x) ((ls_db (ap_svc ap))\<lparr>db_links := update_rows (\<lambda>r. l_ID r = l_ID x) (clicked env) ?rs\<rparr>) =
      Inr (scan_link (clicked env x))" using assms(2) by (auto simp: GetByID_Inr faultless_def)
  have only: "r = x" if "r \<in> set ?rs" "l_ID r = l_ID x" for r
    using r(1) that x(1) distinct_map_inj [of l_ID ?rs r x] by (simp add: links_ok_def)
  have cl: "l_ABVariants (scan_link (clicked env x)) = l_ABVariants x" by (simp add: scan_link_def clicked_def count_click_def)
  define u where "u = (if ?h then (scan_link (clicked env x))\<lparr>l_ABVariants := bump_variant n (l_ABVariants x)\<rparr> else scan_link (clicked env x))"
  have u: "u = scan_link ?y" by (simp add: u_def varied_def cl scan_link_def clicked_def count_click_def assms(2) [unfolded faultless_def])
  have svc: "svc = (ap_svc ap)\<lparr>ls_db := (ls_db (ap_svc ap))\<lparr>db_links := ?rs'\<rparr>,
      ls_cache := (if IsExpired (le_now env) u then LinkCache_Delete (l_Domain x) slug ?c
        else LinkCache_Set (le_now env) (l_Domain x) slug (Some u) ?c)\<rparr>"
    using assms(3) g cl varied_rows [OF only refl, where n = n and env = env] assms(2) unfolding RecordClick_def Let_def counted_rows
    by (auto simp: varied_def [abs_def] u_def faultless_def split: if_splits)
  have "lc_inv (ls_cache svc)" using r(3) lc.del_inv lc.put_inv by (simp add: svc)
  moreover have "best_match dm slug ?rs' = Some ?y" "links_ok ?rs'"
    using r(1,2) by (simp_all add: best_match_update links_ok_update)
  moreover have "k = ?key \<and> l = scan_link ?y" if k: "k = FormatCacheKey dm slug \<or> k = slug" and v: "lc_view (ls_cache svc) k = Some (l, t)" for k l t
  proof (cases "IsExpired (le_now env) u")
    case True
    then have "lc_view (LinkCache_Delete (l_Domain x) slug ?c) k = Some (l, t)" using v by (simp add: svc)
    from del_view_cases [OF r(3) this] keep k show ?thesis by blast
  next
    case False
    then have "lc_view (LinkCache_Set (le_now env) (l_Domain x) slug (Some u) ?c) k = Some (l, t)" using v by (simp add: svc)
    from map_le_Some [OF lc.put_view [OF r(3)] this]
    have "lc_view ?c k = Some (l, t) \<and> k \<noteq> ?key \<or> k = ?key \<and> l = scan_link ?y" by (simp add: u split: if_splits)
    with keep k show ?thesis by blast
  qed
  ultimately show ?thesis by (auto simp: ready_def app_db_def svc)
qed

text \<open>A visitor who comes in time is served and counted; one who comes late sees the expiry page.\<close>

lemma visit_served:
  assumes "ready dm slug x ap" and "faultless (en_link env)" and "faultless late" and "request_domain r (app_cfg ap) = dm"
    and "slug \<noteq> []" and "l_PinHash x = []" and "l_ABVariants x \<noteq> [] \<longrightarrow> en_draw env \<noteq> None"
    and "\<not> IsExpired (le_now (en_link env)) x" and "visit slug (env, r, late) ap = (ap', rs)"
  shows "rs_Status rs = redirect_code x \<and> app_cfg ap' = app_cfg ap \<and> (\<exists>h n. ready dm slug (varied h n late x) ap')"
proof -
  obtain svc where v: "LinkService_Resolve (en_link env) dm slug (ap_svc ap) = (svc, Some (scan_link x), None)"
    "ready dm slug x (ap\<lparr>ap_svc := svc\<rparr>)"
    using Resolve_ready [OF assms(1,2)] assms(8) by metis
  have l: "redirect_code (scan_link x) = redirect_code x" "l_ABVariants (scan_link x) = l_ABVariants x"
    "\<not> l_HasPIN (scan_link x)" "\<not> IsExpired (le_now (en_link env)) (scan_link x)" "l_ID (scan_link x) = l_ID x"
    "l_Domain (scan_link x) = l_Domain x"
    using assms(6,8) by (simp_all add: scan_link_def redirect_code_def IsExpired_iff time_over_def budget_spent_def cong: option.case_cong)
  obtain u n where u: "ResolveDestination (en_draw env)
      \<lparr>vh_UserAgent = rq_UserAgent r, vh_AcceptLanguage = rq_AcceptLanguage r\<rparr> (scan_link x) = Some (u, n)"
    using some_destination assms(7) l(2) by metis
  have c: "ap_clicks ap = []" using assms(1) by (simp add: ready_def)
  define ap1 where "ap1 = ap\<lparr>ap_svc := svc, ap_clicks := [(l_ID x, l_Domain x, slug, n)]\<rparr>"
  obtain svc2 evs where rc: "RecordClick (link_cfg_of (app_cfg ap)) late (l_ID x) (l_Domain x) slug n svc = (svc2, evs)"
    by (metis prod.collapse)
  have "fst (Redirect slug env r ap) = ap1" "rs_Status (snd (Redirect slug env r ap)) = redirect_code x"
    using assms(4-6,8) by (simp_all add: Redirect_def v(1) l u c ap1_def redirect_to_def status_only_def Let_def)
  then have "ap' = ap\<lparr>ap_svc := svc2, ap_clicks := [], ap_events := ap_events ap @ evs\<rparr>" "rs_Status rs = redirect_code x"
    using assms(9) rc by (auto simp: visit_def ap1_def app_cfg_def split: prod.splits)
  moreover have "ready dm slug (varied (n \<noteq> [] \<and> l_ABVariants x \<noteq> []) n late x)
      (ap\<lparr>ap_svc := svc, ap_svc := svc2, ap_clicks := [], ap_events := ap_events ap @ evs\<rparr>)"
    using RecordClick_ready [OF v(2) assms(3), of _ n svc2 evs] rc by simp
  ultimately show ?thesis by (auto simp: app_cfg_def)
qed

lemma visit_expired:
  assumes "ready dm slug x ap" and "faultless (en_link env)" and "links_still env" and "request_domain r (app_cfg ap) = dm"
    and "slug \<noteq> []" and "IsExpired (le_now (en_link env)) x" and "visit slug (env, r, late) ap = (ap', rs)"
  shows "rs_Status rs = 410 \<and> app_cfg ap' = app_cfg ap \<and> ready dm slug x ap'"
proof -
  obtain svc err where v: "LinkService_Resolve (en_link env) dm slug (ap_svc ap) = (svc, Some (scan_link x), err)"
    "ready dm slug x (ap\<lparr>ap_svc := svc\<rparr>)"
    using Resolve_ready [OF assms(1,2)] by metis
  let ?ap = "fst (getAuthSession env r (ap\<lparr>ap_svc := svc\<rparr>))"
  have "fst (Redirect slug env r ap) = ?ap" "rs_Status (snd (Redirect slug env r ap)) = 410"
    using assms(4-6) by (simp_all add: Redirect_def v(1) expired_page_def missing_page_def)
  moreover have "ready dm slug x ?ap"
    using v(2) getAuthSession_links [OF assms(3), of r "ap\<lparr>ap_svc := svc\<rparr>"] by (simp add: ready_def)
  moreover from this have "ap_clicks ?ap = []" by (simp add: ready_def)
  ultimately have "ap' = ?ap" "rs_Status rs = 410" "ready dm slug x ?ap"
    using assms(7) by (auto simp: visit_def split: prod.splits)
  then show ?thesis by (simp add: app_cfg_def [of "ap\<lparr>ap_svc := svc\<rparr>"] app_cfg_def [of ap])
qed

text \<open>
  Claim C11. A click budget is spent exactly by visitors who come one after the other. Let a slug
  mean, on the host the visitors ask, an active link in time without a PIN, with \<open>m\<close> clicks allowed,
  on that host's domain or the root, with or without A/B variants, and let the cache hold its current
  version or none. Of any number of visitors to it, each of whose clicks is counted before the next
  one comes, while no statement of the database fails, the draw of a variant works and nobody edits
  the links, the first, as many as clicks are left, are redirected, every later one is told 410, and
  the row has counted exactly those served. (Visitors who overlap may exceed the budget;
  \<open>budget_overshoot\<close> says by how much.)
\<close>

theorem click_budget:
  assumes "ready dm slug x ap" and "slug \<noteq> []" and "l_PinHash x = []" and "l_IsActive x"
    and "l_MaxClicks x = Some m" and "0 < m"
    and "\<forall>(env, r, late)\<in>set vs. faultless (en_link env) \<and> faultless late \<and> links_still env \<and>
      (l_ABVariants x \<noteq> [] \<longrightarrow> en_draw env \<noteq> None) \<and>
      request_domain r (app_cfg ap) = dm \<and> \<not> time_over (le_now (en_link env)) x"
    and "visits slug vs ap = (ap', rss)"
  shows "let k = min (length vs) (nat (m - l_ClickCount x)) in
    map rs_Status rss = replicate k (redirect_code x) @ replicate (length vs - k) 410 \<and>
    (\<exists>y. best_match dm slug (db_links (app_db ap')) = Some y \<and> l_ID y = l_ID x \<and> l_ClickCount y = l_ClickCount x + int k)"
  using assms
proof (induction vs arbitrary: x ap rss)
  case Nil
  then show ?case by (auto simp: ready_def)
next
  case (Cons v vs)
  obtain env r late where v: "v = (env, r, late)" by (cases v)
  obtain ap1 rs where v1: "visit slug (env, r, late) ap = (ap1, rs)" by (metis prod.collapse)
  obtain ss where v2: "visits slug vs ap1 = (ap', ss)" "rss = rs # ss"
    using Cons.prems(8) v1 by (auto simp: v split: prod.splits)
  have q: "faultless (en_link env)" "faultless late" "links_still env" "request_domain r (app_cfg ap) = dm"
    "\<not> time_over (le_now (en_link env)) x" "l_ABVariants x \<noteq> [] \<longrightarrow> en_draw env \<noteq> None"
    using Cons.prems(7) by (simp_all add: v)
  have e: "IsExpired (le_now (en_link env)) x \<longleftrightarrow> m \<le> l_ClickCount x"
    using q(5) Cons.prems(4-6) by (simp add: IsExpired_def budget_spent_def)
  show ?case
  proof (cases "m \<le> l_ClickCount x")
    case True
    with visit_expired [OF Cons.prems(1) q(1,3,4) Cons.prems(2) _ v1] e
    have s: "rs_Status rs = 410" "app_cfg ap1 = app_cfg ap" "ready dm slug x ap1" by simp_all
    from Cons.IH [OF s(3) Cons.prems(2-6) _ v2(1)] Cons.prems(7) s(2) True v2(2) s(1) show ?thesis by simp
  next
    case False
    from False visit_served [OF Cons.prems(1) q(1,2,4) Cons.prems(2,3) q(6) _ v1] e
    obtain h n where s: "rs_Status rs = redirect_code x" "app_cfg ap1 = app_cfg ap" "ready dm slug (varied h n late x) ap1"
      by auto
    let ?y = "varied h n late x"
    have c: "l_ClickCount ?y = l_ClickCount x + 1" using q(2) by (simp add: faultless_def)
    have k: "nat (m - l_ClickCount x) = Suc (nat (m - l_ClickCount ?y))" using False c by simp
    from Cons.IH [OF s(3) Cons.prems(2) _ _ _ Cons.prems(6) _ v2(1)] Cons.prems(3-5,7) s(2)
    have "let k = min (length vs) (nat (m - l_ClickCount ?y)) in
        map rs_Status ss = replicate k (redirect_code ?y) @ replicate (length vs - k) 410 \<and>
        (\<exists>y. best_match dm slug (db_links (app_db ap')) = Some y \<and> l_ID y = l_ID ?y \<and> l_ClickCount y = l_ClickCount ?y + int k)"
      by simp
    then show ?thesis using q(2) unfolding k by (auto simp: Let_def v2(2) s(1) c faultless_def)
  qed
qed

theorem click_budget_witness:
  "map rs_Status (snd (visits ''promo'' (replicate 5 (example_request_env, blank_request, example_env)) open_app)) =
   [302, 302, 410, 410, 410]"
proof -
  let ?v = "(example_request_env, blank_request, example_env)"
  note l = open_link_simps
  have r: "ready [] ''promo'' open_link open_app"
    using NewLinkCache_abs [of 10000 "15 * minute_ns"] l(7,8)
    by (auto simp: ready_def open_app_def main_app_def app_db_def links_ok_def by_key_def lc_view_def FormatCacheKey_def)
  have h: "\<forall>(env, r, late)\<in>set (replicate 5 ?v). faultless (en_link env) \<and> faultless late \<and> links_still env \<and>
      (l_ABVariants open_link \<noteq> [] \<longrightarrow> en_draw env \<noteq> None) \<and> request_domain r (app_cfg open_app) = [] \<and> \<not> time_over (le_now (en_link env)) open_link"
    by (simp add: faultless_def links_still_def example_request_env_def example_env_def example_auth_def time_over_def l(2,6)
        open_app_root)
  obtain ap' rss where "visits ''promo'' (replicate 5 ?v) open_app = (ap', rss)" by (metis prod.collapse)
  moreover from click_budget [OF r _ l(1,3,4) _ h this] have
    "map rs_Status rss = replicate 2 302 @ replicate 3 410" by (simp add: l)
  ultimately show ?thesis by (simp add: numeral_eq_Suc)
qed

end
