(* ===== verification/Click_Budget.thy ===== *)
theory Click_Budget
  imports Serving
begin

text \<open>
  The click budget of a link when visitors overlap. A visitor is admitted on the count of the
  version at hand, cached or read; the click is counted later, by a goroutine whose statements
  may fail. So a budget may be exceeded, and this theory says by how much: by the clicks that were
  under way when a visitor was admitted and those the database lost. The visitors counted are those
  who ask for a slug without a colon; requests for others are served and counted meanwhile, and
  leave their versions under keys that are not plain, which no plain lookup reads.
\<close>

section \<open>The versions of a link a visitor may be shown\<close>

definition versions :: "serving \<Rightarrow> link set" where
  "versions s = set (db_links (ls_db (sv_svc s))) \<union> 
     {l. \<exists>k t. plain_key k \<and> lc_view (ls_cache (sv_svc s)) k = Some (l, t)} \<union>
     {l. Publish l \<in> set (sv_readers s)}"

definition plain_click :: "string \<Rightarrow> string \<times> string \<times> string \<times> string \<Rightarrow> bool" where
  "plain_click i q \<longleftrightarrow> (case q of (j, dm, slug, v) \<Rightarrow> j = i \<and> colon_free slug)"

definition under_way :: "string \<Rightarrow> serving \<Rightarrow> nat" where
  "under_way i s = length (filter (plain_click i) (sv_clicks s))"

text \<open>Every version of \<open>i\<close> after the step has counted \<open>g\<close> clicks more than some version before it.\<close>

definition gains :: "string \<Rightarrow> int \<Rightarrow> serving \<Rightarrow> serving \<Rightarrow> bool" where
  "gains i g s t \<longleftrightarrow> (\<forall>l\<in>versions t. l_ID l = i \<longrightarrow>
     (\<exists>l0\<in>versions s. l_ID l0 = i \<and> l_ClickCount l0 + g \<le> l_ClickCount l))"

definition tallied :: "string \<Rightarrow> int \<Rightarrow> serving \<Rightarrow> bool" where
  "tallied i n s \<longleftrightarrow> (\<forall>l\<in>versions s. l_ID l = i \<longrightarrow> n \<le> l_ClickCount l + int (under_way i s))"

lemma tallied_gains: "tallied i n s \<Longrightarrow> gains i g s t \<Longrightarrow> n' + int (under_way i s) \<le> n + g + int (under_way i t) \<Longrightarrow>
  tallied i n' t"
  unfolding tallied_def gains_def by fastforce

lemma gains_sub: "versions t \<subseteq> versions s \<Longrightarrow> gains i 0 s t"
  by (force simp: gains_def)

text \<open>A rewriting of the rows that loses no click, and an entry for one of the rewritten rows.\<close>

lemma gains_rows:
  assumes "\<And>r. r \<in> set (db_links (ls_db (sv_svc t))) \<Longrightarrow> l_ID r = i \<Longrightarrow>
      \<exists>r0\<in>set (db_links (ls_db (sv_svc s))). l_ID r0 = i \<and> l_ClickCount r0 \<le> l_ClickCount r"
    and "\<And>k l u. plain_key k \<Longrightarrow> lc_view (ls_cache (sv_svc t)) k = Some (l, u) \<Longrightarrow> l_ID l = i \<Longrightarrow>
      (\<exists>u. lc_view (ls_cache (sv_svc s)) k = Some (l, u)) \<or>
      (\<exists>r0\<in>set (db_links (ls_db (sv_svc s))). l_ID r0 = i \<and> l_ClickCount r0 \<le> l_ClickCount l)"
    and "set (sv_readers t) \<subseteq> set (sv_readers s)"
  shows "gains i 0 s t"
  unfolding gains_def
proof (intro ballI impI)
  fix l assume "l \<in> versions t" "l_ID l = i"
  then consider "l \<in> set (db_links (ls_db (sv_svc t)))" | k u where "plain_key k" "lc_view (ls_cache (sv_svc t)) k = Some (l, u)"
    | "Publish l \<in> set (sv_readers t)" by (auto simp: versions_def)
  then show "\<exists>l0\<in>versions s. l_ID l0 = i \<and> l_ClickCount l0 + 0 \<le> l_ClickCount l"
  proof cases
    case 1
    from assms(1) [OF this \<open>l_ID l = i\<close>] show ?thesis by (auto simp: versions_def)
  next
    case (2 k u)
    from assms(2) [OF this \<open>l_ID l = i\<close>] 2(1) \<open>l_ID l = i\<close> show ?thesis by (auto simp: versions_def)
  next
    case 3
    with assms(3) \<open>l_ID l = i\<close> show ?thesis by (auto simp: versions_def)
  qed
qed

section \<open>No step loses a click\<close>

lemma update_rows_count:
  assumes "\<And>r. l_ID (f r) = l_ID r \<and> l_ClickCount r \<le> l_ClickCount (f r)" and "r \<in> set (update_rows p f rs)"
  shows "\<exists>r0\<in>set rs. l_ID r0 = l_ID r \<and> l_ClickCount r0 \<le> l_ClickCount r"
  using update_rows_img [OF assms(2)] assms(1) by (metis order_refl)

lemma gains_db:
  assumes "\<And>r. l_ID (f r) = l_ID r \<and> l_ClickCount r \<le> l_ClickCount (f r)"
    and "db_links d = update_rows p f (db_links (ls_db (sv_svc s)))"
  shows "gains i 0 s (set_db d s)"
proof (rule gains_rows)
  fix r assume "r \<in> set (db_links (ls_db (sv_svc (set_db d s))))" "l_ID r = i"
  then show "\<exists>r0\<in>set (db_links (ls_db (sv_svc s))). l_ID r0 = i \<and> l_ClickCount r0 \<le> l_ClickCount r"
    using update_rows_count [OF assms(1), of r p] by (auto simp: assms(2))
qed auto

lemma gains_update:
  assumes v: "svc_ok U (sv_svc s)" and h: "hash_ok env"
    and up: "LinkService_Update cfg env j req who adm (sv_svc s) = (t, res)"
  shows "gains i 0 s (s\<lparr>sv_svc := t\<rparr>)"
proof (cases res)
  case (Inl e)
  then have "t = sv_svc s" using Update_error [of cfg env j req who adm "sv_svc s" e] up by simp
  then show ?thesis by (intro gains_sub) simp
next
  case (Inr l)
  let ?rs = "db_links (ls_db (sv_svc s))"
  note ok = svc_okD(1,4) [OF v]
  obtain x where x: "x \<in> set ?rs" "same_identity (scan_link x) l"
    "t = (sv_svc s)\<lparr>ls_db := (ls_db (sv_svc s))\<lparr>db_links := update_rows (\<lambda>r. l_ID r = j) (write_columns l) ?rs\<rparr>,
           ls_cache := LinkCache_Set (le_now env) (l_Domain l) (l_Slug l) (Some l) (ls_cache (sv_svc s))\<rparr>"
    using UpdateD [OF ok(1), of cfg env j req who adm t l] up Inr by auto
  have w: "l_ID (write_columns l r) = l_ID r \<and> l_ClickCount r \<le> l_ClickCount (write_columns l r)" for r
    by (simp add: write_columns_def)
  show ?thesis
  proof (rule gains_rows)
    fix r assume "r \<in> set (db_links (ls_db (sv_svc (s\<lparr>sv_svc := t\<rparr>))))" "l_ID r = i"
    then show "\<exists>r0\<in>set ?rs. l_ID r0 = i \<and> l_ClickCount r0 \<le> l_ClickCount r"
      using update_rows_count [OF w] by (fastforce simp: x(3))
  next
    fix k y u assume y: "lc_view (ls_cache (sv_svc (s\<lparr>sv_svc := t\<rparr>))) k = Some (y, u)" "l_ID y = i"
    then have "y = l \<or> lc_view (ls_cache (sv_svc s)) k = Some (y, u)"
      using put_view_cases [OF ok(2)] by (fastforce simp: x(3))
    moreover have "l_ID x = l_ID l \<and> l_ClickCount x \<le> l_ClickCount l" using x(2) by (simp add: same_identity_def)
    ultimately show "(\<exists>u. lc_view (ls_cache (sv_svc s)) k = Some (y, u)) \<or>
      (\<exists>r0\<in>set ?rs. l_ID r0 = i \<and> l_ClickCount r0 \<le> l_ClickCount y)" using x(1) y(2) by auto
  qed simp
qed

lemma gains_create:
  assumes v: "svc_ok V (sv_svc s)" and new: "le_uuid env \<noteq> i"
    and cr: "LinkService_Create cfg env req who (sv_svc s) = (t, res, evs)"
  shows "gains i 0 s (s\<lparr>sv_svc := t, sv_used := U\<rparr>)"
proof (cases res)
  case (Inl e)
  then have "t = sv_svc s" using Create_failure_no_effect [of cfg env req who "sv_svc s" e] cr by simp
  then show ?thesis by (intro gains_sub) (simp add: versions_def)
next
  case (Inr p)
  obtain l stripped where p: "p = (l, stripped)" by (cases p)
  note c = CreateD [OF cr [unfolded Inr p]]
  have "prepare_link cfg env req who (ls_db (sv_svc s)) = Inr (l, stripped)" using c by simp
  then obtain target slug pin where "l = new_link cfg env req who target slug pin" by (rule prepare_linkD)
  then have l: "l_ID l \<noteq> i" using new by simp
  have "lc_inv (ls_cache (sv_svc s))" using svc_okD(4) [OF v] .
  with c l show ?thesis by (intro gains_rows) (auto dest: put_view_cases)
qed

lemma gains_delete:
  assumes v: "svc_ok U (sv_svc s)" and de: "LinkService_Delete cfg env j who adm (sv_svc s) = (t, err, evs)"
  shows "gains i 0 s (s\<lparr>sv_svc := t\<rparr>)"
proof (cases err)
  case (Some e)
  then have "t = sv_svc s" using de by (auto simp: LinkService_Delete_def split: sum.splits if_splits)
  then show ?thesis by (intro gains_sub) simp
next
  case None
  then obtain l where t: "GetByID env j (ls_db (sv_svc s)) = Inr l" "t = (sv_svc s)\<lparr>ls_db := (ls_db (sv_svc s))\<lparr>db_links := delete_rows (\<lambda>r. l_ID r = j) (db_links (ls_db (sv_svc s)))\<rparr>,
      ls_cache := LinkCache_Delete (l_Domain l) (l_Slug l) (ls_cache (sv_svc s))\<rparr>"
    using de by (auto simp: LinkService_Delete_def split: sum.splits if_splits)
  have "lc_inv (ls_cache (sv_svc s))" using svc_okD(4) [OF v] .
  then show ?thesis by (intro gains_sub) (auto simp: versions_def t(2) set_delete_rows dest: del_view_cases)
qed


text \<open>A click the database records is gained by every version of its link; a lost one takes nothing away.\<close>

definition recorded :: "link_env \<Rightarrow> bool" where
  "recorded env \<longleftrightarrow> \<not> le_fault env Q_click \<and> \<not> le_fault env Q_by_id"

text \<open>Of the cached versions of a clicked link, those that were there sit under the key of the click.\<close>

lemma click_entry_key:
  assumes c: "coherent s" and q: "(j, dm, slug, n) \<in> set (sv_clicks s)" and f: "colon_free slug"
    and x: "plain_key k" "lc_view (ls_cache (sv_svc s)) k = Some (x, u)" "l_ID x = j"
  shows "k = FormatCacheKey dm slug \<and> j \<in> l_ID ` set (db_links (ls_db (sv_svc s)))"
proof -
  let ?rs = "db_links (ls_db (sv_svc s))"
  have "click_ok ?rs (j, dm, slug, n)" using coherentD(3) [OF c] q by (auto simp: list_all_iff)
  moreover have "current ?rs k x" using entries_okD [OF coherent_svcD(5) [OF c] x(2)] x(1) by (simp add: held_def)
  then obtain r where "r \<in> set ?rs" "k = FormatCacheKey (l_Domain r) (l_Slug r)" "serves_as x (scan_link r)"
    unfolding current_def by blast
  ultimately show ?thesis
    using x(3) serves_as_fields(1) [of x "scan_link r"] last_seg_free [OF f] by (auto simp: click_ok_def)
qed

text \<open>Every version after a change goes back to one before it, with at least \<open>g\<close> clicks fewer.\<close>

definition grown :: "string \<Rightarrow> int \<Rightarrow> serving \<Rightarrow> link \<Rightarrow> bool" where
  "grown i g s y \<longleftrightarrow> (l_ID y = i \<longrightarrow> (\<exists>l0\<in>versions s. l_ID l0 = i \<and> l_ClickCount l0 + g \<le> l_ClickCount y))"

lemma grown_row:
  assumes "\<And>r. l_ID (f r) = l_ID r \<and> l_ClickCount r + g \<le> l_ClickCount (f r)" and "i = j \<or> g = 0"
    and "y \<in> set (update_rows (\<lambda>r. l_ID r = j) f (db_links (ls_db (sv_svc s))))"
  shows "grown i g s y"
proof -
  from update_rows_img [OF assms(3)] obtain x where
    x: "x \<in> set (db_links (ls_db (sv_svc s)))" "y = (if l_ID x = j then f x else x)" by blast
  then show ?thesis using assms(1) [of x] assms(2)
    by (cases "l_ID x = j") (auto simp: grown_def versions_def intro!: bexI [of _ x])
qed

lemma grown_entry:
  assumes "plain_key k" and "lc_view (ls_cache (sv_svc s)) k = Some (y, u)" and "g = 0 \<or> l_ID y \<noteq> i"
  shows "grown i g s y"
  using assms by (auto simp: grown_def versions_def intro!: bexI [of _ y])

lemma gains_click:
  assumes c: "coherent s" and r: "sv_readers s = []" and q: "(j, dm, slug, n) \<in> set (sv_clicks s)"
    and rc: "RecordClick cfg env j dm slug n (sv_svc s) = (t, evs)"
  shows "gains i (if recorded env \<and> plain_click i (j, dm, slug, n) then 1 else 0) s (s\<lparr>sv_svc := t, sv_clicks := qs\<rparr>)"
proof -
  let ?rs = "db_links (ls_db (sv_svc s))" and ?g = "if recorded env \<and> plain_click i (j, dm, slug, n) then 1 else (0::int)"
  note ok = coherent_svcD(1,4) [OF c]
  obtain f where f: "harmless f" "\<forall>r. l_ClickCount (f r) = l_ClickCount r + (if le_fault env Q_click then 0 else 1)"
    "ls_db t = (ls_db (sv_svc s))\<lparr>db_links := update_rows (\<lambda>r. l_ID r = j) f ?rs\<rparr>"
    "(ls_cache t = ls_cache (sv_svc s) \<and> (le_fault env Q_by_id \<or> j \<notin> l_ID ` set ?rs)) \<or>
     ls_cache t = LinkCache_Delete dm slug (ls_cache (sv_svc s)) \<or>
     (\<exists>x\<in>set ?rs. \<exists>u. l_ID x = j \<and> serves_as u (scan_link (f x)) \<and> l_ClickCount u = l_ClickCount (f x) \<and>
        ls_cache t = LinkCache_Set (le_now env) dm slug (Some u) (ls_cache (sv_svc s)))"
    using RecordClick_shape [OF ok(1) rc] by blast
  have w: "l_ID (f r) = l_ID r \<and> l_ClickCount r + ?g \<le> l_ClickCount (f r)" for r
    using f(1,2) by (simp add: harmless_def recorded_def)
  have row: "grown i ?g s y" if "y \<in> set (db_links (ls_db t))" for y
    using grown_row [OF w, where i = i and j = j and y = y] that by (auto simp: f(3) plain_click_def)
  have old: "grown i ?g s y" if "plain_key k" "lc_view (ls_cache (sv_svc s)) k = Some (y, u)"
    "k \<noteq> FormatCacheKey dm slug \<or> j \<notin> l_ID ` set ?rs" for k y u
    using click_entry_key [OF c q _ that(1,2)] that(3)
    by (intro grown_entry [OF that(1,2)]) (auto simp: plain_click_def)
  have entry: "grown i ?g s y" if p: "plain_key k" and y: "lc_view (ls_cache t) k = Some (y, u)" for k y u
    using f(4)
  proof (elim disjE bexE exE conjE)
    assume "ls_cache t = LinkCache_Delete dm slug (ls_cache (sv_svc s))"
    from del_view_cases [OF ok(2) y [unfolded this]] old [OF p] show ?thesis by blast
  next
    fix x z assume x: "x \<in> set ?rs" "l_ID x = j" "serves_as z (scan_link (f x))" "l_ClickCount z = l_ClickCount (f x)"
      and t: "ls_cache t = LinkCache_Set (le_now env) dm slug (Some z) (ls_cache (sv_svc s))"
    have "l_ID z = l_ID x" using serves_as_fields(1) [OF x(3)] w [of x] by simp
    then have z: "grown i ?g s z" using x(1,4) w [of x] by (auto simp: grown_def versions_def)
    from put_view_cases [OF ok(2) y [unfolded t]] z old [OF p] show ?thesis by blast
  next
    assume same: "ls_cache t = ls_cache (sv_svc s)" and "le_fault env Q_by_id"
    then show ?thesis by (intro grown_entry [OF p y [unfolded same]]) (simp add: recorded_def)
  next
    assume same: "ls_cache t = ls_cache (sv_svc s)" and "j \<notin> l_ID ` set ?rs"
    then show ?thesis using old [OF p y [unfolded same]] by blast
  qed
  have "grown i ?g s y" if "y \<in> versions (s\<lparr>sv_svc := t, sv_clicks := qs\<rparr>)" for y
    using that row entry r by (auto simp: versions_def [of "s\<lparr>sv_svc := t, sv_clicks := qs\<rparr>"])
  then show ?thesis unfolding gains_def grown_def by blast
qed

text \<open>A lookup adds at most a version of a stored row.\<close>

lemma gains_lookup:
  assumes "coherent s" and "LinkCache_Get now dm slug (ls_cache (sv_svc s)) = (c, res)"
    and "\<And>l. Publish l \<in> set ps \<Longrightarrow> Publish l \<in> set (sv_readers s) \<or> (\<exists>r\<in>set (db_links (ls_db (sv_svc s))). l = scan_link r)"
  shows "gains i 0 s ((set_cache c s)\<lparr>sv_readers := ps, sv_clicks := qs\<rparr>)"
  unfolding gains_def
proof (intro ballI impI)
  fix l assume l: "l \<in> versions ((set_cache c s)\<lparr>sv_readers := ps, sv_clicks := qs\<rparr>)" "l_ID l = i"
  have "lc_inv (ls_cache (sv_svc s))" using coherent_svcD(4) [OF assms(1)] .
  then have "l \<in> versions s \<or> (\<exists>r\<in>set (db_links (ls_db (sv_svc s))). l = scan_link r)"
    using l(1) assms(3) get_view_cases [OF _ assms(2)] by (fastforce simp: versions_def set_cache_def)
  then show "\<exists>l0\<in>versions s. l_ID l0 = i \<and> l_ClickCount l0 + 0 \<le> l_ClickCount l"
    using l(2) by (fastforce simp: versions_def)
qed

lemma serve_step_simps:
  "set_cache c s = (set_cache c s)\<lparr>sv_readers := sv_readers s, sv_clicks := sv_clicks s\<rparr>"
  "(set_cache c s)\<lparr>sv_readers := ps\<rparr> = (set_cache c s)\<lparr>sv_readers := ps, sv_clicks := sv_clicks s\<rparr>"
  "(set_cache c s)\<lparr>sv_clicks := qs\<rparr> = (set_cache c s)\<lparr>sv_readers := sv_readers s, sv_clicks := qs\<rparr>"
  by (simp_all add: set_cache_def)

lemma serve_gains: "serve cfg s t \<Longrightarrow> coherent s \<Longrightarrow> i \<in> sv_used s \<Longrightarrow> gains i 0 s t"
proof (induction rule: serve.induct)
  case (create s env req who t res evs)
  then have "le_uuid env \<noteq> i" by auto
  then show ?case using gains_create [OF coherentD(1) [OF create(5)]] create(4) by blast
next
  case (update s env j ureq who adm t ures)
  then show ?case by (intro gains_update [OF coherentD(1)])
next
  case (delete s env j who adm t err evs)
  then show ?case by (intro gains_delete [OF coherentD(1)])
next
  case (click s j dm slug v env t evs)
  from gains_click [OF click(4,1-3), of i] show ?case by (force simp: gains_def split: if_splits)
next
  case (publish l s now)
  from coherent_svcD(4) [OF publish(2)] publish(1) show ?case
    by (intro gains_sub) (auto simp: versions_def dest: put_view_cases notin_set_remove1)
next
  case (drop dm slug s)
  from coherent_svcD(4) [OF drop(2)] show ?case
    by (intro gains_sub) (auto simp: versions_def dest: del_view_cases notin_set_remove1)
next
  case (hit now dm slug s c l)
  then show ?case by (subst serve_step_simps(1), intro gains_lookup) auto
next
  case (hit_visit dm now slug s c l v)
  then show ?case by (subst serve_step_simps(3), intro gains_lookup) auto
next
  case (hit_expired now dm slug s c l)
  then show ?case by (subst serve_step_simps(2), intro gains_lookup) auto
next
  case (miss env dm slug s c l)
  from lookup_link_in [OF coherent_svcD(1) [OF miss(4)] miss(2)] miss show ?case
    by (subst serve_step_simps(2), intro gains_lookup) auto
next
  case (miss_visit env dm slug s c l v)
  from lookup_link_in [OF coherent_svcD(1) [OF miss_visit(5)] miss_visit(2)] miss_visit show ?case by (intro gains_lookup) auto
next
  case (miss_gone now dm slug s c)
  then show ?case by (subst serve_step_simps(1), intro gains_lookup) auto
next
  case (pin_visit env dm slug s l)
  show ?case by (intro gains_sub) (simp add: versions_def)
next
  case (folder_delete flt j who adm s d ferr)
  then show ?case
  proof (cases ferr)
    case None
    then have "db_links d = update_rows (\<lambda>l. l_FolderID l = Some j) (\<lambda>l. l\<lparr>l_FolderID := None\<rparr>) (db_links (ls_db (sv_svc s)))"
      using folder_delete by (auto simp: FolderService_Delete_def release_links_def split: if_splits option.splits)
    then show ?thesis by (intro gains_db) simp_all
  next
    case (Some e)
    with folder_delete folders.del_failed [of flt j who adm "ls_db (sv_svc s)" d e] show ?thesis
      by (intro gains_sub) (auto simp: versions_def)
  qed
next
  case (adopt new old s)
  show ?case by (rule gains_db) (auto simp: adopt_links_def)
next
  case (elsewhere d s)
  then show ?case by (intro gains_sub) (simp add: versions_def)
qed

section \<open>Spending the budget\<close>

lemma under_way_simps [simp]:
  "under_way i (s\<lparr>sv_clicks := q # qs\<rparr>) = (if plain_click i q then Suc (under_way i (s\<lparr>sv_clicks := qs\<rparr>)) else under_way i (s\<lparr>sv_clicks := qs\<rparr>))"
  "under_way i (s\<lparr>sv_clicks := sv_clicks s'\<rparr>) = under_way i s'"
  "under_way i (s\<lparr>sv_readers := ps\<rparr>) = under_way i s" "under_way i (s\<lparr>sv_svc := v\<rparr>) = under_way i s"
  "under_way i (s\<lparr>sv_used := U\<rparr>) = under_way i s" "under_way i (set_cache c s) = under_way i s"
  "under_way i (set_db d s) = under_way i s"
  by (simp_all add: under_way_def set_cache_def set_db_def)

lemma under_way_counted:
  "(j, dm, slug, v) \<in> set (sv_clicks s) \<Longrightarrow>
   under_way i s = under_way i (s\<lparr>sv_svc := t, sv_clicks := remove1 (j, dm, slug, v) (sv_clicks s)\<rparr>) +
     (if plain_click i (j, dm, slug, v) then 1 else 0)"
  using length_pos_if_in_set [of "(j, dm, slug, v)" "filter (plain_click i) (sv_clicks s)"]
  by (auto simp: under_way_def filter_remove1 length_remove1)

definition budget :: "string \<Rightarrow> int \<Rightarrow> serving \<Rightarrow> bool" where
  "budget i m s \<longleftrightarrow> (\<forall>r\<in>set (db_links (ls_db (sv_svc s))). l_ID r = i \<longrightarrow>
     (\<exists>b. l_MaxClicks r = Some b \<and> 0 < b \<and> b \<le> m))"

text \<open>
  A run in which link \<open>i\<close> has, while it is stored, a budget, which its owner may change as long as it
  stays within \<open>m\<close>: \<open>n\<close> visitors have been admitted by slugs without a colon, at most \<open>w\<close> of their
  clicks were under way when one was, and \<open>f\<close> of them were lost by the database. Every other step
  of the service, a visit by a slug with a colon and its click included, is an \<open>other\<close> one.
\<close>

inductive spending :: "link_cfg \<Rightarrow> string \<Rightarrow> int \<Rightarrow> serving \<Rightarrow> nat \<Rightarrow> nat \<Rightarrow> nat \<Rightarrow> serving \<Rightarrow> bool"
  for cfg i m s0 where
  untouched: "budget i m s0 \<Longrightarrow> spending cfg i m s0 0 0 0 s0"
| other: "spending cfg i m s0 n w f s \<Longrightarrow> serve cfg s t \<Longrightarrow> budget i m t \<Longrightarrow>
    under_way i t = under_way i s \<Longrightarrow> spending cfg i m s0 n w f t"
| admitted: "spending cfg i m s0 n w f s \<Longrightarrow> serve cfg s t \<Longrightarrow> budget i m t \<Longrightarrow>
    under_way i t = Suc (under_way i s) \<Longrightarrow> spending cfg i m s0 (Suc n) (max w (under_way i s)) f t"
| counted: "spending cfg i m s0 n w f s \<Longrightarrow> sv_readers s = [] \<Longrightarrow> (i, dm, slug, v) \<in> set (sv_clicks s) \<Longrightarrow>
    colon_free slug \<Longrightarrow> RecordClick cfg env i dm slug v (sv_svc s) = (u, evs) \<Longrightarrow>
    t = s\<lparr>sv_svc := u, sv_clicks := remove1 (i, dm, slug, v) (sv_clicks s)\<rparr> \<Longrightarrow> budget i m t \<Longrightarrow>
    spending cfg i m s0 n w (if recorded env then f else Suc f) t"

lemma serve_used: "serve cfg s t \<Longrightarrow> sv_used s \<subseteq> sv_used t"
  by (induction rule: serve.induct) auto

text \<open>Every step of the server is one of these.\<close>

lemma spending_total:
  assumes "spending cfg i m s0 n w f s" and "serve cfg s t" and "budget i m t"
  shows "\<exists>n' w' f'. spending cfg i m s0 n' w' f' t"
proof -
  have step: ?thesis if "under_way i t = under_way i s \<or> under_way i t = Suc (under_way i s)"
    using that spending.other [OF assms] spending.admitted [OF assms] by blast
  from assms(2) show ?thesis
  proof cases
    case (click j dm slug v env u evs)
    show ?thesis
    proof (cases "plain_click i (j, dm, slug, v)")
      case True
      then have "j = i" "colon_free slug" by (simp_all add: plain_click_def)
      with click assms show ?thesis using spending.counted [OF assms(1), of dm slug v env u evs t] by blast
    next
      case False
      then have "under_way i t = under_way i s" using under_way_counted [OF click(3), of i u] click(1) by simp
      then show ?thesis by (intro step) simp
    qed
  qed (intro step, simp)+
qed

text \<open>A visitor is admitted on a version whose count is below the budget.\<close>

lemma fresh_budget: "\<not> IsExpired now l \<Longrightarrow> l_MaxClicks l = Some b \<Longrightarrow> 0 < b \<Longrightarrow> b \<le> m \<Longrightarrow> l_ClickCount l < m"
  by (auto simp: IsExpired_iff budget_spent_def)

lemma admitted_below:
  assumes "serve cfg s t" and c: "coherent s" and up: "under_way i t = Suc (under_way i s)" and b: "budget i m s"
  shows "\<exists>l\<in>versions s. l_ID l = i \<and> l_ClickCount l < m"
proof -
  let ?rs = "db_links (ls_db (sv_svc s))"
  note ok = coherent_svcD(1,4) [OF c]
  have stored: ?thesis if "x \<in> set ?rs" "l = scan_link x" "l_ID l = i" "\<not> IsExpired now l" for x l now
  proof -
    have "\<exists>b. l_MaxClicks l = Some b \<and> 0 < b \<and> b \<le> m" using that(1-3) b by (auto simp: budget_def scan_link_def)
    with fresh_budget [OF that(4)] that(1-3) show ?thesis by (auto simp: versions_def)
  qed
  from assms(1) show ?thesis
  proof cases
    case (click j dm slug v env u evs)
    with up under_way_counted [OF click(3), of i u] show ?thesis by (auto split: if_splits)
  next
    case (hit_visit dm now slug c' l v)
    have i: "l_ID l = i" "colon_free slug" using up by (auto simp: hit_visit(1) plain_click_def split: if_splits)
    obtain r where r: "r \<in> set ?rs" "serves_as l (scan_link r)" using coherent_hit [OF c hit_visit(2) i(2) hit_visit(3)] by blast
    then obtain b where "l_MaxClicks l = Some b" "0 < b" "b \<le> m"
      using serves_as_fields(1,9) [OF r(2)] b i by (auto simp: budget_def scan_link_def)
    from fresh_budget [OF hit_visit(4) this] have "l_ClickCount l < m" .
    moreover have "plain_key (FormatCacheKey dm slug)" "plain_key (FormatCacheKey [] slug)"
      using hit_visit(2) i(2) by (auto intro!: plain_key_free simp: colon_free_def)
    then have "l \<in> versions s" using lc.get_hit [OF ok(2), of now dm slug l] hit_visit(3) by (auto simp: versions_def key_root)
    ultimately show ?thesis using i by blast
  next
    case (miss_visit env dm slug c' l v)
    have "l_ID l = i" using up by (auto simp: miss_visit(1) plain_click_def split: if_splits)
    with lookup_link_in [OF ok(1) miss_visit(3)] miss_visit(4) stored show ?thesis by blast
  next
    case (pin_visit env dm slug l)
    have "l_ID l = i" using up by (auto simp: pin_visit(1) plain_click_def split: if_splits)
    with GetBySlugRaw_in [OF ok(1) pin_visit(2)] pin_visit(3) stored show ?thesis by blast
  qed (use up in auto)
qed

lemma spending_invariant:
  assumes "spending cfg i m s0 n w f s" and "coherent s0" and "i \<in> sv_used s0"
    and "tallied i c0 s0"
  shows "coherent s \<and> i \<in> sv_used s \<and> budget i m s \<and> tallied i (c0 + int n - int f) s \<and>
    (n = 0 \<or> c0 + int n \<le> m + int w + int f)"
  using assms(1)
proof induction
  case untouched
  then show ?case using assms by simp
next
  case (other n w f s t)
  then have "gains i 0 s t" using serve_gains by blast
  moreover have "tallied i (c0 + int n - int f) s" using other.IH by blast
  ultimately have "tallied i (c0 + int n - int f) t" using other.hyps(4) tallied_gains by fastforce
  then show ?case using other.IH other.hyps(2,3) serve_coherent serve_used by blast
next
  case (admitted n w f s t)
  then have g: "gains i 0 s t" using serve_gains by blast
  have c: "coherent s" "budget i m s" and ta: "tallied i (c0 + int n - int f) s" using admitted.IH by blast+
  obtain l where l: "l \<in> versions s" "l_ID l = i" "l_ClickCount l < m"
    using admitted_below [OF admitted.hyps(2) c(1) admitted.hyps(4) c(2)] by blast
  then have "c0 + int n - int f \<le> l_ClickCount l + int (under_way i s)" using ta by (simp add: tallied_def)
  then have "c0 + int (Suc n) \<le> m + int (max w (under_way i s)) + int f" using l(3) by simp
  moreover have "tallied i (c0 + int (Suc n) - int f) t"
    using admitted.hyps(4) by (intro tallied_gains [OF ta g]) simp
  ultimately show ?case using admitted.IH admitted.hyps(2,3) serve_coherent serve_used by blast
next
  case (counted n w f s dm slug v env u evs t)
  have p: "plain_click i (i, dm, slug, v)" using counted.hyps(4) by (simp add: plain_click_def)
  have st: "serve cfg s t" using serve.click [OF counted.hyps(2,3,5)] counted.hyps(6) by simp
  have ta: "tallied i (c0 + int n - int f) s" and c: "coherent s" using counted.IH by blast+
  have g: "gains i (if recorded env then 1 else 0) s t"
    using gains_click [OF c counted.hyps(2,3,5), of i] counted.hyps(6) p by simp
  have "tallied i (c0 + int n - int (if recorded env then f else Suc f)) t"
    using under_way_counted [OF counted.hyps(3), of i u] counted.hyps(6) p by (intro tallied_gains [OF ta g]) simp
  moreover have "n = 0 \<or> c0 + int n \<le> m + int w + int (if recorded env then f else Suc f)" using counted.IH by auto
  ultimately show ?case using counted.IH counted.hyps(7) st serve_coherent serve_used by blast
qed

lemma tallied_boot:
  assumes "links_ok (db_links d)" and "r \<in> set (db_links d)"
  shows "tallied (l_ID r) (l_ClickCount r) (boot d capacity ttl)"
proof -
  have "x = r" if "x \<in> set (db_links d)" "l_ID x = l_ID r" for x
    using assms that distinct_map_inj [of l_ID "db_links d" x r] by (simp add: links_ok_def)
  then show ?thesis
    using NewLinkCache_abs [of capacity ttl] by (auto simp: tallied_def versions_def boot_def lc_view_def under_way_def)
qed

text \<open>
  Claim C12. A click budget holds up to what is under way: however visitors, owners' edits,
  goroutines, visits by slugs with colons and faults of the database interleave, a link that had
  counted \<open>l_ClickCount r\<close> at the start and has all along a budget of at most \<open>m\<close> clicks (its owner
  may move it below \<open>m\<close>, not lift it) admits by slugs without a colon, as every slug the service
  accepts is, at most the clicks that were left, plus the clicks of such visitors that were scheduled
  and not yet counted when one was admitted, plus those the database failed to record. So visitors
  one at a time and a sound database never exceed it.
\<close>

theorem budget_overshoot:
  assumes "spending cfg i m (boot d capacity ttl) n w f s" and "links_ok (db_links d)" and "slugs_ok (db_links d)"
    and "r \<in> set (db_links d)" and "l_ID r = i"
  shows "int n \<le> max 0 (m - l_ClickCount r) + int w + int f"
proof -
  have "coherent (boot d capacity ttl)" using assms(2,3) by (rule boot_coherent)
  moreover have "i \<in> sv_used (boot d capacity ttl)" using assms(4,5) by (auto simp: boot_def)
  moreover have "tallied i (l_ClickCount r) (boot d capacity ttl)"
    using tallied_boot [OF assms(2,4)] assms(5) by simp
  ultimately show ?thesis using spending_invariant [OF assms(1)] by fastforce
qed

text \<open>Two visitors who overlap both spend the only click of a budget of one, so the bound is met.\<close>

definition scarce_link :: link where
  "scarce_link = zero_link\<lparr>l_ID := ''u3'', l_Slug := ''promo'', l_IsActive := True, l_MaxClicks := Some 1\<rparr>"

definition scarce_db :: db where "scarce_db = empty_db\<lparr>db_links := [scarce_link]\<rparr>"

definition crowd :: "nat \<Rightarrow> serving" where
  "crowd k = (boot scarce_db 0 0)\<lparr>sv_readers := replicate k (Publish scarce_link),
     sv_clicks := replicate k (''u3'', [], ''promo'', [])\<rparr>"

lemma crowd_step: "serve example_cfg (crowd k) (crowd (Suc k))"
proof -
  let ?s = "crowd k"
  have g: "LinkCache_Get (le_now example_env) [] ''promo'' (ls_cache (sv_svc ?s)) = (ls_cache (sv_svc ?s), None)"
    by (simp add: crowd_def boot_def LinkCache_Get_def find_elem_def NewLinkCache_def Let_def FormatCacheKey_def)
  have l: "lookup_link example_env [] ''promo'' (ls_db (sv_svc ?s)) = Inr scarce_link"
    by (simp add: crowd_def boot_def scarce_db_def lookup_link_def GetBySlugRaw_eq links_ok_def best_match_def scan_row_def query_row_def
        scarce_link_def zero_link_def scan_link_def example_env_def by_key_def link_key_def)
  have "\<not> IsExpired (le_now example_env) scarce_link" "\<not> l_HasPIN scarce_link"
    by (simp_all add: IsExpired_iff time_over_def budget_spent_def scarce_link_def zero_link_def)
  from serve.miss_visit [OF g l this, of example_cfg "[]"] show ?thesis
    by (simp add: crowd_def scarce_link_def zero_link_def set_cache_def boot_def)
qed

theorem budget_overshoot_witness:
  "spending example_cfg ''u3'' 1 (boot scarce_db 0 0) 2 1 0 (crowd 2) \<and>
   int 2 \<le> max 0 (1 - l_ClickCount scarce_link) + int 1 + int 0"
proof -
  have b: "budget ''u3'' 1 (crowd k)" for k
    by (simp add: budget_def crowd_def boot_def scarce_db_def scarce_link_def)
  have u: "under_way ''u3'' (crowd k) = k" for k by (simp add: under_way_def crowd_def plain_click_def colon_free_def)
  have z: "crowd 0 = boot scarce_db 0 0" by (simp add: crowd_def boot_def)
  have "spending example_cfg ''u3'' 1 (boot scarce_db 0 0) 0 0 0 (crowd 0)" using spending.untouched b [of 0] by (simp add: z)
  from spending.admitted [OF this crowd_step b] have "spending example_cfg ''u3'' 1 (boot scarce_db 0 0) 1 0 0 (crowd 1)"
    by (simp add: u)
  from spending.admitted [OF this crowd_step b] have two: "spending example_cfg ''u3'' 1 (boot scarce_db 0 0) 2 1 0 (crowd 2)"
    by (simp add: u numeral_2_eq_2)
  moreover have "int 2 \<le> max 0 (1 - l_ClickCount scarce_link) + int 1 + int 0"
    by (rule budget_overshoot [OF two]) (simp_all add: scarce_db_def scarce_link_def links_ok_def slugs_ok_def colon_free_def zero_link_def)
  ultimately show ?thesis by blast
qed

end
