(* ===== verification/Main_Program.thy ===== *)
theory Main_Program
  imports Router Web_Format
begin

text \<open>
  The program from its start to its end, cmd/linkup/main.go: loading the configuration, opening the
  database, building the services and the pages, serving, and stopping. The environment variables,
  the file system, template parsing and the digest of the static files are parameters; \<open>Fatal\<close> is
  \<open>log.Fatalf\<close>.
\<close>

datatype common = C_text string | C_flag bool

text \<open>What every page gets from \<open>SetCommon\<close>.\<close>

definition common_data :: "config \<Rightarrow> string \<Rightarrow> (string \<rightharpoonup> common)" where
  "common_data cfg version = map_of
     [(''ProviderName'', C_text (cfg_OIDCProviderName cfg)), (''FooterLinks'', C_flag (cfg_FooterLinks cfg)),
      (''EnrollURL'', C_text (cfg_EnrollURL cfg)), (''AccountURL'', C_text (cfg_AccountURL cfg)),
      (''QRForgeURL'', C_text (cfg_QRForgeURL cfg)), (''DefaultDomain'', C_text (cfg_DefaultDomain cfg)),
      (''AssetVersion'', C_text version)]"

record 'o server =
  sr_Addr :: string
  sr_ReadTimeout :: int
  sr_WriteTimeout :: int
  sr_IdleTimeout :: int
  sr_db :: db_handle
  sr_templates :: "(string \<times> 'o) list"
  sr_comunes :: "string \<rightharpoonup> common"
  sr_version :: string
  sr_app :: app

datatype 'o start = Fatal string | Serves "'o server"

record 'o main_env =
  mn_random :: string
  mn_vars :: environment
  mn_open :: open_env
  mn_auth :: auth_env
  mn_round :: "rat \<Rightarrow> rat"
  mn_parse :: "string \<Rightarrow> string \<Rightarrow> 'o option"
  mn_digest :: "string \<Rightarrow> string"
  mn_static :: "(string \<times> string) list"

definition new_server :: "'o main_env \<Rightarrow> config \<Rightarrow> db_handle \<Rightarrow> (string \<times> 'o) list \<Rightarrow> db \<Rightarrow> 'o server" where
  "new_server env cfg h templates d =
     (let version = AssetVersion (mn_digest env) (mn_static env) in
      \<lparr>sr_Addr = cfg_Host cfg @ '':'' @ Itoa (cfg_Port cfg), sr_ReadTimeout = 10 * second_ns,
       sr_WriteTimeout = 15 * second_ns, sr_IdleTimeout = 60 * second_ns, sr_db = h, sr_templates = templates,
       sr_comunes = common_data cfg version, sr_version = version,
       sr_app = main_app (mn_round env) (mn_auth env) cfg d\<rparr>)"

text \<open>\<open>main\<close> up to serving: the schema it leaves behind, and how it ended.\<close>

definition main_program :: "'o main_env \<Rightarrow> schema \<Rightarrow> db \<Rightarrow> schema \<times> 'o start" where
  "main_program env sch d =
     (case Load (mn_random env) (mn_vars env) of
        None \<Rightarrow> (sch, Fatal ''LINKUP_DEV_MODE is on without OIDC on a public address'')
      | Some cfg \<Rightarrow>
          (case Open (mn_open env) (cfg_DBPath cfg) sch of
             (sch1, None) \<Rightarrow> (sch1, Fatal ''Failed to initialize database'')
           | (sch1, Some h) \<Rightarrow>
               (case NewRenderer (mn_parse env) of
                  None \<Rightarrow> (sch1, Fatal ''Failed to initialize web templates'')
                | Some templates \<Rightarrow> (sch1, Serves (new_server env cfg h templates d)))))"

section \<open>Serving and stopping\<close>

text \<open>
  After that \<open>main\<close> waits for a signal while a goroutine serves. \<open>ListenAndServe\<close> comes back with
  \<open>ErrServerClosed\<close> once \<open>Shutdown\<close> is called, and with another error ends the program; \<open>Shutdown\<close>
  waits at most five seconds for the requests under way.
\<close>

datatype phase = Waiting | Draining | Stopped | Crashed

datatype main_event = Serve_returned bool | Signalled | Drained int

definition shutdown_grace :: int where "shutdown_grace = 5 * second_ns"

fun main_step :: "phase \<Rightarrow> main_event \<Rightarrow> phase" where
  "main_step Waiting (Serve_returned orderly) = (if orderly then Waiting else Crashed)"
| "main_step Draining (Serve_returned orderly) = (if orderly then Draining else Crashed)"
| "main_step Waiting Signalled = Draining"
| "main_step Draining (Drained waited) = (if waited \<le> shutdown_grace then Stopped else Draining)"
| "main_step p e = p"

text \<open>The phases follow one another: the program never goes back.\<close>

primrec phase_rank :: "phase \<Rightarrow> nat" where
  "phase_rank Waiting = 0"
| "phase_rank Draining = 1"
| "phase_rank Stopped = 2"
| "phase_rank Crashed = 3"

lemma phase_rank_inj: "phase_rank p = phase_rank q \<Longrightarrow> p = q"
  by (cases p; cases q) simp_all

instantiation phase :: linorder
begin

definition less_eq_phase :: "phase \<Rightarrow> phase \<Rightarrow> bool" where
  "less_eq_phase p q \<longleftrightarrow> phase_rank p \<le> phase_rank q"

definition less_phase :: "phase \<Rightarrow> phase \<Rightarrow> bool" where
  "less_phase p q \<longleftrightarrow> phase_rank p < phase_rank q"

instance
  by standard (auto simp: less_eq_phase_def less_phase_def dest: phase_rank_inj)

end

lemma main_step_onwards: "p \<le> main_step p e"
  by (induction p e rule: main_step.induct) (auto simp: less_eq_phase_def)

lemma phases_onwards: "p \<le> foldl main_step p es"
  by (induction es arbitrary: p) (auto intro: order_trans main_step_onwards)

fun_cases main_step_stopped: "main_step p e = Stopped"

text \<open>The program stops in good order only after a signal, and its requests had five seconds.\<close>

lemma stopped_after_signal:
  "foldl main_step Waiting es = Stopped \<Longrightarrow>
     \<exists>es1 es2 es3 d. es = es1 @ Signalled # es2 @ Drained d # es3 \<and> d \<le> shutdown_grace"
proof (induction es rule: rev_induct)
  case (snoc e es)
  have drained: "\<exists>es1 es2. es = es1 @ Signalled # es2" if "foldl main_step Waiting es = Draining" for es
    using that
  proof (induction es rule: rev_induct)
    case (snoc e es)
    then show ?case
      by (cases "foldl main_step Waiting es"; cases e) (auto split: if_splits intro: exI [of _ "[]"])
  qed simp
  show ?case
  proof (cases "foldl main_step Waiting es = Stopped")
    case True
    then obtain es1 es2 es3 d where "es = es1 @ Signalled # es2 @ Drained d # es3" "d \<le> shutdown_grace"
      using snoc.IH by blast
    then have "es @ [e] = es1 @ Signalled # es2 @ Drained d # (es3 @ [e]) \<and> d \<le> shutdown_grace" by simp
    then show ?thesis by blast
  next
    case False
    then obtain d where d: "foldl main_step Waiting es = Draining" "e = Drained d" "d \<le> shutdown_grace"
      using snoc.prems by (auto elim!: main_step_stopped split: if_splits)
    from drained [OF d(1)] obtain es1 es2 where "es = es1 @ Signalled # es2" by blast
    then have "es @ [e] = es1 @ Signalled # es2 @ Drained d # []" using d(2) by simp
    then show ?thesis using d(3) by blast
  qed
qed simp

section \<open>The pages of a response\<close>

text \<open>The template a response is rendered with.\<close>

fun page_template :: "reply \<Rightarrow> string option" where
  "page_template (P_landing u t e) = Some ''landing.html''"
| "page_template (P_error u p) = Some ''error.html''"
| "page_template (P_pin u p) = Some ''pin.html''"
| "page_template (P_preview u p) = Some ''preview.html''"
| "page_template (P_dashboard dd) = Some ''dashboard.html''"
| "page_template (P_settings sd) = Some ''settings.html''"
| "page_template _ = None"

lemma parse_pages_names: "parse_pages parse ps = Some ts \<Longrightarrow> map fst ts = ps"
  by (induction ps arbitrary: ts) (auto split: option.splits)

lemma page_template_parsed:
  assumes "NewRenderer parse = Some ts" and "page_template body = Some name"
  shows "name \<in> fst ` set ts"
proof -
  have "fst ` set ts = set template_pages"
    using parse_pages_names [of parse template_pages ts] assms(1) by (metis NewRenderer_def list.set_map)
  then show ?thesis using assms(2) by (cases body) (auto simp: template_pages_def)
qed

text \<open>A look at the database that nothing disturbs, on the handle and the schema of the server.\<close>

definition quiet_probe :: "probe_env \<Rightarrow> db_handle \<Rightarrow> schema \<Rightarrow> bool" where
  "quiet_probe env h sch \<longleftrightarrow> pr_slot env \<and> (\<forall>k. \<not> pr_late env k) \<and> (\<forall>k. \<not> pr_closed env k) \<and>
     (\<forall>k. pr_Lstat env k (dh_path h) = map_option (Pair True) (dh_identity h)) \<and> pr_Abs env (dh_path h) \<noteq> None \<and>
     (\<forall>uri. pr_connect env uri = Some sch) \<and> (\<forall>q. \<not> pr_fault env q)"

lemma Open_identity: "Open env dbPath sch = (sch', Some h) \<Longrightarrow> dh_identity h \<noteq> None"
  by (auto simp: Open_def split: option.splits if_splits prod.splits bool.splits)

lemma quiet_ready:
  assumes "Open env dbPath [] = (sch, Some h)" and "quiet_probe pe h sch"
  shows "Ready pe (Some h)"
  using Open_fresh [OF assms(1)] Open_identity [OF assms(1)] assms(2)
  by (auto simp: Ready_iff quiet_probe_def)

section \<open>Properties\<close>

text \<open>
  Claim C33. A program that gets to serving is fit to serve: its panel is not open (OIDC is
  configured, or development mode is off, or it listens on a loopback address), its session
  secret has at least 32 bytes, private targets are off unless asked for, it runs on the state
  the other properties start from, every page a handler answers has a parsed template, and on a
  new database its health check is green whenever nothing disturbs it.
\<close>

theorem served_program_is_fit:
  assumes "main_program env sch d = (sch', Serves srv)" and "32 \<le> length (mn_random env)"
  shows "(\<exists>cfg. sr_app srv = main_app (mn_round env) (mn_auth env) cfg d \<and>
      (cfg_DevMode cfg \<longrightarrow> IsOIDCConfigured cfg \<or> isLoopbackHost (cfg_Host cfg)) \<and>
      32 \<le> length (cfg_SessionSecret cfg) \<and>
      (cfg_AllowPrivateTargets cfg \<longrightarrow> ParseBool (mn_vars env ''LINKUP_ALLOW_PRIVATE_TARGETS'') = Some True)) \<and>
    (\<forall>body name. page_template body = Some name \<longrightarrow> name \<in> fst ` set (sr_templates srv)) \<and>
    (\<forall>pe. sch = [] \<longrightarrow> quiet_probe pe (sr_db srv) sch' \<longrightarrow> Ready pe (Some (sr_db srv)))"
proof -
  obtain cfg h ts where m: "Load (mn_random env) (mn_vars env) = Some cfg"
    "Open (mn_open env) (cfg_DBPath cfg) sch = (sch', Some h)" "NewRenderer (mn_parse env) = Some ts"
    "srv = new_server env cfg h ts d"
    using assms(1) by (auto simp: main_program_def split: option.splits prod.splits)
  note safe = Load_never_open [OF m(1) assms(2)]
  have "sr_app srv = main_app (mn_round env) (mn_auth env) cfg d" "sr_templates srv = ts" "sr_db srv = h"
    by (simp_all add: m(4) new_server_def Let_def)
  then show ?thesis using safe page_template_parsed [OF m(3)] quiet_ready m(2) by auto
qed

definition example_main :: "string main_env" where
  "example_main = \<lparr>mn_random = replicate 32 CHR ''r'', mn_vars = (\<lambda>k. []), mn_open = example_open,
     mn_auth = example_auth, mn_round = (\<lambda>x. x), mn_parse = (\<lambda>layout p. Some p), mn_digest = (\<lambda>b. b), mn_static = []\<rparr>"

lemma example_main_serves: "\<exists>cfg ts. main_program example_main [] empty_db =
  (tables migrations, Serves (new_server example_main cfg \<lparr>dh_opened = True, dh_path = ''/data/./data/linkup.db'',
     dh_identity = Some 7, dh_closed = False\<rparr> ts empty_db))"
proof -
  let ?cfg = "read_config (replicate 32 CHR ''r'') (\<lambda>k. [])"
  have "Migrate (\<lambda>n. False) [] = (tables migrations, True)" by code_simp
  then have "Open example_open (cfg_DBPath ?cfg) [] = (tables migrations,
      Some \<lparr>dh_opened = True, dh_path = ''/data/./data/linkup.db'', dh_identity = Some 7, dh_closed = False\<rparr>)"
    by (simp add: Open_def example_open_def read_config_def Let_def getEnv_def)
  moreover have "\<not> refuseUnsafeDevMode ?cfg"
    by (simp add: refuseUnsafeDevMode_def read_config_def Let_def getEnvAsBool_def)
  then have "Load (replicate 32 CHR ''r'') (\<lambda>k. []) = Some ?cfg" by (simp add: Load_def Let_def)
  moreover obtain ts where "NewRenderer (\<lambda>layout p. Some p) = Some ts"
    by (simp add: NewRenderer_def template_pages_def)
  ultimately show ?thesis
    by (intro exI [of _ ?cfg] exI [of _ ts]) (simp add: main_program_def example_main_def)
qed

theorem served_program_is_fit_witness:
  "\<exists>srv. snd (main_program example_main [] empty_db) = Serves srv \<and>
     Ready (example_probe\<lparr>pr_connect := \<lambda>u. Some (tables migrations)\<rparr>) (Some (sr_db srv))"
proof -
  obtain cfg ts where m: "main_program example_main [] empty_db =
    (tables migrations, Serves (new_server example_main cfg \<lparr>dh_opened = True, dh_path = ''/data/./data/linkup.db'',
       dh_identity = Some 7, dh_closed = False\<rparr> ts empty_db))"
    using example_main_serves by blast
  have "32 \<le> length (mn_random example_main)" by (simp add: example_main_def)
  from served_program_is_fit [OF m this] show ?thesis
    by (simp add: m quiet_probe_def example_probe_def new_server_def Let_def)
qed

end
