(* ===== verification/Spec2Isabelle.thy ===== *)
theory Spec2Isabelle
  imports Rate_Limits Domain_Service Webhook_Service Router_Engine Config Visits Click_Budget Main_Program
begin

text \<open>
  LinkUp, a self-hosted URL shortener in Go: a model of the server and what makes it correct.

  \<^bold>\<open>The program.\<close> \<open>cmd/linkup/main.go\<close> loads the configuration, opens the SQLite database, builds
  the services over it and serves HTTP. The link service keeps a database and, in front of it, an
  LRU cache; owners create, edit and delete links through the API or the pages, visitors follow
  them through \<open>/{slug}\<close>, a goroutine counts each click and a dispatcher tells the owner's
  webhooks. People sign in with OpenID Connect; every request asks the provider again. A link may
  carry a PIN, a time limit, a click budget, targets by device and language, and weighted variants.

  \<^bold>\<open>Theories, bottom up.\<close>
  \<^item> \<open>Prelude\<close>: Go's strings, integers, time and strconv; the collections and bundles of rules the
    components share (\<open>split_simps\<close>, \<open>scan_simps\<close>, \<open>char_class_defs\<close>, \<open>duration_defs\<close>).
    \<open>Utf8\<close>, \<open>Go_Url\<close>, \<open>Go_Ip\<close>, \<open>Base64\<close>, \<open>Http\<close>, \<open>Http_Client\<close>, \<open>Http_Location\<close>: what the program uses of
    unicode/utf8, net/url, net, encoding/base64, net/http (requests and responses; the client with
    its timeout and redirections; the \<open>Location\<close> that \<open>http.Redirect\<close> writes).
  \<^item> Data: \<open>Models\<close> (internal/models), \<open>Database\<close> (the tables and keys of internal/database/schema.go),
    \<open>Readiness\<close> (opening, migrating and probing the database: db.go, schema.go, readiness.go).
  \<^item> Components of internal/services, each with its state, its operations in the order of the file,
    and its lemmas: \<open>Cache\<close> (cache.go), \<open>Cleaner\<close> (cleaner.go), \<open>Egress\<close> (egress.go), \<open>Pin\<close> (pin.go),
    \<open>Link_Service\<close>, \<open>Folder_Service\<close>, \<open>Domain_Service\<close>, \<open>Api_Key_Service\<close>, \<open>Webhook_Service\<close>,
    \<open>Router_Engine\<close>, \<open>Rate_Limits\<close> (limites.go), \<open>Csv_Service\<close>, \<open>Qr\<close>, \<open>Oidc_Origin\<close> (oidc_origen.go),
    \<open>Auth\<close> (auth.go and auth_revocation.go); \<open>Config\<close> (internal/config) and \<open>Web_Format\<close>
    (internal/web/embed.go).
  \<^item> The HTTP side, internal/handlers: \<open>Api_Handlers\<close> (the REST API and the write limit),
    \<open>Page_Handlers\<close> (redirection, preview, PIN form, sign-in, settings, dashboard) and \<open>Router\<close> (the
    route table, the middleware, and \<open>main_app\<close>, the state \<open>main\<close> starts from). A handler maps an
    environment, a request and the state \<open>app\<close> to the next state and a response.
    \<open>Main_Program\<close> is \<open>main\<close> itself: start, serving, and stopping on a signal.
  \<^item> Composition: \<open>Serving\<close> (the link service under concurrency, as a step relation), \<open>Sessions\<close>
    (sign-in, revocation, keys), \<open>Requests\<close> (whole requests and the reachable states \<open>app_run\<close>),
    \<open>Program_Run\<close> (every run of the program is a run of \<open>Serving\<close>), \<open>Tenancy\<close> (owners), \<open>Visits\<close>
    (visitors, from the request to the count of the click), \<open>Click_Budget\<close> (visitors whose clicks
    are counted after the next one has come).

  \<^bold>\<open>Interfaces.\<close> \<open>slug_cache\<close> (in \<open>Cache\<close>) is what the link service relies on of a cache; the Go
  structure, a map of pointers into a linked list, is its model, through the refinement of an
  abstract LRU list. \<open>owned_table\<close> is the contract of the four services whose rows belong to a
  user. \<open>db_contract\<close> (in \<open>Requests\<close>) is what a property of the database has to say of each service
  operation so that every request keeps it; the typing of the tables and the rows of one owner
  are its two models.

  \<^bold>\<open>What the lemmas show.\<close>
  \<^item> Links: creating, editing and deleting do what they say on every branch, for the owner or an
    administrator alone, and keep the cache coherent; under any interleaving a visitor gets a stored
    version of the link, and the program, request by request, is such an interleaving, so a redirection
    leads where the owner says, to the byte of the \<open>Location\<close>. A link with a PIN gives nothing away;
    a click budget is spent exactly by visitors who come one after the other, and when they overlap
    exceeded by no more than the clicks under way.
  \<^item> Whole requests: the stored links stay well-typed, one user's requests leave another's rows
    alone, the API shows a caller its own rows (the list and the export exactly those), nothing happens without a caller, every slug is
    routed, every response carries the security headers.
  \<^item> Sign-in: what the callback demands, that a session is as good as the provider's current word, its groups being those of UserInfo's answer,
    that revocation is final, that logout tokens are single-use, that keys need a live login.
  \<^item> Guards: PIN guesses, parallel ones included, are bounded in time (and the state in which they are
    not), outbound addresses are outside the blocked ranges, the cleaner strips of what it can decode
    the trackers only, webhooks go to validated endpoints at most three times, without following
    redirections and within 22 seconds of the check of the address; a program that serves has no open panel, every page it names, and a green health check.
  \<^item> Round trips: session cookies, API keys, the path of the QR code; the internal origin of the
    provider; the weights of variants; an import, row by row, and why an export cannot be imported; the
    health check and the schema.

  \<^bold>\<open>Scope of the main properties.\<close>
  \<^item> Slugs with a colon. \<open>serve\<close> and \<open>program_run\<close> allow requests with any slug, so every state below
    may have been reached by them. What is then promised of a lookup, a redirection, the PIN form or
    the budget is promised for slugs without a colon, as every slug the service accepts is
    (\<open>slugs_ok\<close>, kept by every operation). For slugs with one it fails: \<open>FormatCacheKey\<close> takes \<open>s\<close> in
    domain \<open>d\<close> and \<open>d:s\<close> in the root for the same, so the entry of a deleted link may be reached
    by \<open>/d:s\<close> until it expires (\<open>colon_slug_survives_delete\<close>).
  \<^item> Budgets. \<open>click_budget\<close> is about visitors whose clicks are counted one after the other, without
    faults or edits; \<open>budget_overshoot\<close> bounds the rest, for owners who do not lift the budget above
    the one it is stated for.
  \<^item> PIN guesses. \<open>guessing\<close> has the two critical sections of the PIN form apart, with up to \<open>p\<close>
    comparisons between them; nobody enters the right PIN, the clock does not go back, and the guard
    tracks fewer than 1023 links (\<open>pin_budget_lost_when_crowded\<close> is the other case).
  \<^item> Time of a delivery. The client's five seconds bound an attempt; the lookup of the check before the
    first attempt has no deadline, and \<open>delivery_time\<close> adds it as it is.

  \<^bold>\<open>Conventions.\<close> A Go string is its bytes, a pointer an option, an error a constructor of an error
  type; \<open>int\<close> and \<open>int64\<close> are integers, with \<open>wrap64\<close> where the code computes with values it has not
  bounded. Randomness, clocks and failures of the database are arguments: an environment has
  one reading of each for an operation, except where the code reads again after waiting
  (\<open>ae_later\<close>); each statement of a service may fail on its own. No loop needs fuel: \<open>deliverWebhook\<close> and
  \<open>generateUniqueSlug\<close> run over their three and ten attempts, the others over lists.

  \<^bold>\<open>Parameters,\<close> which stand for code outside src: bcrypt, SHA-256, HMAC and AES-GCM, the JSON and
  CSV codecs, go-oidc and the provider, the QR library, SQLite, the router library (a function
  with the laws \<open>mux_ok\<close>, and an instance of them), template execution, layouts of dates, DNS and the
  network behind an HTTP client, upper case outside ASCII, \<open>http.FileServer\<close>. Laws that a property needs of them are its hypotheses (\<open>bcrypt_ok\<close>,
  \<open>codec_ok\<close>, \<open>mux_ok\<close>), each with an instance in the witness. \<open>ae_Meanwhile\<close> is what other requests do to
  the database while the provider answers.

  \<^bold>\<open>Not modelled.\<close> Connection pools and PRAGMAs, the listening socket and the log, templates and
  scripts, the embedded files, recovery from panics (but for the one that a variant without
  weights can cause), the dialling of an outbound call (it resolves
  the name once more after \<open>ValidateOutboundURL\<close> has; its answer is a parameter). JSON columns carry
  decoded values (text that is not UTF-8 is not considered), and the counters of clicks do not
  overflow in SQLite. Workers of an import run in an arbitrary order; the events they send are not
  recorded. In \<open>Program_Run\<close> requests run one after the other as far as the links are concerned (while the
  provider answers, others may do anything that takes no lock of the link service); overlapping
  lookups are in \<open>Serving\<close>.
\<close>

end
